(* ===== verification/Kernel_Prelude.thy ===== *)
theory Kernel_Prelude
  imports Main "HOL-Library.Word" "HOL-Library.Char_ord" "HOL-Library.List_Lexorder"
begin

text \<open>
  Shared vocabulary of the development: Rust's \<open>Result\<close> as a sum type and its \<open>?\<close> operator,
  mutating methods as functions of an explicit state, the fixed-width integers with the
  checked and saturating operations of the standard library, \<open>BTreeMap\<close> as strictly sorted
  entry lists, byte strings and the text predicates the kernel applies to them, decimal and
  little-endian rendering, and the three interfaces several components share: a catalogue of
  wire names, a state machine given by its legal edges, and a store whose operations keep an
  invariant.
\<close>

named_theorems result_simps \<open>unfolding of result and state sequencing\<close>
named_theorems word_nat \<open>machine arithmetic read as natural numbers\<close>
named_theorems wire_simps \<open>wire names and their parsers\<close>

section \<open>Results and state passing\<close>

type_synonym ('e, 'a) result = "'e + 'a"

abbreviation Err :: "'e \<Rightarrow> 'e + 'a" where
  "Err \<equiv> Inl"

abbreviation Ok :: "'a \<Rightarrow> 'e + 'a" where
  "Ok \<equiv> Inr"

text \<open>The \<open>?\<close> operator on a value: an error leaves the function at once.\<close>

definition res_bind :: "'e + 'a \<Rightarrow> ('a \<Rightarrow> 'e + 'b) \<Rightarrow> 'e + 'b" where
  "res_bind r k = (case r of Inl e \<Rightarrow> Inl e | Inr a \<Rightarrow> k a)"

text \<open>\<open>Option::ok_or\<close> and \<open>Result::map_err\<close>.\<close>

definition ok_or :: "'a option \<Rightarrow> 'e \<Rightarrow> 'e + 'a" where
  "ok_or x e = (case x of None \<Rightarrow> Inl e | Some a \<Rightarrow> Inr a)"

definition map_err :: "('e \<Rightarrow> 'f) \<Rightarrow> 'e + 'a \<Rightarrow> 'f + 'a" where
  "map_err f r = (case r of Inl e \<Rightarrow> Inl (f e) | Inr a \<Rightarrow> Inr a)"

definition is_ok :: "'e + 'a \<Rightarrow> bool" where
  "is_ok r = (case r of Inl _ \<Rightarrow> False | Inr _ \<Rightarrow> True)"

text \<open>
  A method taking \<open>&mut self\<close> and returning a \<open>Result\<close>: the outcome and the state it leaves,
  because a refusal may come after a mutation.
\<close>

type_synonym ('s, 'e, 'a) mut_op = "'s \<Rightarrow> ('e + 'a) \<times> 's"

definition st_ok :: "'a \<Rightarrow> ('s, 'e, 'a) mut_op" where
  "st_ok a s = (Inr a, s)"

definition st_err :: "'e \<Rightarrow> ('s, 'e, 'a) mut_op" where
  "st_err e s = (Inl e, s)"

definition st_lift :: "'e + 'a \<Rightarrow> ('s, 'e, 'a) mut_op" where
  "st_lift r s = (r, s)"

definition st_get :: "('s \<Rightarrow> 'e + 'a) \<Rightarrow> ('s, 'e, 'a) mut_op" where
  "st_get f s = (f s, s)"

definition st_modify :: "('s \<Rightarrow> 's) \<Rightarrow> ('s, 'e, unit) mut_op" where
  "st_modify f s = (Inr (), f s)"

definition st_bind :: "('s, 'e, 'a) mut_op \<Rightarrow> ('a \<Rightarrow> ('s, 'e, 'b) mut_op) \<Rightarrow> ('s, 'e, 'b) mut_op" where
  "st_bind m k s = (case m s of (Inl e, t) \<Rightarrow> (Inl e, t) | (Inr a, t) \<Rightarrow> k a t)"

section \<open>Machine integers\<close>

type_synonym u8 = "8 word"
type_synonym u16 = "16 word"
type_synonym u32 = "32 word"
type_synonym u64 = "64 word"

definition checked_add :: "'w::len word \<Rightarrow> 'w word \<Rightarrow> 'w word option" where
  "checked_add a b = (if unat a + unat b < 2 ^ LENGTH('w) then Some (a + b) else None)"

definition checked_sub :: "'w::len word \<Rightarrow> 'w word \<Rightarrow> 'w word option" where
  "checked_sub a b = (if b \<le> a then Some (a - b) else None)"

definition saturating_add :: "'w::len word \<Rightarrow> 'w word \<Rightarrow> 'w word" where
  "saturating_add a b = (if unat a + unat b < 2 ^ LENGTH('w) then a + b else - 1)"

definition saturating_sub :: "'w::len word \<Rightarrow> 'w word \<Rightarrow> 'w word" where
  "saturating_sub a b = (if b \<le> a then a - b else 0)"

definition saturating_mul :: "'w::len word \<Rightarrow> 'w word \<Rightarrow> 'w word" where
  "saturating_mul a b = (if unat a * unat b < 2 ^ LENGTH('w) then a * b else - 1)"

text \<open>Signed 64-bit values are integers with the range check of the checked operations.\<close>

definition i64_checked :: "int \<Rightarrow> int option" where
  "i64_checked n = (if - (2 ^ 63) \<le> n \<and> n < 2 ^ 63 then Some n else None)"

section \<open>Ordered maps\<close>

text \<open>
  \<open>BTreeMap<K, V>\<close>: the entries in strictly ascending key order, which is also the order in
  which every iterator of the map yields them. Two maps are equal exactly when they hold the
  same entries, as \<open>PartialEq\<close> of the standard library has it.
\<close>

fun ins_entry :: "'k::linorder \<Rightarrow> 'v \<Rightarrow> ('k \<times> 'v) list \<Rightarrow> ('k \<times> 'v) list" where
  "ins_entry k v [] = [(k, v)]"
| "ins_entry k v (e # es) =
     (if k < fst e then (k, v) # e # es
      else if k = fst e then (k, v) # es
      else e # ins_entry k v es)"

typedef (overloaded) ('k, 'v) btree_map =
  "{es :: ('k::linorder \<times> 'v) list. sorted_wrt (<) (map fst es)}"
  morphisms bt_entries Bt
  by (rule exI [of _ "[]"]) simp

setup_lifting type_definition_btree_map

lift_definition bt_empty :: "('k::linorder, 'v) btree_map" is "[]"
  by simp

lemma fst_set_ins_entry: "fst ` set (ins_entry k v es) = insert k (fst ` set es)"
  by (induction es) auto

lemma sorted_ins_entry:
  "sorted_wrt (<) (map fst es) \<Longrightarrow> sorted_wrt (<) (map fst (ins_entry k v es))"
proof (induction es)
  case (Cons e es)
  then show ?case
    using fst_set_ins_entry [of k v es] by (fastforce simp: image_iff)
qed simp

lift_definition bt_insert :: "'k::linorder \<Rightarrow> 'v \<Rightarrow> ('k, 'v) btree_map \<Rightarrow> ('k, 'v) btree_map"
  is ins_entry
  by (rule sorted_ins_entry)

lemma sorted_filter_entries:
  "sorted_wrt (<) (map fst es) \<Longrightarrow> sorted_wrt (<) (map fst (filter P es))"
  by (induction es) auto

lift_definition bt_remove :: "'k::linorder \<Rightarrow> ('k, 'v) btree_map \<Rightarrow> ('k, 'v) btree_map"
  is "\<lambda>k. filter (\<lambda>e. fst e \<noteq> k)"
  by (rule sorted_filter_entries)

definition bt_get :: "('k::linorder, 'v) btree_map \<Rightarrow> 'k \<Rightarrow> 'v option" where
  "bt_get m = map_of (bt_entries m)"

definition bt_contains :: "('k::linorder, 'v) btree_map \<Rightarrow> 'k \<Rightarrow> bool" where
  "bt_contains m k = (bt_get m k \<noteq> None)"

definition bt_values :: "('k::linorder, 'v) btree_map \<Rightarrow> 'v list" where
  "bt_values m = map snd (bt_entries m)"

definition bt_len :: "('k::linorder, 'v) btree_map \<Rightarrow> nat" where
  "bt_len m = length (bt_entries m)"

text \<open>The sum of a measure over the values of a map, to state what a ledger accounts for.\<close>

definition bt_sum :: "('v \<Rightarrow> nat) \<Rightarrow> ('k::linorder, 'v) btree_map \<Rightarrow> nat" where
  "bt_sum f m = sum_list (map (f \<circ> snd) (bt_entries m))"

text \<open>\<open>entry(k).or_insert(v)\<close>: an existing value stays.\<close>

definition bt_or_insert :: "'k::linorder \<Rightarrow> 'v \<Rightarrow> ('k, 'v) btree_map \<Rightarrow> ('k, 'v) btree_map" where
  "bt_or_insert k v m = (if bt_contains m k then m else bt_insert k v m)"

text \<open>\<^verbatim>\<open>Iterator::position\<close>.\<close>

fun position :: "('a \<Rightarrow> bool) \<Rightarrow> 'a list \<Rightarrow> nat option" where
  "position P [] = None"
| "position P (x # xs) = (if P x then Some 0 else map_option Suc (position P xs))"

section \<open>Byte strings\<close>

text \<open>
  A Rust string is its UTF-8 bytes and an 8-bit character of HOL is one byte, so \<open>len()\<close> is
  \<^const>\<open>length\<close>, \<open>as_bytes\<close> is the identity, and the order of strings is the
  lexicographic order of their bytes.
\<close>

type_synonym bytes = "char list"

definition is_ascii_digit :: "char \<Rightarrow> bool" where
  "is_ascii_digit c = (48 \<le> (of_char c :: nat) \<and> (of_char c :: nat) \<le> 57)"

definition is_lower_hex :: "char \<Rightarrow> bool" where
  "is_lower_hex c = (is_ascii_digit c \<or> (97 \<le> (of_char c :: nat) \<and> (of_char c :: nat) \<le> 102))"

definition is_ascii_lowercase :: "char \<Rightarrow> bool" where
  "is_ascii_lowercase c = (97 \<le> (of_char c :: nat) \<and> (of_char c :: nat) \<le> 122)"

definition is_ascii_graphic :: "char \<Rightarrow> bool" where
  "is_ascii_graphic c = (33 \<le> (of_char c :: nat) \<and> (of_char c :: nat) \<le> 126)"

definition is_hex_64 :: "string \<Rightarrow> bool" where
  "is_hex_64 s = (length s = 64 \<and> list_all is_lower_hex s)"

fun strip_prefix :: "string \<Rightarrow> string \<Rightarrow> string option" where
  "strip_prefix [] s = Some s"
| "strip_prefix (p # ps) [] = None"
| "strip_prefix (p # ps) (c # cs) = (if p = c then strip_prefix ps cs else None)"

text \<open>
  \<open>chars().any(char::is_control)\<close> on UTF-8, with the characters a caller admits left out: the C0
  controls and DEL are one byte, the C1 controls U+0080 to U+009F are the byte C2 followed by 80
  to 9F.
\<close>

fun has_control_except :: "(char \<Rightarrow> bool) \<Rightarrow> string \<Rightarrow> bool" where
  "has_control_except adm [] = False"
| "has_control_except adm [c] = (\<not> adm c \<and> ((of_char c :: nat) < 32 \<or> (of_char c :: nat) = 127))"
| "has_control_except adm (c # d # cs) =
     (\<not> adm c \<and> ((of_char c :: nat) < 32 \<or> (of_char c :: nat) = 127) \<or>
      ((of_char c :: nat) = 194 \<and> 128 \<le> (of_char d :: nat) \<and> (of_char d :: nat) \<le> 159) \<or>
      has_control_except adm (d # cs))"

definition has_control :: "string \<Rightarrow> bool" where
  "has_control s = has_control_except (\<lambda>_. False) s"

definition is_lf_or_tab :: "char \<Rightarrow> bool" where
  "is_lf_or_tab c = ((of_char c :: nat) = 10 \<or> (of_char c :: nat) = 9)"

text \<open>
  \<open>trim().is_empty()\<close>: only white space, that is U+0009 to U+000D, U+0020, U+0085, U+00A0, U+1680,
  U+2000 to U+200A, U+2028, U+2029, U+202F, U+205F and U+3000 in UTF-8.
\<close>

definition is_space_2 :: "nat \<Rightarrow> nat \<Rightarrow> bool" where
  "is_space_2 a b = (a = 194 \<and> (b = 133 \<or> b = 160))"

definition is_space_3 :: "nat \<Rightarrow> nat \<Rightarrow> nat \<Rightarrow> bool" where
  "is_space_3 a b c =
     (a = 225 \<and> b = 154 \<and> c = 128 \<or>
      a = 226 \<and> b = 128 \<and> (128 \<le> c \<and> c \<le> 138 \<or> c = 168 \<or> c = 169 \<or> c = 175) \<or>
      a = 226 \<and> b = 129 \<and> c = 159 \<or>
      a = 227 \<and> b = 128 \<and> c = 128)"

fun is_blank :: "string \<Rightarrow> bool" where
  "is_blank [] = True"
| "is_blank (a # s) =
     (if 9 \<le> (of_char a :: nat) \<and> (of_char a :: nat) \<le> 13 \<or> (of_char a :: nat) = 32 then is_blank s
      else case s of
        b # s' \<Rightarrow>
          if is_space_2 (of_char a) (of_char b) then is_blank s'
          else (case s' of
            c # s'' \<Rightarrow> is_space_3 (of_char a) (of_char b) (of_char c) \<and> is_blank s''
          | [] \<Rightarrow> False)
      | [] \<Rightarrow> False)"

text \<open>\<open>split('/')\<close> and \<open>eq_ignore_ascii_case\<close>.\<close>

fun split_on :: "char \<Rightarrow> string \<Rightarrow> string list" where
  "split_on sep [] = [[]]"
| "split_on sep (c # cs) =
     (if c = sep then [] # split_on sep cs
      else case split_on sep cs of p # ps \<Rightarrow> (c # p) # ps | [] \<Rightarrow> [[c]])"

definition ascii_lower :: "char \<Rightarrow> char" where
  "ascii_lower c = (if 65 \<le> (of_char c :: nat) \<and> (of_char c :: nat) \<le> 90
     then char_of ((of_char c :: nat) + 32) else c)"

definition eq_ignore_ascii_case :: "string \<Rightarrow> string \<Rightarrow> bool" where
  "eq_ignore_ascii_case a b = (map ascii_lower a = map ascii_lower b)"

text \<open>
  \<open>{:?}\<close> of a string: quoted, with the quote, the backslash and the ASCII controls escaped. Bytes
  of multi-byte characters are printed as they are; the Unicode tables by which the standard
  library escapes some of those characters are not modelled.
\<close>

definition hex_digit :: "nat \<Rightarrow> char" where
  "hex_digit n = (if n < 10 then char_of (48 + n) else char_of (87 + n))"

definition escape_char :: "char \<Rightarrow> string" where
  "escape_char c =
     (let n = (of_char c :: nat); bs = char_of (92 :: nat) in
      if n = 34 \<or> n = 92 then [bs, c]
      else if n = 0 then [bs, CHR ''0'']
      else if n = 9 then [bs, CHR ''t'']
      else if n = 10 then [bs, CHR ''n'']
      else if n = 13 then [bs, CHR ''r'']
      else if n < 16 then [bs] @ ''u{'' @ [hex_digit n] @ ''}''
      else if n < 32 \<or> n = 127 then [bs] @ ''u{'' @ [hex_digit (n div 16), hex_digit (n mod 16)] @ ''}''
      else [c])"

definition debug_str :: "string \<Rightarrow> string" where
  "debug_str s = [char_of (34 :: nat)] @ concat (map escape_char s) @ [char_of (34 :: nat)]"

text \<open>Decimal rendering (\<open>{}\<close> of an unsigned integer) and \<open>to_le_bytes\<close>.\<close>

fun show_nat :: "nat \<Rightarrow> string" where
  "show_nat n = (if n < 10 then [char_of (48 + n)]
     else show_nat (n div 10) @ [char_of (48 + n mod 10)])"

declare show_nat.simps [simp del]

definition show_u :: "'w::len word \<Rightarrow> string" where
  "show_u w = show_nat (unat w)"

definition show_int :: "int \<Rightarrow> string" where
  "show_int i = (if i < 0 then CHR ''-'' # show_nat (nat (- i)) else show_nat (nat i))"

fun nat_le_bytes :: "nat \<Rightarrow> nat \<Rightarrow> bytes" where
  "nat_le_bytes 0 n = []"
| "nat_le_bytes (Suc k) n = char_of n # nat_le_bytes k (n div 256)"

definition le_bytes :: "u64 \<Rightarrow> bytes" where
  "le_bytes w = nat_le_bytes 8 (unat w)"

text \<open>\<open>join\<close> of a list of strings.\<close>

fun join :: "string \<Rightarrow> string list \<Rightarrow> string" where
  "join sep [] = []"
| "join sep [s] = s"
| "join sep (s # t # ss) = s @ sep @ join sep (t # ss)"

text \<open>The framing of every domain-separated digest: the length as eight bytes, then the text.\<close>

definition frame :: "bytes \<Rightarrow> bytes" where
  "frame b = le_bytes (of_nat (length b)) @ b"

section \<open>Lemmas on results and states\<close>

lemma res_bind_simps [simp]:
  "res_bind (Inl e) k = Inl e"
  "res_bind (Inr a) k = k a"
  by (simp_all add: res_bind_def)

lemma res_bind_OkE:
  assumes "res_bind r k = Inr b"
  obtains a where "r = Inr a" and "k a = Inr b"
  using assms by (cases r) auto

lemma res_bind_Ok_iff: "res_bind r k = Inr b \<longleftrightarrow> (\<exists>a. r = Inr a \<and> k a = Inr b)"
  by (cases r) auto

lemma res_bind_split:
  "P (res_bind r k) \<longleftrightarrow> (\<forall>e. r = Inl e \<longrightarrow> P (Inl e)) \<and> (\<forall>a. r = Inr a \<longrightarrow> P (k a))"
  by (cases r) auto

lemma ok_or_simps [simp]:
  "ok_or None e = Inl e"
  "ok_or (Some a) e = Inr a"
  by (simp_all add: ok_or_def)

lemma ok_or_Ok_iff [simp]: "ok_or x e = Inr a \<longleftrightarrow> x = Some a"
  by (cases x) auto

lemma map_err_simps [simp]:
  "map_err f (Inl e) = Inl (f e)"
  "map_err f (Inr a) = Inr a"
  by (simp_all add: map_err_def)

lemma map_err_Ok_iff [simp]: "map_err f r = Inr a \<longleftrightarrow> r = Inr a"
  by (cases r) simp_all

lemma is_ok_simps [simp]:
  "is_ok (Inr a)" "\<not> is_ok (Inl e)"
  by (simp_all add: is_ok_def)

lemma is_ok_iff: "is_ok r \<longleftrightarrow> (\<exists>a. r = Inr a)"
  by (cases r) auto

lemmas [result_simps] =
  st_ok_def st_err_def st_lift_def st_get_def st_modify_def st_bind_def

lemma st_bind_cases:
  assumes "st_bind m k s = (r, t)"
  obtains (err) e where "m s = (Inl e, t)" and "r = Inl e"
    | (ok) a u where "m s = (Inr a, u)" and "k a u = (r, t)"
  using assms by (auto simp: st_bind_def split: prod.splits sum.splits)

lemma st_bind_Ok_iff:
  "st_bind m k s = (Inr b, t) \<longleftrightarrow> (\<exists>a u. m s = (Inr a, u) \<and> k a u = (Inr b, t))"
  by (auto simp: st_bind_def split: prod.splits sum.splits)

section \<open>Lemmas on machine integers\<close>

lemma unat_sum_list: "sum_list (map unat ws) < 2 ^ 64 \<Longrightarrow> unat (sum_list ws) = sum_list (map unat ws)"
  for ws :: "u64 list"
proof (induction ws)
  case (Cons w ws)
  then have ih: "unat (sum_list ws) = sum_list (map unat ws)" by simp
  with Cons.prems have "unat w + unat (sum_list ws) < 2 ^ 64" by simp
  then have "unat (w + sum_list ws) = unat w + unat (sum_list ws)" by (simp add: unat_word_ariths)
  with ih show ?case by simp
qed simp

lemma checked_add_Some_iff [word_nat]:
  fixes a b c :: "'w::len word"
  shows "checked_add a b = Some c \<longleftrightarrow> unat a + unat b < 2 ^ LENGTH('w) \<and> unat c = unat a + unat b"
proof -
  have "unat (a + b) = unat a + unat b" if "unat a + unat b < 2 ^ LENGTH('w)"
    using that by (simp add: unat_word_ariths)
  then show ?thesis
    by (auto simp: checked_add_def word_unat_eq_iff split: if_splits)
qed

lemma checked_add_None_iff [word_nat]:
  fixes a b :: "'w::len word"
  shows "checked_add a b = None \<longleftrightarrow> 2 ^ LENGTH('w) \<le> unat a + unat b"
  by (auto simp: checked_add_def split: if_splits)

lemma checked_sub_Some_iff [word_nat]:
  fixes a b c :: "'w::len word"
  shows "checked_sub a b = Some c \<longleftrightarrow> unat b \<le> unat a \<and> unat c = unat a - unat b"
  by (auto simp: checked_sub_def word_le_nat_alt unat_sub word_unat_eq_iff split: if_splits)

lemma checked_sub_None_iff [word_nat]:
  fixes a b :: "'w::len word"
  shows "checked_sub a b = None \<longleftrightarrow> unat a < unat b"
  by (auto simp: checked_sub_def word_le_nat_alt split: if_splits)

lemma unat_saturating_sub [word_nat]: "unat (saturating_sub a b) = unat a - unat b"
  by (auto simp: saturating_sub_def word_le_nat_alt unat_sub)

lemma unat_saturating_add [word_nat]:
  fixes a b :: "'w::len word"
  shows "unat (saturating_add a b) = min (2 ^ LENGTH('w) - 1) (unat a + unat b)"
  by (auto simp: saturating_add_def unat_word_ariths unsigned_minus_1_eq_mask mask_eq_exp_minus_1)

lemma unat_saturating_mul [word_nat]:
  fixes a b :: "'w::len word"
  shows "unat (saturating_mul a b) = min (2 ^ LENGTH('w) - 1) (unat a * unat b)"
  by (auto simp: saturating_mul_def unat_word_ariths unsigned_minus_1_eq_mask mask_eq_exp_minus_1)

lemma unat_min_word [word_nat]: "unat (min a b) = min (unat a) (unat b)"
  by (simp add: min_def word_le_nat_alt)

lemma unat_sub_min [word_nat]: "unat (a - min a b) = unat a - unat b"
  by (auto simp: min_def word_le_nat_alt unat_sub)

lemma unat_sub_min' [word_nat]: "unat (b - min a b) = unat b - unat a"
  by (auto simp: min_def word_le_nat_alt unat_sub)

lemma unat_Suc_word:
  fixes a :: "'w::len word"
  assumes "unat a + 1 < 2 ^ LENGTH('w)"
  shows "unat (a + 1) = unat a + 1"
  using assms by (simp add: unat_word_ariths)

lemma u64_less: "unat (w :: u64) < 18446744073709551616"
  using unsigned_less [of w, where ?'a = nat] by simp

text \<open>A chain of checked additions yields a value exactly when the sum is that value.\<close>

lemma checked_add_eq: "checked_add a b = Some c \<longleftrightarrow> unat a + unat b = unat c"
  for a b c :: "'w::len word"
  using unsigned_less [of c, where ?'a = nat] by (auto simp: checked_add_Some_iff)

lemma bind_checked_add:
  fixes c d :: "'w::len word"
  assumes "\<And>v. x = Some v \<longleftrightarrow> n = unat v"
  shows "Option.bind x (\<lambda>v. checked_add v c) = Some d \<longleftrightarrow> n + unat c = unat d"
proof
  assume sum: "n + unat c = unat d"
  then have "n < 2 ^ LENGTH('w)" using unsigned_less [of d, where ?'a = nat] by linarith
  then have n: "n = unat (of_nat n :: 'w word)" by (simp add: unat_of_nat)
  with assms have "x = Some (of_nat n)" by blast
  then show "Option.bind x (\<lambda>v. checked_add v c) = Some d"
    using sum n by (simp add: checked_add_eq)
qed (auto simp: bind_eq_Some_conv checked_add_eq assms)

section \<open>Lemmas on ordered maps\<close>

lemma sorted_bt_entries [simp]: "sorted_wrt (<) (map fst (bt_entries m))"
  using bt_entries [of m] by simp

lemma distinct_bt_keys: "distinct (map fst (bt_entries m))"
  using sorted_bt_entries [of m] strict_sorted_iff by blast

lemma map_of_ins_entry:
  "sorted_wrt (<) (map fst es) \<Longrightarrow> map_of (ins_entry k v es) = (map_of es)(k \<mapsto> v)"
  by (induction es) (auto simp: fun_upd_twist)

lemma bt_get_empty [simp]: "bt_get bt_empty k = None"
  by (simp add: bt_get_def bt_empty.rep_eq)

lemma bt_get_insert [simp]: "bt_get (bt_insert k v m) j = (if j = k then Some v else bt_get m j)"
  by (simp add: bt_get_def bt_insert.rep_eq map_of_ins_entry)

lemma map_of_filter_key:
  "map_of (filter (\<lambda>e. fst e \<noteq> k) es) j = (if j = k then None else map_of es j)"
  by (induction es) auto

lemma bt_get_remove [simp]: "bt_get (bt_remove k m) j = (if j = k then None else bt_get m j)"
  by (simp add: bt_get_def bt_remove.rep_eq map_of_filter_key)

lemma bt_get_or_insert [simp]:
  "bt_get (bt_or_insert k v m) j = (if j = k \<and> bt_get m k = None then Some v else bt_get m j)"
  by (auto simp: bt_or_insert_def bt_contains_def)

lemma bt_entries_simps [simp]:
  "bt_entries bt_empty = []"
  "bt_entries (bt_insert k v m) = ins_entry k v (bt_entries m)"
  "bt_entries (bt_remove k m) = filter (\<lambda>e. fst e \<noteq> k) (bt_entries m)"
  by (simp_all add: bt_empty.rep_eq bt_insert.rep_eq bt_remove.rep_eq)

lemma bt_entry_iff: "(k, v) \<in> set (bt_entries m) \<longleftrightarrow> bt_get m k = Some v"
  by (simp add: bt_get_def distinct_bt_keys)

lemma bt_values_iff: "v \<in> set (bt_values m) \<longleftrightarrow> (\<exists>k. bt_get m k = Some v)"
  by (force simp: bt_values_def bt_entry_iff [symmetric] image_iff)

lemma bt_ext:
  assumes "\<And>k. bt_get m k = bt_get n k"
  shows "m = n"
proof -
  have set_eq: "set (bt_entries m) = set (bt_entries n)"
    using assms by (auto simp: bt_entry_iff)
  have "inj_on fst (set (bt_entries m))"
    using distinct_bt_keys [of m] by (simp add: distinct_map)
  then have "bt_entries m = bt_entries n"
    using map_sorted_distinct_set_unique [of fst "bt_entries m" "bt_entries n"]
      set_eq distinct_bt_keys [of m] distinct_bt_keys [of n]
      strict_sorted_imp_sorted [OF sorted_bt_entries [of m]]
      strict_sorted_imp_sorted [OF sorted_bt_entries [of n]]
    by simp
  then show ?thesis by (simp add: bt_entries_inject)
qed

lemma sum_ins_entry:
  fixes f :: "'v \<Rightarrow> nat"
  shows "k \<notin> fst ` set es \<Longrightarrow> sum_list (map (f \<circ> snd) (ins_entry k v es)) = f v + sum_list (map (f \<circ> snd) es)"
  by (induction es) auto

lemma sum_filter_key:
  fixes f :: "'v \<Rightarrow> nat"
  shows "distinct (map fst es) \<Longrightarrow> map_of es k = Some v \<Longrightarrow>
     sum_list (map (f \<circ> snd) es) = f v + sum_list (map (f \<circ> snd) (filter (\<lambda>e. fst e \<noteq> k) es))"
proof (induction es)
  case (Cons e es)
  show ?case
  proof (cases "fst e = k")
    case True
    with Cons.prems have "filter (\<lambda>e. fst e \<noteq> k) es = es"
      by (auto simp: filter_id_conv image_iff)
    with True Cons.prems show ?thesis by (cases e) simp
  next
    case False
    with Cons show ?thesis by (cases e) simp
  qed
qed simp

lemma bt_sum_empty [simp]: "bt_sum f bt_empty = 0"
  by (simp add: bt_sum_def)

lemma bt_sum_insert_fresh: "bt_get m k = None \<Longrightarrow> bt_sum f (bt_insert k v m) = f v + bt_sum f m"
  by (simp add: bt_sum_def bt_get_def map_of_eq_None_iff sum_ins_entry)

lemma bt_sum_remove: "bt_get m k = Some v \<Longrightarrow> bt_sum f m = f v + bt_sum f (bt_remove k m)"
  unfolding bt_sum_def bt_get_def bt_entries_simps by (rule sum_filter_key [OF distinct_bt_keys])

lemma bt_insert_twice [simp]: "bt_insert k v (bt_insert k w m) = bt_insert k v m"
  by (rule bt_ext) simp

lemma bt_sum_insert:
  "bt_get m k = Some w \<Longrightarrow> bt_sum f (bt_insert k v m) + f w = f v + bt_sum f m"
proof -
  assume k: "bt_get m k = Some w"
  have "bt_remove k (bt_insert k v m) = bt_remove k m" by (rule bt_ext) simp
  with bt_sum_remove [of "bt_insert k v m" k v f] bt_sum_remove [OF k, of f] show ?thesis by simp
qed

lemma bt_sum_values: "bt_sum f m = sum_list (map f (bt_values m))"
  by (simp add: bt_sum_def bt_values_def)

lemma position_Some:
  "position P xs = Some i \<Longrightarrow> \<exists>ys x zs. xs = ys @ x # zs \<and> length ys = i \<and> P x \<and> (\<forall>y \<in> set ys. \<not> P y)"
proof (induction xs arbitrary: i)
  case (Cons x xs)
  show ?case
  proof (cases "P x")
    case True
    with Cons.prems have "x # xs = [] @ x # xs \<and> length [] = i" by simp
    with True show ?thesis by (metis empty_iff empty_set)
  next
    case False
    with Cons.prems obtain j where j: "position P xs = Some j" "i = Suc j" by auto
    from Cons.IH [OF j(1)] obtain ys y zs where
      "xs = ys @ y # zs" "length ys = j" "P y" "\<forall>y \<in> set ys. \<not> P y" by blast
    with False j(2) have "x # xs = (x # ys) @ y # zs \<and> length (x # ys) = i \<and> P y \<and> (\<forall>y \<in> set (x # ys). \<not> P y)"
      by simp
    then show ?thesis by blast
  qed
qed simp

lemma position_None_iff: "position P xs = None \<longleftrightarrow> (\<forall>x \<in> set xs. \<not> P x)"
  by (induction xs) auto

section \<open>Lemmas on strings\<close>

lemma strip_prefix_Some_iff: "strip_prefix p s = Some r \<longleftrightarrow> s = p @ r"
  by (induction p s rule: strip_prefix.induct) auto

lemma strip_prefix_None_iff: "strip_prefix p s = None \<longleftrightarrow> (\<nexists>r. s = p @ r)"
  by (metis not_None_eq strip_prefix_Some_iff)

text \<open>Decimal and little-endian rendering lose nothing.\<close>

definition read_nat :: "string \<Rightarrow> nat" where
  "read_nat = foldl (\<lambda>n c. 10 * n + (of_char c - 48)) 0"

lemma read_show_nat [simp]: "read_nat (show_nat n) = n"
proof (induction n rule: show_nat.induct)
  case (1 n)
  show ?case
  proof (cases "n < 10")
    case True
    then show ?thesis by (subst show_nat.simps) (simp add: read_nat_def)
  next
    case False
    with 1 have "read_nat (show_nat (n div 10)) = n div 10" by simp
    with False show ?thesis
      by (subst show_nat.simps) (simp add: read_nat_def)
  qed
qed

lemma show_nat_inject [simp]: "show_nat m = show_nat n \<longleftrightarrow> m = n"
  by (metis read_show_nat)

lemma show_u_inject [simp]: "show_u a = show_u b \<longleftrightarrow> a = b"
  by (simp add: show_u_def word_unat_eq_iff)

lemma show_nat_digits: "c \<in> set (show_nat n) \<Longrightarrow> is_ascii_digit c"
proof (induction n rule: show_nat.induct)
  case (1 n)
  show ?case
  proof (cases "n < 10")
    case True
    with 1 show ?thesis by (subst (asm) show_nat.simps) (auto simp: is_ascii_digit_def)
  next
    case False
    with 1 show ?thesis by (subst (asm) (2) show_nat.simps) (auto simp: is_ascii_digit_def)
  qed
qed

lemma split_at_sep:
  assumes "a @ c # x = b @ c # y" and "c \<notin> set a" and "c \<notin> set b"
  shows "a = b \<and> x = y"
  using assms
proof (induction a arbitrary: b)
  case Nil
  then show ?case by (cases b) auto
next
  case (Cons d a)
  then show ?case by (cases b) auto
qed

lemma join_inject:
  assumes "join [c] xs = join [c] ys" and "length xs = length ys"
    and "\<forall>s \<in> set xs. c \<notin> set s" and "\<forall>s \<in> set ys. c \<notin> set s"
  shows "xs = ys"
  using assms
proof (induction xs arbitrary: ys)
  case (Cons x xs)
  then obtain y ys' where ys: "ys = y # ys'" by (cases ys) auto
  show ?case
  proof (cases xs)
    case Nil
    with Cons.prems ys show ?thesis by simp
  next
    case (Cons x' xs')
    with Cons.prems ys obtain y' ys'' where ys': "ys' = y' # ys''" by (cases ys') auto
    with Cons.prems ys Cons have "x @ c # join [c] xs = y @ c # join [c] ys'" by simp
    then have "x = y \<and> join [c] xs = join [c] ys'"
      using Cons.prems(3,4) ys by (intro split_at_sep) auto
    with Cons.IH [of ys'] Cons.prems ys show ?thesis by auto
  qed
qed simp

fun nat_of_le_bytes :: "bytes \<Rightarrow> nat" where
  "nat_of_le_bytes [] = 0"
| "nat_of_le_bytes (c # cs) = of_char c + 256 * nat_of_le_bytes cs"

lemma nat_of_nat_le_bytes: "nat_of_le_bytes (nat_le_bytes k n) = n mod 256 ^ k"
  by (induction k arbitrary: n) (simp_all add: mod_mult2_eq)

lemma length_nat_le_bytes [simp]: "length (nat_le_bytes k n) = k"
  by (induction k arbitrary: n) simp_all

lemma length_le_bytes [simp]: "length (le_bytes w) = 8"
  by (simp add: le_bytes_def)

lemma nat_of_le_bytes_le_bytes [simp]: "nat_of_le_bytes (le_bytes w) = unat w"
proof -
  have "unat w < 256 ^ 8" using unsigned_less [of w, where ?'a = nat] by simp
  then show ?thesis by (simp add: le_bytes_def nat_of_nat_le_bytes)
qed

lemma le_bytes_inject [simp]: "le_bytes v = le_bytes w \<longleftrightarrow> v = w"
  by (metis nat_of_le_bytes_le_bytes word_unat_eq_iff)

lemma frame_append_inject:
  assumes "frame a @ x = frame b @ y" and "length a < 2 ^ 64" and "length b < 2 ^ 64"
  shows "a = b \<and> x = y"
proof -
  from assms(1) have len: "le_bytes (of_nat (length a)) = le_bytes (of_nat (length b))"
    and rest: "a @ x = b @ y"
    by (simp_all add: frame_def)
  from len have "(of_nat (length a) :: u64) = of_nat (length b)" by simp
  with assms(2,3) have "length a = length b"
    by (simp add: word_unat_eq_iff unat_of_nat)
  with rest show ?thesis by simp
qed

section \<open>Shared interfaces\<close>

text \<open>
  A catalogue of stable wire names: what \<open>as_str\<close> prints, \<open>parse\<close> reads back, and it reads
  nothing else.
\<close>

locale wire_catalog =
  fixes as_str :: "'a \<Rightarrow> string"
    and parse :: "string \<Rightarrow> 'e + 'a"
  assumes parse_as_str: "parse (as_str x) = Inr x"
    and parse_sound: "parse s = Inr x \<Longrightarrow> s = as_str x"
begin

lemma as_str_inject: "as_str x = as_str y \<longleftrightarrow> x = y"
  by (metis parse_as_str Inr_inject)

lemma parse_Ok_iff: "parse s = Inr x \<longleftrightarrow> s = as_str x"
  using parse_as_str parse_sound by blast

lemma parse_refuses_iff: "\<not> is_ok (parse s) \<longleftrightarrow> s \<notin> range as_str"
  by (auto simp: is_ok_iff parse_Ok_iff)

end

text \<open>
  A state machine given by its legal edges, as the \<open>allow!\<close> tables of the source write it.
  \<open>run_path\<close> requests a sequence of states one after the other and stops at the first refusal.
\<close>

fun run_path :: "('s \<Rightarrow> 's \<Rightarrow> 'e + 's) \<Rightarrow> 's \<Rightarrow> 's list \<Rightarrow> 'e + 's" where
  "run_path tr s [] = Inr s"
| "run_path tr s (t # ts) = res_bind (tr s t) (\<lambda>u. run_path tr u ts)"

locale transition_machine =
  fixes transition :: "'s \<Rightarrow> 's \<Rightarrow> 'e + 's"
    and terminal :: "'s \<Rightarrow> bool"
  assumes target: "transition a b = Inr c \<Longrightarrow> c = b"
    and terminal_stuck: "terminal a \<Longrightarrow> \<not> is_ok (transition a b)"
    and live_exit: "\<not> terminal a \<Longrightarrow> \<exists>b. is_ok (transition a b)"
begin

lemma path_last: "run_path transition s ts = Inr u \<Longrightarrow> u = last (s # ts)"
proof (induction ts arbitrary: s)
  case (Cons t ts)
  from Cons.prems obtain v where "transition s t = Inr v" and run: "run_path transition v ts = Inr u"
    by (auto elim: res_bind_OkE)
  then have "v = t" using target by blast
  with run Cons.IH show ?case by auto
qed simp

lemma terminal_path: "terminal s \<Longrightarrow> run_path transition s ts = Inr u \<Longrightarrow> ts = [] \<and> u = s"
  using terminal_stuck [of s] by (cases ts) (auto elim!: res_bind_OkE simp: is_ok_iff)

lemma terminal_iff: "terminal s \<longleftrightarrow> (\<forall>b. \<not> is_ok (transition s b))"
  using terminal_stuck live_exit by blast

text \<open>
  A region that can only be left through one state: every legal path out of it visits that
  state.
\<close>

lemma path_through:
  assumes closed: "\<And>a b. inside a \<Longrightarrow> is_ok (transition a b) \<Longrightarrow> b = gate \<or> inside b"
    and "inside s" and "run_path transition s ts = Inr u" and "\<not> inside u"
  shows "gate \<in> set ts"
  using assms(2-)
proof (induction ts arbitrary: s)
  case (Cons t ts)
  from Cons.prems(2) obtain v where v: "transition s t = Inr v" and run: "run_path transition v ts = Inr u"
    by (auto elim: res_bind_OkE)
  then have "v = t" using target by blast
  moreover from v have "t = gate \<or> inside t"
    using closed [OF Cons.prems(1), of t] by simp
  ultimately show ?case using Cons.IH run Cons.prems(3) by auto
qed simp

lemma path_snoc:
  "run_path transition s (ts @ [t]) = Inr u \<longleftrightarrow> (\<exists>v. run_path transition s ts = Inr v \<and> transition v t = Inr u)"
  by (induction ts arbitrary: s) (auto simp: res_bind_Ok_iff)

text \<open>A state with one legal predecessor is entered from it.\<close>

lemma path_pred:
  assumes only: "\<And>a. is_ok (transition a t) \<Longrightarrow> a = p"
    and "run_path transition s ts = Inr t" and "s \<noteq> t"
  shows "\<exists>pre. ts = pre @ [t] \<and> run_path transition s pre = Inr p"
proof (cases ts rule: rev_cases)
  case Nil
  with assms(2,3) show ?thesis by simp
next
  case (snoc pre x)
  then have "x = t" using path_last [OF assms(2)] by simp
  from assms(2) snoc obtain v where v: "run_path transition s pre = Inr v" "transition v x = Inr t"
    by (auto simp: path_snoc)
  with \<open>x = t\<close> only have "v = p" by auto
  with v(1) snoc \<open>x = t\<close> show ?thesis by blast
qed

text \<open>A region no legal edge leaves is never left.\<close>

lemma path_inside:
  assumes closed: "\<And>a b. inside a \<Longrightarrow> is_ok (transition a b) \<Longrightarrow> inside b"
    and "inside s" and "run_path transition s ts = Inr u"
  shows "inside u"
  using assms(2-)
proof (induction ts arbitrary: s)
  case (Cons t ts)
  from Cons.prems(2) obtain v where v: "transition s t = Inr v" and run: "run_path transition v ts = Inr u"
    by (auto elim: res_bind_OkE)
  then have "v = t" using target by blast
  with v closed [OF Cons.prems(1), of t] Cons.IH run show ?case by simp
qed simp

end

text \<open>
  A store whose operations all keep an invariant: every run of operations keeps it.
\<close>

locale invariant_system =
  fixes step :: "'op \<Rightarrow> 's \<Rightarrow> 's"
    and inv :: "'s \<Rightarrow> bool"
  assumes step_inv: "inv s \<Longrightarrow> inv (step op s)"
begin

lemma run_inv: "inv s \<Longrightarrow> inv (fold step ops s)"
  by (induction ops arbitrary: s) (auto intro: step_inv)

end

end
