(* ===== verification/Domain_States.thy ===== *)
theory Domain_States
  imports Kernel_Prelude
begin

text \<open>
  The domain errors of \<^verbatim>\<open>crates/domain/src/error.rs\<close> and the explicit state machines of
  \<^verbatim>\<open>crates/domain/src/states.rs\<close>: missions, work packages, attempts and command phases. Each
  machine is the \<open>allow!\<close> table of the source, arm by arm; the lemmas interpret the shared
  interfaces of the prelude and give the ordering guarantees the tables encode.
\<close>

section \<open>Domain errors\<close>

datatype domain_error =
    InvalidId string
  | InvalidTransition string string
  | InvalidLeaseTtl int
  | StaleAuthority string
  | FenceError string
  | Idempotency string
  | Encoding string
  | Conflict string
  | UnknownState string

fun domain_reason_code :: "domain_error \<Rightarrow> string" where
  "domain_reason_code (InvalidId _) = ''INVALID_ID''"
| "domain_reason_code (InvalidTransition _ _) = ''INVALID_TRANSITION''"
| "domain_reason_code (InvalidLeaseTtl _) = ''INVALID_LEASE_TTL''"
| "domain_reason_code (StaleAuthority _) = ''STALE_AUTHORITY''"
| "domain_reason_code (FenceError _) = ''FENCE_REUSE''"
| "domain_reason_code (Idempotency _) = ''IDEMPOTENCY_CONFLICT''"
| "domain_reason_code (Encoding _) = ''ENCODING_FAILURE''"
| "domain_reason_code (Conflict _) = ''GRAPH_CONFLICT''"
| "domain_reason_code (UnknownState _) = ''UNKNOWN_STATE''"

section \<open>States\<close>

datatype mission_state =
    MsDraft | MsAdmitted | MsPlanning | MsActive | MsObserving | MsSurvived | MsRejected

datatype work_package_state =
    WpPending | WpReady | WpLeased | WpExecuting | WpPrepared | WpVerifying | WpVerified
  | WpReviewing | WpIntegrationReady | WpIntegrating | WpIntegrated | WpObserving | WpSurvived
  | WpStruggling | WpEscalating | WpQuarantined | WpCancelled | WpFailed | WpReverted | WpRejected

datatype attempt_state =
    AsCreated | AsStarting | AsRunning | AsPaused | AsCheckpointing | AsPreparing | AsSucceeded
  | AsSuperseded | AsFailed | AsCrashed | AsCancelled | AsQuarantined

datatype command_phase = CpPending | CpApplied | CpFailed | CpVerified | CpUnknown

text \<open>The derived \<open>Debug\<close> names, which the refusals print.\<close>

fun mission_state_debug :: "mission_state \<Rightarrow> string" where
  "mission_state_debug MsDraft = ''Draft''"
| "mission_state_debug MsAdmitted = ''Admitted''"
| "mission_state_debug MsPlanning = ''Planning''"
| "mission_state_debug MsActive = ''Active''"
| "mission_state_debug MsObserving = ''Observing''"
| "mission_state_debug MsSurvived = ''Survived''"
| "mission_state_debug MsRejected = ''Rejected''"

fun work_package_state_debug :: "work_package_state \<Rightarrow> string" where
  "work_package_state_debug WpPending = ''Pending''"
| "work_package_state_debug WpReady = ''Ready''"
| "work_package_state_debug WpLeased = ''Leased''"
| "work_package_state_debug WpExecuting = ''Executing''"
| "work_package_state_debug WpPrepared = ''Prepared''"
| "work_package_state_debug WpVerifying = ''Verifying''"
| "work_package_state_debug WpVerified = ''Verified''"
| "work_package_state_debug WpReviewing = ''Reviewing''"
| "work_package_state_debug WpIntegrationReady = ''IntegrationReady''"
| "work_package_state_debug WpIntegrating = ''Integrating''"
| "work_package_state_debug WpIntegrated = ''Integrated''"
| "work_package_state_debug WpObserving = ''Observing''"
| "work_package_state_debug WpSurvived = ''Survived''"
| "work_package_state_debug WpStruggling = ''Struggling''"
| "work_package_state_debug WpEscalating = ''Escalating''"
| "work_package_state_debug WpQuarantined = ''Quarantined''"
| "work_package_state_debug WpCancelled = ''Cancelled''"
| "work_package_state_debug WpFailed = ''Failed''"
| "work_package_state_debug WpReverted = ''Reverted''"
| "work_package_state_debug WpRejected = ''Rejected''"

fun attempt_state_debug :: "attempt_state \<Rightarrow> string" where
  "attempt_state_debug AsCreated = ''Created''"
| "attempt_state_debug AsStarting = ''Starting''"
| "attempt_state_debug AsRunning = ''Running''"
| "attempt_state_debug AsPaused = ''Paused''"
| "attempt_state_debug AsCheckpointing = ''Checkpointing''"
| "attempt_state_debug AsPreparing = ''Preparing''"
| "attempt_state_debug AsSucceeded = ''Succeeded''"
| "attempt_state_debug AsSuperseded = ''Superseded''"
| "attempt_state_debug AsFailed = ''Failed''"
| "attempt_state_debug AsCrashed = ''Crashed''"
| "attempt_state_debug AsCancelled = ''Cancelled''"
| "attempt_state_debug AsQuarantined = ''Quarantined''"

section \<open>Wire names\<close>

fun command_phase_as_str :: "command_phase \<Rightarrow> string" where
  "command_phase_as_str CpPending = ''pending''"
| "command_phase_as_str CpApplied = ''applied''"
| "command_phase_as_str CpFailed = ''failed''"
| "command_phase_as_str CpVerified = ''verified''"
| "command_phase_as_str CpUnknown = ''unknown''"

definition command_phase_parse :: "string \<Rightarrow> domain_error + command_phase" where
  "command_phase_parse name =
     (if name = ''pending'' then Ok CpPending
      else if name = ''applied'' then Ok CpApplied
      else if name = ''failed'' then Ok CpFailed
      else if name = ''verified'' then Ok CpVerified
      else if name = ''unknown'' then Ok CpUnknown
      else Err (UnknownState (''command phase '' @ name)))"

fun work_package_as_str :: "work_package_state \<Rightarrow> string" where
  "work_package_as_str WpPending = ''pending''"
| "work_package_as_str WpReady = ''ready''"
| "work_package_as_str WpLeased = ''leased''"
| "work_package_as_str WpExecuting = ''executing''"
| "work_package_as_str WpPrepared = ''prepared''"
| "work_package_as_str WpVerifying = ''verifying''"
| "work_package_as_str WpVerified = ''verified''"
| "work_package_as_str WpReviewing = ''reviewing''"
| "work_package_as_str WpIntegrationReady = ''integration_ready''"
| "work_package_as_str WpIntegrating = ''integrating''"
| "work_package_as_str WpIntegrated = ''integrated''"
| "work_package_as_str WpObserving = ''observing''"
| "work_package_as_str WpSurvived = ''survived''"
| "work_package_as_str WpStruggling = ''struggling''"
| "work_package_as_str WpEscalating = ''escalating''"
| "work_package_as_str WpQuarantined = ''quarantined''"
| "work_package_as_str WpCancelled = ''cancelled''"
| "work_package_as_str WpFailed = ''failed''"
| "work_package_as_str WpReverted = ''reverted''"
| "work_package_as_str WpRejected = ''rejected''"

fun attempt_as_str :: "attempt_state \<Rightarrow> string" where
  "attempt_as_str AsCreated = ''created''"
| "attempt_as_str AsStarting = ''starting''"
| "attempt_as_str AsRunning = ''running''"
| "attempt_as_str AsPaused = ''paused''"
| "attempt_as_str AsCheckpointing = ''checkpointing''"
| "attempt_as_str AsPreparing = ''preparing''"
| "attempt_as_str AsSucceeded = ''succeeded''"
| "attempt_as_str AsSuperseded = ''superseded''"
| "attempt_as_str AsFailed = ''failed''"
| "attempt_as_str AsCrashed = ''crashed''"
| "attempt_as_str AsCancelled = ''cancelled''"
| "attempt_as_str AsQuarantined = ''quarantined''"

definition attempt_parse :: "string \<Rightarrow> domain_error + attempt_state" where
  "attempt_parse name =
     (if name = ''created'' then Ok AsCreated
      else if name = ''starting'' then Ok AsStarting
      else if name = ''running'' then Ok AsRunning
      else if name = ''paused'' then Ok AsPaused
      else if name = ''checkpointing'' then Ok AsCheckpointing
      else if name = ''preparing'' then Ok AsPreparing
      else if name = ''succeeded'' then Ok AsSucceeded
      else if name = ''superseded'' then Ok AsSuperseded
      else if name = ''failed'' then Ok AsFailed
      else if name = ''crashed'' then Ok AsCrashed
      else if name = ''cancelled'' then Ok AsCancelled
      else if name = ''quarantined'' then Ok AsQuarantined
      else Err (UnknownState (''attempt state '' @ name)))"

section \<open>Transition tables\<close>

text \<open>
  The \<open>allow!\<close> macro: the arms are tried in order, an arm lists the admitted sources, the
  requested state and the state it yields; outside the table the refusal names both states.
\<close>

fun allow :: "('s \<Rightarrow> string) \<Rightarrow> 's \<Rightarrow> 's \<Rightarrow> ('s list \<times> 's \<times> 's) list \<Rightarrow> domain_error + 's" where
  "allow dbg frm to [] = Err (InvalidTransition (dbg frm) (dbg to))"
| "allow dbg frm to ((srcs, req, dst) # arms) =
     (if frm \<in> set srcs \<and> to = req then Ok dst else allow dbg frm to arms)"

definition mission_transition :: "mission_state \<Rightarrow> mission_state \<Rightarrow> domain_error + mission_state" where
  "mission_transition self to = allow mission_state_debug self to
     [([MsDraft], MsAdmitted, MsAdmitted),
      ([MsAdmitted], MsPlanning, MsPlanning),
      ([MsPlanning], MsActive, MsActive),
      ([MsActive], MsObserving, MsObserving),
      ([MsObserving], MsSurvived, MsSurvived),
      ([MsDraft, MsAdmitted, MsPlanning, MsActive, MsObserving], MsRejected, MsRejected)]"

definition wp_open_states :: "work_package_state list" where
  "wp_open_states =
     [WpPending, WpReady, WpLeased, WpExecuting, WpPrepared, WpVerifying, WpVerified,
      WpReviewing, WpIntegrationReady, WpIntegrating, WpStruggling, WpEscalating]"

definition work_package_transition ::
    "work_package_state \<Rightarrow> work_package_state \<Rightarrow> domain_error + work_package_state" where
  "work_package_transition self to = allow work_package_state_debug self to
     [([WpPending], WpReady, WpReady),
      ([WpReady], WpPending, WpPending),
      ([WpReady], WpLeased, WpLeased),
      ([WpLeased], WpExecuting, WpExecuting),
      ([WpLeased, WpExecuting], WpReady, WpReady),
      ([WpExecuting], WpPrepared, WpPrepared),
      ([WpPrepared], WpVerifying, WpVerifying),
      ([WpVerifying], WpVerified, WpVerified),
      ([WpVerified], WpReviewing, WpReviewing),
      ([WpReviewing], WpIntegrationReady, WpIntegrationReady),
      ([WpIntegrationReady], WpIntegrating, WpIntegrating),
      ([WpIntegrating], WpIntegrated, WpIntegrated),
      ([WpIntegrated], WpObserving, WpObserving),
      ([WpObserving], WpSurvived, WpSurvived),
      ([WpExecuting], WpStruggling, WpStruggling),
      ([WpStruggling, WpEscalating], WpExecuting, WpExecuting),
      ([WpStruggling], WpEscalating, WpEscalating),
      ([WpIntegrated, WpObserving], WpReverted, WpReverted),
      (wp_open_states, WpRejected, WpRejected),
      (wp_open_states, WpFailed, WpFailed),
      (wp_open_states, WpCancelled, WpCancelled),
      (wp_open_states, WpQuarantined, WpQuarantined)]"

definition attempt_live_states :: "attempt_state list" where
  "attempt_live_states =
     [AsCreated, AsStarting, AsRunning, AsPaused, AsCheckpointing, AsPreparing]"

definition attempt_transition :: "attempt_state \<Rightarrow> attempt_state \<Rightarrow> domain_error + attempt_state" where
  "attempt_transition self to = allow attempt_state_debug self to
     [([AsCreated], AsStarting, AsStarting),
      ([AsStarting], AsRunning, AsRunning),
      ([AsRunning], AsPaused, AsPaused),
      ([AsPaused, AsCheckpointing], AsRunning, AsRunning),
      ([AsRunning], AsCheckpointing, AsCheckpointing),
      ([AsRunning, AsCheckpointing], AsPreparing, AsPreparing),
      ([AsPreparing], AsSucceeded, AsSucceeded),
      (attempt_live_states, AsSuperseded, AsSuperseded),
      (attempt_live_states, AsFailed, AsFailed),
      (attempt_live_states, AsCrashed, AsCrashed),
      (attempt_live_states, AsCancelled, AsCancelled),
      (attempt_live_states, AsQuarantined, AsQuarantined)]"

section \<open>What an attempt's state permits\<close>

definition permits_lease_heartbeat :: "attempt_state \<Rightarrow> bool" where
  "permits_lease_heartbeat s =
     (s \<in> {AsStarting, AsRunning, AsPaused, AsCheckpointing, AsPreparing})"

definition permits_online_lease_check :: "attempt_state \<Rightarrow> bool" where
  "permits_online_lease_check s =
     (s \<in> {AsStarting, AsRunning, AsPaused, AsCheckpointing, AsPreparing})"

definition permits_patch_application :: "attempt_state \<Rightarrow> bool" where
  "permits_patch_application s = (s = AsRunning)"

definition permits_expiry_reclaim :: "attempt_state \<Rightarrow> bool" where
  "permits_expiry_reclaim s =
     (s \<in> {AsStarting, AsRunning, AsPaused, AsCheckpointing, AsPreparing})"

definition is_terminal_release_target :: "attempt_state \<Rightarrow> bool" where
  "is_terminal_release_target s =
     (s \<in> {AsSucceeded, AsSuperseded, AsFailed, AsCrashed, AsCancelled, AsQuarantined})"

definition appears_in_active_attempt_projection :: "attempt_state \<Rightarrow> bool" where
  "appears_in_active_attempt_projection s =
     (s \<in> {AsStarting, AsRunning, AsPaused, AsCheckpointing, AsPreparing})"

definition permits_preserved_workspace_cleanup :: "attempt_state \<Rightarrow> bool" where
  "permits_preserved_workspace_cleanup s =
     (s \<in> {AsSucceeded, AsSuperseded, AsFailed, AsCrashed, AsCancelled})"

text \<open>The states from which the mission and work-package tables have no edge.\<close>

definition mission_terminal :: "mission_state \<Rightarrow> bool" where
  "mission_terminal s = (s \<in> {MsSurvived, MsRejected})"

definition work_package_terminal :: "work_package_state \<Rightarrow> bool" where
  "work_package_terminal s =
     (s \<in> {WpSurvived, WpQuarantined, WpCancelled, WpFailed, WpReverted, WpRejected})"

section \<open>Catalogues\<close>

lemma allow_Ok_target:
  assumes "allow dbg a b arms = Inr c" and "\<forall>(srcs, req, dst) \<in> set arms. dst = req"
  shows "c = b"
  using assms by (induction arms) (auto split: if_splits)

lemma command_phase_catalog: "wire_catalog command_phase_as_str command_phase_parse"
proof
  show "command_phase_parse (command_phase_as_str x) = Inr x" for x
    by (cases x) (simp_all add: command_phase_parse_def)
  show "s = command_phase_as_str x" if "command_phase_parse s = Inr x" for s x
    using that by (auto simp: command_phase_parse_def split: if_splits)
qed

interpretation command_phase: wire_catalog command_phase_as_str command_phase_parse
  by (rule command_phase_catalog)

lemma attempt_catalog: "wire_catalog attempt_as_str attempt_parse"
proof
  show "attempt_parse (attempt_as_str x) = Inr x" for x
    by (cases x) (simp_all add: attempt_parse_def)
  show "s = attempt_as_str x" if "attempt_parse s = Inr x" for s x
    using that by (auto simp: attempt_parse_def split: if_splits)
qed

interpretation attempt_wire: wire_catalog attempt_as_str attempt_parse
  by (rule attempt_catalog)

section \<open>Machines\<close>

lemmas transition_defs =
  mission_transition_def work_package_transition_def attempt_transition_def
  wp_open_states_def attempt_live_states_def

interpretation mission_machine: transition_machine mission_transition mission_terminal
proof
  show "c = b" if "mission_transition a b = Inr c" for a b c
    using that unfolding mission_transition_def by (rule allow_Ok_target) simp
  show "\<not> is_ok (mission_transition a b)" if "mission_terminal a" for a b
    using that by (cases a) (simp_all add: mission_terminal_def transition_defs)
  show "\<exists>b. is_ok (mission_transition a b)" if "\<not> mission_terminal a" for a
    using that by (intro exI [of _ MsRejected], cases a) (simp_all add: mission_terminal_def transition_defs)
qed

lemma work_package_live_exit:
  assumes "\<not> work_package_terminal a"
  shows "\<exists>b. is_ok (work_package_transition a b)"
proof (cases "a \<in> {WpIntegrated, WpObserving}")
  case True
  then have "is_ok (work_package_transition a WpReverted)"
    by (auto simp: transition_defs)
  then show ?thesis ..
next
  case False
  with assms have "is_ok (work_package_transition a WpFailed)"
    by (cases a) (simp_all add: work_package_terminal_def transition_defs)
  then show ?thesis ..
qed

interpretation work_package_machine: transition_machine work_package_transition work_package_terminal
proof
  show "c = b" if "work_package_transition a b = Inr c" for a b c
    using that unfolding work_package_transition_def by (rule allow_Ok_target) simp
  show "\<not> is_ok (work_package_transition a b)" if "work_package_terminal a" for a b
    using that by (cases a) (simp_all add: work_package_terminal_def transition_defs)
  show "\<exists>b. is_ok (work_package_transition a b)" if "\<not> work_package_terminal a" for a
    using that by (rule work_package_live_exit)
qed

interpretation attempt_machine: transition_machine attempt_transition is_terminal_release_target
proof
  show "c = b" if "attempt_transition a b = Inr c" for a b c
    using that unfolding attempt_transition_def by (rule allow_Ok_target) simp
  show "\<not> is_ok (attempt_transition a b)" if "is_terminal_release_target a" for a b
    using that by (cases a) (simp_all add: is_terminal_release_target_def transition_defs)
  show "\<exists>b. is_ok (attempt_transition a b)" if "\<not> is_terminal_release_target a" for a
    using that
    by (intro exI [of _ AsFailed], cases a) (simp_all add: is_terminal_release_target_def transition_defs)
qed

text \<open>From \<open>Prepared\<close> on, every state of the integration line has exactly one predecessor.\<close>

lemma integration_line:
  "is_ok (work_package_transition a WpPrepared) \<Longrightarrow> a = WpExecuting"
  "is_ok (work_package_transition a WpVerifying) \<Longrightarrow> a = WpPrepared"
  "is_ok (work_package_transition a WpVerified) \<Longrightarrow> a = WpVerifying"
  "is_ok (work_package_transition a WpReviewing) \<Longrightarrow> a = WpVerified"
  "is_ok (work_package_transition a WpIntegrationReady) \<Longrightarrow> a = WpReviewing"
  "is_ok (work_package_transition a WpIntegrating) \<Longrightarrow> a = WpIntegrationReady"
  "is_ok (work_package_transition a WpIntegrated) \<Longrightarrow> a = WpIntegrating"
  by (simp_all add: transition_defs split: if_splits)

end
