(* ===== verification/Domain_Core.thy ===== *)
theory Domain_Core
  imports Domain_States
begin

text \<open>
  The pure data of \<^verbatim>\<open>crates/domain/src\<close>: digests (\<^verbatim>\<open>digest.rs\<close>), typed identifiers
  (\<^verbatim>\<open>ids.rs\<close>), the task taxonomy (\<^verbatim>\<open>taxonomy.rs\<close>), the authoritative entities
  (\<^verbatim>\<open>entities.rs\<close>), the authority token (\<^verbatim>\<open>authority.rs\<close>), the behaviour catalogue
  (\<^verbatim>\<open>behavior.rs\<close>) and the four-valued observations with the preservation decision that guards
  workspace deletion (\<^verbatim>\<open>observation.rs\<close>). The BLAKE3 and hex crates are the fields of
  \<open>hash_ext\<close>; a serde encoder is an argument of the function that encodes.
\<close>

section \<open>Digests\<close>

record hash_ext =
  x_blake3 :: "bytes \<Rightarrow> bytes"
  x_hex_encode :: "bytes \<Rightarrow> string"
  x_hex_decode :: "string \<Rightarrow> string + bytes"

type_synonym digest = bytes

definition digest_of :: "'x hash_ext_scheme \<Rightarrow> bytes \<Rightarrow> digest" where
  "digest_of hx b = x_blake3 hx b"

text \<open>\<open>of_json\<close>: the encoder is what \<open>serde_json::to_vec\<close> returns, its error already printed.\<close>

definition of_json :: "'x hash_ext_scheme \<Rightarrow> ('v \<Rightarrow> string + bytes) \<Rightarrow> 'v \<Rightarrow> domain_error + digest" where
  "of_json hx to_vec v =
     res_bind (map_err Encoding (to_vec v)) (\<lambda>b. Ok (digest_of hx b))"

definition to_hex :: "'x hash_ext_scheme \<Rightarrow> digest \<Rightarrow> string" where
  "to_hex hx d = x_hex_encode hx d"

definition from_hex :: "'x hash_ext_scheme \<Rightarrow> string \<Rightarrow> domain_error + digest" where
  "from_hex hx text =
     res_bind (map_err Encoding (x_hex_decode hx text))
       (\<lambda>raw. if length raw = 32 then Ok raw else Err (Encoding ''digest must be 32 bytes''))"

section \<open>Typed identifiers\<close>

text \<open>One macro generates every identifier type; the prefix is its argument.\<close>

definition typed_id_from_seed :: "'x hash_ext_scheme \<Rightarrow> string \<Rightarrow> string \<Rightarrow> string" where
  "typed_id_from_seed hx prefix seed =
     (let d = digest_of hx (prefix @ '':'' @ seed) in prefix @ ''_'' @ to_hex hx d)"

definition typed_id_parse :: "string \<Rightarrow> string \<Rightarrow> domain_error + string" where
  "typed_id_parse prefix raw =
     (case strip_prefix (prefix @ ''_'') raw of
        None \<Rightarrow> Err (InvalidId raw)
      | Some body \<Rightarrow>
          if length body \<noteq> 64 \<or> \<not> list_all is_lower_hex body then Err (InvalidId raw)
          else Ok raw)"

definition id_prefixes :: "(string \<times> string) list" where
  "id_prefixes =
     [(''OrganizationId'', ''org''), (''RepositoryId'', ''rep''), (''MissionId'', ''mis''),
      (''AcceptanceContractId'', ''acc''), (''PlanRevisionId'', ''pln''), (''WorkPackageId'', ''wpk''),
      (''SelectionGroupId'', ''sel''), (''VariantId'', ''var''), (''AttemptId'', ''atm''),
      (''RunnerId'', ''run''), (''WorkspaceId'', ''wsp''), (''CandidateId'', ''can''),
      (''EvidenceId'', ''evd''), (''EffectId'', ''efi''), (''EffectReceiptId'', ''efr''),
      (''CommandId'', ''cmd''), (''CognitiveTaskId'', ''cog''), (''ContextCapsuleId'', ''ctx''),
      (''ProfileId'', ''prf''), (''RequirementId'', ''req'')]"

section \<open>Taxonomy\<close>

datatype task_class =
    DeterministicTransform | ExtractStructured | ClassifyRoute | SummarizeLocal | CompressContext
  | MechanicalCodeEdit | BoundedBugFix | FeatureImplementation | BroadRefactor | ArchitectureDesign
  | SecurityAnalysis | MigrationDesign | CodeReview | FusionRank | FusionSynthesize
  | CompletionAssessment

datatype model_tier = TierD0 | TierM1 | TierM2 | TierM3 | TierM4

record task_classification =
  tc_primary_class :: task_class
  tc_risk_class :: string
  tc_quality_floor :: model_tier
  tc_evidence_requirement :: string
  tc_classifier_version :: string

definition default_tier :: "task_class \<Rightarrow> model_tier" where
  "default_tier c =
     (if c \<in> {DeterministicTransform, ClassifyRoute} then TierD0
      else if c \<in> {ExtractStructured, SummarizeLocal, MechanicalCodeEdit, CompletionAssessment} then TierM1
      else if c \<in> {BoundedBugFix, CompressContext, FusionRank} then TierM2
      else if c \<in> {FeatureImplementation, CodeReview, FusionSynthesize} then TierM3
      else TierM4)"

definition classification_declared :: "task_class \<Rightarrow> string \<Rightarrow> task_classification" where
  "classification_declared c risk =
     \<lparr>tc_primary_class = c, tc_risk_class = risk, tc_quality_floor = default_tier c,
      tc_evidence_requirement = (if ''R2'' \<le> risk then ''E3'' else ''E1''),
      tc_classifier_version = ''bullet-taxonomy-v0''\<rparr>"

section \<open>Entities\<close>

record mission =
  mi_id :: string
  mi_organization_id :: string
  mi_repository_id :: string
  mi_title :: string
  mi_objective :: string
  mi_acceptance_contract_id :: string
  mi_state :: mission_state

record plan_revision =
  pr_id :: string
  pr_mission_id :: string
  pr_canonical_hash :: digest

record work_package =
  wp_id :: string
  wp_mission_id :: string
  wp_plan_revision_id :: string
  wp_task_class :: task_class
  wp_title :: string
  wp_state :: work_package_state

record variant =
  va_id :: string
  va_selection_group_id :: string
  va_work_package_id :: string
  va_fence_counter :: u64

record attempt =
  at_id :: string
  at_variant_id :: string
  at_work_package_id :: string
  at_fence :: u64
  at_runner_id :: string
  at_runner_epoch :: u64
  at_workspace_id :: string
  at_workspace_nonce :: bytes
  at_scope_revision :: u64
  at_context_revision :: u64
  at_state :: attempt_state

record candidate =
  ca_id :: string
  ca_attempt_id :: string
  ca_base_sha :: string
  ca_head_sha :: string
  ca_tree_sha :: string
  ca_patch_digest :: digest

record evidence =
  ev_id :: string
  ev_candidate_id :: string
  ev_tier :: string
  ev_gate :: string
  ev_result :: string

record effect =
  ef_id :: string
  ef_attempt_id :: string
  ef_logical_key :: string
  ef_desired :: string
  ef_outcome :: string

section \<open>Authority token\<close>

record authority_token =
  tk_organization_id :: string
  tk_repository_id :: string
  tk_mission_id :: string
  tk_acceptance_contract_id :: string
  tk_plan_revision_id :: string
  tk_graph_sequence :: u64
  tk_work_package_id :: string
  tk_selection_group_id :: string
  tk_variant_id :: string
  tk_attempt_id :: string
  tk_attempt_fence :: u64
  tk_runner_id :: string
  tk_runner_epoch :: u64
  tk_workspace_id :: string
  tk_workspace_nonce :: bytes
  tk_scope_revision :: u64
  tk_context_revision :: u64
  tk_config_snapshot_hash :: digest
  tk_policy_snapshot_hash :: digest
  tk_routing_policy_hash :: digest
  tk_credential_profile_id :: "string option"
  tk_credential_generation :: "u64 option"

definition token_verify :: "authority_token \<Rightarrow> string \<Rightarrow> u64 \<Rightarrow> domain_error + unit" where
  "token_verify tk attempt fence =
     (if tk_attempt_id tk \<noteq> attempt then
        Err (StaleAuthority (''token attempt '' @ tk_attempt_id tk @ '' != '' @ attempt))
      else if tk_attempt_fence tk \<noteq> fence then
        Err (StaleAuthority (''token fence '' @ show_u (tk_attempt_fence tk) @ '' != '' @ show_u fence))
      else Ok ())"

definition token_digest ::
    "'x hash_ext_scheme \<Rightarrow> (authority_token \<Rightarrow> string + bytes) \<Rightarrow> authority_token \<Rightarrow> domain_error + digest" where
  "token_digest hx to_vec tk = of_json hx to_vec tk"

section \<open>Behaviour catalogue\<close>

datatype enforcement = EnBlock | EnPause | EnQuarantine | EnTerminate

record behavior_rule =
  br_id :: string
  br_version :: string
  br_title :: string
  br_action :: enforcement
  br_fail_closed :: bool

definition default_catalog :: "behavior_rule list" where
  "default_catalog =
     [\<lparr>br_id = ''GT001'', br_version = ''v1'', br_title = ''Uses Git worktree for writable task'',
       br_action = EnBlock, br_fail_closed = True\<rparr>,
      \<lparr>br_id = ''CL001'', br_version = ''v1'',
       br_title = ''Deletes workspace before verified preservation'',
       br_action = EnBlock, br_fail_closed = True\<rparr>,
      \<lparr>br_id = ''CP002'', br_version = ''v1'', br_title = ''Emits done without exact Candidate'',
       br_action = EnBlock, br_fail_closed = True\<rparr>,
      \<lparr>br_id = ''CL002'', br_version = ''v1'',
       br_title = ''Treats failed observation as empty or clean'',
       br_action = EnBlock, br_fail_closed = True\<rparr>,
      \<lparr>br_id = ''FS004'', br_version = ''v1'',
       br_title = ''Writes runtime/provider configuration into product repository'',
       br_action = EnQuarantine, br_fail_closed = True\<rparr>]"

definition reject_worktree :: "bool option \<Rightarrow> bool" where
  "reject_worktree w = (case w of Some True \<Rightarrow> True | Some False \<Rightarrow> False | None \<Rightarrow> True)"

section \<open>Observations and preservation\<close>

datatype 'a observation =
    ObsValue 'a
  | ObsEmpty
  | ObsUnknown string string
  | ObsContradictory "string list" string

fun is_verified :: "'a observation \<Rightarrow> bool" where
  "is_verified (ObsValue _) = True"
| "is_verified _ = False"

fun kind_name :: "'a observation \<Rightarrow> string" where
  "kind_name (ObsValue _) = ''value''"
| "kind_name ObsEmpty = ''empty''"
| "kind_name (ObsUnknown _ _) = ''unknown''"
| "kind_name (ObsContradictory _ _) = ''contradictory''"

fun render :: "string observation \<Rightarrow> string" where
  "render (ObsValue v) = v"
| "render ObsEmpty = ''empty''"
| "render (ObsUnknown src reason) = ''unknown ('' @ src @ '': '' @ reason @ '')''"
| "render (ObsContradictory _ reason) = ''contradictory ('' @ reason @ '')''"

datatype preservation_operation = CleanupWorkspace

datatype preservation_outcome = PoPreserved | PoFailed | PoUnsupported | PoError | PoUnknown | PoSuperseded

fun preservation_outcome_debug :: "preservation_outcome \<Rightarrow> string" where
  "preservation_outcome_debug PoPreserved = ''Preserved''"
| "preservation_outcome_debug PoFailed = ''Failed''"
| "preservation_outcome_debug PoUnsupported = ''Unsupported''"
| "preservation_outcome_debug PoError = ''Error''"
| "preservation_outcome_debug PoUnknown = ''Unknown''"
| "preservation_outcome_debug PoSuperseded = ''Superseded''"

record preservation_subject =
  ps_attempt_id :: string
  ps_fence :: u64
  ps_workspace_id :: string
  ps_workspace_nonce :: bytes

definition subject_from_attempt :: "attempt \<Rightarrow> preservation_subject" where
  "subject_from_attempt a =
     \<lparr>ps_attempt_id = at_id a, ps_fence = at_fence a, ps_workspace_id = at_workspace_id a,
      ps_workspace_nonce = at_workspace_nonce a\<rparr>"

record preservation_record =
  po_subject :: preservation_subject
  po_operation :: preservation_operation
  po_receipt_digest :: digest
  po_outcome :: preservation_outcome

definition record_for_attempt ::
    "attempt \<Rightarrow> preservation_operation \<Rightarrow> digest \<Rightarrow> preservation_outcome \<Rightarrow> preservation_record" where
  "record_for_attempt a op receipt outcome =
     \<lparr>po_subject = subject_from_attempt a, po_operation = op, po_receipt_digest = receipt,
      po_outcome = outcome\<rparr>"

record preservation_decision =
  pd_subject :: preservation_subject
  pd_operation :: preservation_operation
  pd_receipt_digest :: digest

definition preservation_refusal :: "attempt \<Rightarrow> string \<Rightarrow> domain_error" where
  "preservation_refusal a reason = StaleAuthority (reason @ '' for '' @ at_id a)"

definition for_workspace_cleanup ::
    "preservation_record observation \<Rightarrow> attempt \<Rightarrow> domain_error + preservation_decision" where
  "for_workspace_cleanup obs a =
     (if \<not> permits_preserved_workspace_cleanup (at_state a) then
        Err (preservation_refusal a ''Attempt state cannot clean up'')
      else case obs of
        ObsValue rec \<Rightarrow>
          if po_outcome rec \<noteq> PoPreserved then
            Err (preservation_refusal a
              (''preservation outcome is '' @ preservation_outcome_debug (po_outcome rec)))
          else if po_operation rec \<noteq> CleanupWorkspace \<or> po_subject rec \<noteq> subject_from_attempt a then
            Err (preservation_refusal a ''preservation subject or operation does not match'')
          else Ok \<lparr>pd_subject = po_subject rec, pd_operation = po_operation rec,
                   pd_receipt_digest = po_receipt_digest rec\<rparr>
      | other \<Rightarrow> Err (preservation_refusal a (''preservation observation is '' @ kind_name other)))"

definition authorize_workspace_cleanup ::
    "preservation_decision \<Rightarrow> attempt \<Rightarrow> domain_error + digest" where
  "authorize_workspace_cleanup d a =
     (if pd_operation d \<noteq> CleanupWorkspace \<or> pd_subject d \<noteq> subject_from_attempt a
          \<or> \<not> permits_preserved_workspace_cleanup (at_state a) then
        Err (preservation_refusal a ''cleanup decision is stale or mismatched'')
      else Ok (pd_receipt_digest d))"

section \<open>Lemmas\<close>

lemma typed_id_parse_iff:
  "typed_id_parse prefix raw = Inr r \<longleftrightarrow> r = raw \<and> (\<exists>body. raw = prefix @ ''_'' @ body \<and> is_hex_64 body)"
  by (auto simp: typed_id_parse_def is_hex_64_def strip_prefix_None_iff strip_prefix_Some_iff
      split: option.splits if_splits)

lemma typed_id_parse_cases:
  "typed_id_parse prefix raw = Inr raw \<or> typed_id_parse prefix raw = Inl (InvalidId raw)"
  by (auto simp: typed_id_parse_def split: option.splits)

lemma token_verify_iff:
  "token_verify tk a f = Inr () \<longleftrightarrow> tk_attempt_id tk = a \<and> tk_attempt_fence tk = f"
  by (simp add: token_verify_def)

lemma for_workspace_cleanup_iff:
  "for_workspace_cleanup obs a = Inr d \<longleftrightarrow>
     permits_preserved_workspace_cleanup (at_state a) \<and>
     obs = ObsValue (record_for_attempt a CleanupWorkspace (pd_receipt_digest d) PoPreserved) \<and>
     pd_subject d = subject_from_attempt a \<and> pd_operation d = CleanupWorkspace"
  by (auto simp: for_workspace_cleanup_def record_for_attempt_def split: observation.splits if_splits)

lemma authorize_workspace_cleanup_iff:
  "authorize_workspace_cleanup d a = Inr r \<longleftrightarrow>
     pd_operation d = CleanupWorkspace \<and> pd_subject d = subject_from_attempt a \<and>
     permits_preserved_workspace_cleanup (at_state a) \<and> r = pd_receipt_digest d"
  by (auto simp: authorize_workspace_cleanup_def)

end
