(* ===== verification/Domain_Gates.thy ===== *)
theory Domain_Gates
  imports Domain_Core
begin

text \<open>
  Gate identifiers, the sealed gate catalogue, gate outcomes and evidence tiers of
  \<^verbatim>\<open>crates/domain/src/gates.rs\<close>. The lemmas characterise the admitted selections and show that
  only the exact wire name of a passing outcome satisfies a requirement.
\<close>

section \<open>Gate identifiers and the catalogue\<close>

definition MAX_GATE_IDS :: nat where
  "MAX_GATE_IDS = 16"

definition REPOSITORY_GATE_ID :: string where
  "REPOSITORY_GATE_ID = ''gat_'' @ replicate 64 CHR ''8''"

definition gate_id_parse :: "string \<Rightarrow> domain_error + string" where
  "gate_id_parse value =
     (let admitted_shape =
        (case strip_prefix ''gat_'' value of
           None \<Rightarrow> False
         | Some body \<Rightarrow> length body = 64 \<and> list_all is_lower_hex body)
      in if \<not> admitted_shape then
           Err (InvalidId (''gate_id must be gat_ followed by 64 lowercase hexadecimal characters: ''
             @ debug_str value))
         else Ok value)"

record gate_definition =
  gd_id :: string
  gd_program :: string
  gd_args :: "string list"
  gd_timeout_secs :: u64

definition gate_argv :: "gate_definition \<Rightarrow> string list" where
  "gate_argv g = gd_program g # gd_args g"

definition GATES :: "gate_definition list" where
  "GATES = [\<lparr>gd_id = REPOSITORY_GATE_ID, gd_program = ''/usr/bin/grep'',
             gd_args = [''-qx'', ''PONG'', ''PONG.txt''], gd_timeout_secs = 2\<rparr>]"

definition gate_definition_of :: "string \<Rightarrow> gate_definition option" where
  "gate_definition_of gate_id = find (\<lambda>g. gd_id g = gate_id) GATES"

text \<open>The loop of \<open>parse_gate_ids\<close>: the identifiers seen so far, and those parsed in order.\<close>

fun parse_gate_loop :: "string set \<Rightarrow> string list \<Rightarrow> string list \<Rightarrow> domain_error + string list" where
  "parse_gate_loop seen parsed [] = Ok parsed"
| "parse_gate_loop seen parsed (v # vs) =
     res_bind (gate_id_parse v) (\<lambda>g.
       if g \<in> seen then Err (InvalidId (''duplicate gate_id: '' @ g))
       else parse_gate_loop (insert g seen) (parsed @ [g]) vs)"

definition parse_gate_ids :: "string list \<Rightarrow> domain_error + string list" where
  "parse_gate_ids gate_ids =
     (if gate_ids = [] \<or> MAX_GATE_IDS < length gate_ids then
        Err (InvalidId (''gate_ids must contain 1..='' @ show_nat MAX_GATE_IDS @ '' entries''))
      else parse_gate_loop {} [] gate_ids)"

section \<open>Outcomes and tiers\<close>

definition REASON_ZERO_TESTS :: string where
  "REASON_ZERO_TESTS = ''ZERO_TESTS''"

datatype gate_outcome =
    GoPass | GoFail | GoFlaky | GoInfraError | GoCancelled | GoTimedOut | GoNotRun | GoUnsupported
  | GoUnknown | GoSuperseded | GoInvalidated

fun gate_outcome_as_str :: "gate_outcome \<Rightarrow> string" where
  "gate_outcome_as_str GoPass = ''PASS''"
| "gate_outcome_as_str GoFail = ''FAIL''"
| "gate_outcome_as_str GoFlaky = ''FLAKY''"
| "gate_outcome_as_str GoInfraError = ''INFRA_ERROR''"
| "gate_outcome_as_str GoCancelled = ''CANCELLED''"
| "gate_outcome_as_str GoTimedOut = ''TIMED_OUT''"
| "gate_outcome_as_str GoNotRun = ''NOT_RUN''"
| "gate_outcome_as_str GoUnsupported = ''UNSUPPORTED''"
| "gate_outcome_as_str GoUnknown = ''UNKNOWN''"
| "gate_outcome_as_str GoSuperseded = ''SUPERSEDED''"
| "gate_outcome_as_str GoInvalidated = ''INVALIDATED''"

definition gate_outcome_parse :: "string \<Rightarrow> gate_outcome" where
  "gate_outcome_parse name =
     (if name = ''PASS'' then GoPass
      else if name = ''FAIL'' then GoFail
      else if name = ''FLAKY'' then GoFlaky
      else if name = ''INFRA_ERROR'' then GoInfraError
      else if name = ''CANCELLED'' then GoCancelled
      else if name = ''TIMED_OUT'' then GoTimedOut
      else if name = ''NOT_RUN'' then GoNotRun
      else if name = ''UNSUPPORTED'' then GoUnsupported
      else if name = ''SUPERSEDED'' then GoSuperseded
      else if name = ''INVALIDATED'' then GoInvalidated
      else GoUnknown)"

definition outcome_satisfies :: "gate_outcome \<Rightarrow> bool" where
  "outcome_satisfies g = (g = GoPass)"

datatype evidence_tier = E0 | E1 | E2 | E3 | E4

fun tier_as_str :: "evidence_tier \<Rightarrow> string" where
  "tier_as_str E0 = ''E0''"
| "tier_as_str E1 = ''E1''"
| "tier_as_str E2 = ''E2''"
| "tier_as_str E3 = ''E3''"
| "tier_as_str E4 = ''E4''"

definition tier_parse :: "string \<Rightarrow> domain_error + evidence_tier" where
  "tier_parse name =
     (if name = ''E0'' then Ok E0
      else if name = ''E1'' then Ok E1
      else if name = ''E2'' then Ok E2
      else if name = ''E3'' then Ok E3
      else if name = ''E4'' then Ok E4
      else Err (UnknownState (''evidence tier '' @ name)))"

definition evidence_typed ::
    "string \<Rightarrow> string \<Rightarrow> evidence_tier \<Rightarrow> string \<Rightarrow> gate_outcome \<Rightarrow> evidence" where
  "evidence_typed evidence_id candidate_id tier gate outcome =
     \<lparr>ev_id = evidence_id, ev_candidate_id = candidate_id, ev_tier = tier_as_str tier, ev_gate = gate,
      ev_result = gate_outcome_as_str outcome\<rparr>"

definition evidence_outcome :: "evidence \<Rightarrow> gate_outcome" where
  "evidence_outcome e = gate_outcome_parse (ev_result e)"

definition evidence_tier_typed :: "evidence \<Rightarrow> domain_error + evidence_tier" where
  "evidence_tier_typed e = tier_parse (ev_tier e)"

definition evidence_satisfies :: "evidence \<Rightarrow> bool" where
  "evidence_satisfies e = outcome_satisfies (evidence_outcome e)"

section \<open>Lemmas\<close>

lemma tier_catalog: "wire_catalog tier_as_str tier_parse"
proof
  show "tier_parse (tier_as_str x) = Inr x" for x
    by (cases x) (simp_all add: tier_parse_def)
  show "s = tier_as_str x" if "tier_parse s = Inr x" for s x
    using that by (auto simp: tier_parse_def split: if_splits)
qed

interpretation tier_wire: wire_catalog tier_as_str tier_parse
  by (rule tier_catalog)

lemma gate_outcome_round_trip [simp]: "gate_outcome_parse (gate_outcome_as_str g) = g"
  by (cases g) (simp_all add: gate_outcome_parse_def)

lemma gate_outcome_parse_Pass_iff [simp]: "gate_outcome_parse s = GoPass \<longleftrightarrow> s = ''PASS''"
  by (simp add: gate_outcome_parse_def)

lemma gate_id_parse_iff:
  "gate_id_parse v = Inr g \<longleftrightarrow> g = v \<and> (\<exists>body. v = ''gat_'' @ body \<and> is_hex_64 body)"
  by (auto simp: gate_id_parse_def Let_def is_hex_64_def strip_prefix_Some_iff
      split: option.splits if_splits)

lemma parse_gate_loop_iff:
  "parse_gate_loop seen parsed vs = Inr r \<longleftrightarrow>
     r = parsed @ vs \<and> (\<forall>v \<in> set vs. gate_id_parse v = Inr v) \<and> distinct vs \<and> seen \<inter> set vs = {}"
proof (induction vs arbitrary: seen parsed)
  case (Cons v vs)
  show ?case
  proof (cases "gate_id_parse v")
    case (Inr g)
    then have "g = v" by (simp add: gate_id_parse_iff)
    with Inr Cons.IH show ?thesis by auto
  qed simp
qed auto

lemma parse_gate_ids_iff:
  "parse_gate_ids vs = Inr r \<longleftrightarrow>
     r = vs \<and> 1 \<le> length vs \<and> length vs \<le> 16 \<and> distinct vs \<and>
     (\<forall>v \<in> set vs. gate_id_parse v = Inr v)"
  by (auto simp: parse_gate_ids_def MAX_GATE_IDS_def parse_gate_loop_iff Suc_le_eq)

end
