(* ===== verification/Budget_Ledger.thy ===== *)
theory Budget_Ledger
  imports Kernel_Prelude
begin

text \<open>
  The single-dimension ledger of \<^verbatim>\<open>crates/budgets/src/lib.rs\<close>: reserve and settle with every
  checked step of the source. The invariant says that nothing is lost (remaining, reserved and
  settled add up to the opening pot) and that what is reserved is exactly what the open rows hold;
  from it follow that the internal refusals cannot be reached.
\<close>

section \<open>State\<close>

datatype budget_error =
    BeInvalid string | BeDuplicate string | BeInsufficient | BeNotFound | BeConservation
  | BeArithmeticOverflow | BeUnknownIsNotHeadroom

fun budget_reason_code :: "budget_error \<Rightarrow> string" where
  "budget_reason_code (BeInvalid _) = ''BUDGET_RESERVATION_INVALID''"
| "budget_reason_code (BeDuplicate _) = ''BUDGET_RESERVATION_DUPLICATE''"
| "budget_reason_code BeInsufficient = ''BUDGET_INSUFFICIENT''"
| "budget_reason_code BeNotFound = ''BUDGET_RESERVATION_NOT_FOUND''"
| "budget_reason_code BeConservation = ''BUDGET_CONSERVATION''"
| "budget_reason_code BeArithmeticOverflow = ''BUDGET_ARITHMETIC_OVERFLOW''"
| "budget_reason_code BeUnknownIsNotHeadroom = ''BUDGET_UNKNOWN_NOT_HEADROOM''"

record reservation =
  rs_id :: string
  rs_amount :: u64

record budget_ledger =
  bl_opening_known :: u64
  bl_remaining :: u64
  bl_reserved :: u64
  bl_settled :: u64
  bl_unknown_liability :: u64
  bl_open :: "reservation list"
  bl_issued_ids :: "string set"

section \<open>Operations\<close>

definition bl_new :: "u64 \<Rightarrow> u64 \<Rightarrow> budget_ledger" where
  "bl_new remaining unknown_liability =
     \<lparr>bl_opening_known = remaining, bl_remaining = remaining, bl_reserved = 0, bl_settled = 0,
      bl_unknown_liability = unknown_liability, bl_open = [], bl_issued_ids = {}\<rparr>"

definition bl_conserved :: "budget_ledger \<Rightarrow> bool" where
  "bl_conserved l =
     (Option.bind (checked_add (bl_remaining l) (bl_reserved l)) (\<lambda>v. checked_add v (bl_settled l))
      = Some (bl_opening_known l))"

definition bl_reserve :: "string \<Rightarrow> u64 \<Rightarrow> (budget_ledger, budget_error, reservation) mut_op" where
  "bl_reserve rid amount l =
     (if rid = [] \<or> amount = 0 then
        (Err (BeInvalid ''id must be non-empty and amount must be positive''), l)
      else if rid \<in> bl_issued_ids l then (Err (BeDuplicate rid), l)
      else if bl_remaining l < amount then (Err BeInsufficient, l)
      else case checked_add (bl_reserved l) amount of
        None \<Rightarrow> (Err BeArithmeticOverflow, l)
      | Some next_reserved \<Rightarrow>
          (case checked_sub (bl_remaining l) amount of
             None \<Rightarrow> (Err BeConservation, l)
           | Some next_remaining \<Rightarrow>
               let row = \<lparr>rs_id = rid, rs_amount = amount\<rparr> in
               (Ok row, l\<lparr>bl_remaining := next_remaining, bl_reserved := next_reserved,
                         bl_issued_ids := insert rid (bl_issued_ids l),
                         bl_open := bl_open l @ [row]\<rparr>)))"

text \<open>The four checked updates of \<open>settle\<close>, before anything is written.\<close>

definition bl_settle_amounts ::
    "budget_ledger \<Rightarrow> u64 \<Rightarrow> u64 \<Rightarrow> budget_error + (u64 \<times> u64 \<times> u64 \<times> u64)" where
  "bl_settle_amounts l amount actual =
     (let used = min actual amount; returned = amount - used; overspend = actual - used in
      res_bind (ok_or (checked_sub (bl_reserved l) amount) BeConservation) (\<lambda>next_reserved.
      res_bind (ok_or (checked_add (bl_settled l) used) BeArithmeticOverflow) (\<lambda>next_settled.
      res_bind (ok_or (checked_add (bl_remaining l) returned) BeArithmeticOverflow) (\<lambda>next_remaining.
      res_bind (ok_or (checked_add (bl_unknown_liability l) overspend) BeArithmeticOverflow) (\<lambda>next_unknown.
        Ok (next_reserved, next_settled, next_remaining, next_unknown))))))"

definition bl_settle :: "string \<Rightarrow> u64 \<Rightarrow> (budget_ledger, budget_error, unit) mut_op" where
  "bl_settle rid actual l =
     (case position (\<lambda>row. rs_id row = rid) (bl_open l) of
        None \<Rightarrow> (Err BeNotFound, l)
      | Some index \<Rightarrow>
          (case bl_settle_amounts l (rs_amount (bl_open l ! index)) actual of
             Inl e \<Rightarrow> (Err e, l)
           | Inr (next_reserved, next_settled, next_remaining, next_unknown) \<Rightarrow>
               (Ok (), l\<lparr>bl_open := take index (bl_open l) @ drop (Suc index) (bl_open l),
                        bl_reserved := next_reserved, bl_settled := next_settled,
                        bl_remaining := next_remaining, bl_unknown_liability := next_unknown\<rparr>)))"

definition bl_unknown_as_headroom :: "budget_ledger \<Rightarrow> budget_error + u64" where
  "bl_unknown_as_headroom l =
     (if 0 < bl_unknown_liability l then Err BeUnknownIsNotHeadroom else Ok 0)"

section \<open>Runs and the invariant\<close>

datatype budget_op = BoReserve string u64 | BoSettle string u64

fun bl_step :: "budget_op \<Rightarrow> budget_ledger \<Rightarrow> budget_ledger" where
  "bl_step (BoReserve rid amount) l = snd (bl_reserve rid amount l)"
| "bl_step (BoSettle rid actual) l = snd (bl_settle rid actual l)"

definition open_units :: "reservation list \<Rightarrow> nat" where
  "open_units rows = sum_list (map (unat \<circ> rs_amount) rows)"

definition bl_inv :: "budget_ledger \<Rightarrow> bool" where
  "bl_inv l \<longleftrightarrow>
     unat (bl_remaining l) + unat (bl_reserved l) + unat (bl_settled l) = unat (bl_opening_known l) \<and>
     unat (bl_reserved l) = open_units (bl_open l) \<and>
     distinct (map rs_id (bl_open l)) \<and> rs_id ` set (bl_open l) \<subseteq> bl_issued_ids l"

section \<open>Lemmas\<close>

lemma bl_conserved_iff:
  "bl_conserved l \<longleftrightarrow>
     unat (bl_remaining l) + unat (bl_reserved l) + unat (bl_settled l) = unat (bl_opening_known l)"
  unfolding bl_conserved_def by (rule bind_checked_add) (rule checked_add_eq)

lemma bl_new_inv: "bl_inv (bl_new r u)"
  by (simp add: bl_inv_def bl_new_def open_units_def)

text \<open>What \<open>reserve\<close> does, on every branch, from a ledger that keeps the invariant.\<close>

lemma bl_reserve_cases:
  assumes "bl_inv l"
  shows "bl_reserve rid amount l =
     (if rid = [] \<or> amount = 0 then
        (Inl (BeInvalid ''id must be non-empty and amount must be positive''), l)
      else if rid \<in> bl_issued_ids l then (Inl (BeDuplicate rid), l)
      else if bl_remaining l < amount then (Inl BeInsufficient, l)
      else (Inr \<lparr>rs_id = rid, rs_amount = amount\<rparr>,
            l\<lparr>bl_remaining := bl_remaining l - amount, bl_reserved := bl_reserved l + amount,
              bl_issued_ids := insert rid (bl_issued_ids l),
              bl_open := bl_open l @ [\<lparr>rs_id = rid, rs_amount = amount\<rparr>]\<rparr>))"
proof -
  have "checked_add (bl_reserved l) amount = Some (bl_reserved l + amount)"
    if "\<not> bl_remaining l < amount"
    using that assms u64_less [of "bl_opening_known l"]
    by (simp add: checked_add_def bl_inv_def word_less_nat_alt)
  then show ?thesis
    by (auto simp: bl_reserve_def checked_sub_def Let_def)
qed

lemma bl_reserve_inv: "bl_inv l \<Longrightarrow> bl_inv (snd (bl_reserve rid amount l))"
proof -
  assume inv: "bl_inv l"
  show ?thesis
  proof (cases "\<not> bl_remaining l < amount")
    case True
    then have "unat (bl_remaining l - amount) + unat (bl_reserved l + amount) = unat (bl_remaining l) + unat (bl_reserved l)"
      "unat (bl_reserved l + amount) = unat (bl_reserved l) + unat amount"
      using inv u64_less [of "bl_opening_known l"]
      by (simp_all add: bl_inv_def word_less_nat_alt unat_sub word_le_nat_alt unat_word_ariths)
    then show ?thesis
      using inv by (auto simp: bl_reserve_cases [OF inv] bl_inv_def open_units_def)
  qed (use inv in \<open>simp add: bl_reserve_cases [OF inv]\<close>)
qed

text \<open>From the invariant only the liability counter of \<open>settle\<close> can overflow.\<close>

lemma bl_settle_amounts_cases:
  assumes "bl_inv l" and "row \<in> set (bl_open l)"
  shows "bl_settle_amounts l (rs_amount row) actual =
     (if 2 ^ 64 \<le> unat (bl_unknown_liability l) + (unat actual - unat (rs_amount row))
      then Inl BeArithmeticOverflow
      else Inr (bl_reserved l - rs_amount row, bl_settled l + min actual (rs_amount row),
                bl_remaining l + (rs_amount row - min actual (rs_amount row)),
                bl_unknown_liability l + (actual - min actual (rs_amount row))))"
proof -
  have le: "unat (rs_amount row) \<le> unat (bl_reserved l)"
    using assms member_le_sum_list [of "unat (rs_amount row)" "map (unat \<circ> rs_amount) (bl_open l)"]
    by (auto simp: bl_inv_def open_units_def)
  have sum: "unat (bl_remaining l) + unat (bl_reserved l) + unat (bl_settled l) < 2 ^ 64"
    using assms(1) u64_less [of "bl_opening_known l"] by (simp add: bl_inv_def)
  have "checked_sub (bl_reserved l) (rs_amount row) = Some (bl_reserved l - rs_amount row)"
    using le by (simp add: checked_sub_def word_le_nat_alt)
  moreover have "checked_add (bl_settled l) (min actual (rs_amount row)) = Some (bl_settled l + min actual (rs_amount row))"
    using le sum by (simp add: checked_add_def unat_min_word)
  moreover have "checked_add (bl_remaining l) (rs_amount row - min actual (rs_amount row)) =
      Some (bl_remaining l + (rs_amount row - min actual (rs_amount row)))"
    using le sum by (simp add: checked_add_def unat_sub_min')
  ultimately show ?thesis
    by (simp add: bl_settle_amounts_def Let_def checked_add_def unat_sub_min)
qed

lemma bl_settle_Ok:
  assumes inv: "bl_inv l" and ok: "bl_settle rid actual l = (Inr (), l')"
  obtains row ys zs where "bl_open l = ys @ row # zs" and "rs_id row = rid"
    and "bl_open l' = ys @ zs" and "bl_issued_ids l' = bl_issued_ids l"
    and "bl_opening_known l' = bl_opening_known l"
    and "unat (bl_reserved l') = unat (bl_reserved l) - unat (rs_amount row)"
    and "unat (rs_amount row) \<le> unat (bl_reserved l)"
    and "unat (bl_settled l') = unat (bl_settled l) + min (unat actual) (unat (rs_amount row))"
    and "unat (bl_remaining l') = unat (bl_remaining l) + (unat (rs_amount row) - unat actual)"
    and "unat (bl_unknown_liability l') = unat (bl_unknown_liability l) + (unat actual - unat (rs_amount row))"
proof -
  from ok obtain i where i: "position (\<lambda>row. rs_id row = rid) (bl_open l) = Some i"
    by (auto simp: bl_settle_def split: option.splits)
  from position_Some [OF i] obtain ys row zs where
    split: "bl_open l = ys @ row # zs" "length ys = i" "rs_id row = rid" by blast
  then have nth: "bl_open l ! i = row" and rest: "take i (bl_open l) @ drop (Suc i) (bl_open l) = ys @ zs"
    by auto
  have amounts: "res_bind (bl_settle_amounts l (rs_amount row) actual) (\<lambda>x. Inr x) = Inr
      (bl_reserved l', bl_settled l', bl_remaining l', bl_unknown_liability l')"
    and l': "bl_open l' = ys @ zs" "bl_issued_ids l' = bl_issued_ids l" "bl_opening_known l' = bl_opening_known l"
    using ok i nth rest by (auto simp: bl_settle_def split: sum.splits)
  then have "bl_settle_amounts l (rs_amount row) actual =
      Inr (bl_reserved l', bl_settled l', bl_remaining l', bl_unknown_liability l')"
    by (cases "bl_settle_amounts l (rs_amount row) actual") auto
  then have "unat (rs_amount row) \<le> unat (bl_reserved l) \<and>
      unat (bl_reserved l') = unat (bl_reserved l) - unat (rs_amount row) \<and>
      unat (bl_settled l') = unat (bl_settled l) + min (unat actual) (unat (rs_amount row)) \<and>
      unat (bl_remaining l') = unat (bl_remaining l) + (unat (rs_amount row) - unat actual) \<and>
      unat (bl_unknown_liability l') = unat (bl_unknown_liability l) + (unat actual - unat (rs_amount row))"
    by (auto simp: bl_settle_amounts_def Let_def res_bind_Ok_iff checked_add_Some_iff checked_sub_Some_iff
        unat_min_word unat_sub_min unat_sub_min')
  with split l' that show thesis by blast
qed

lemma bl_settle_refused: "bl_settle rid actual l = (Inl e, l') \<Longrightarrow> l' = l"
  by (auto simp: bl_settle_def split: option.splits sum.splits prod.splits)

lemma bl_settle_inv: "bl_inv l \<Longrightarrow> bl_inv (snd (bl_settle rid actual l))"
proof -
  assume inv: "bl_inv l"
  obtain r l' where res: "bl_settle rid actual l = (r, l')" by (cases "bl_settle rid actual l")
  show ?thesis
  proof (cases r)
    case (Inl e)
    with res inv show ?thesis by (auto dest: bl_settle_refused)
  next
    case (Inr u)
    with res have "bl_settle rid actual l = (Inr (), l')" by simp
    from inv this obtain row ys zs where "bl_open l = ys @ row # zs" and "bl_open l' = ys @ zs"
      and "bl_issued_ids l' = bl_issued_ids l" and "bl_opening_known l' = bl_opening_known l"
      and "unat (bl_reserved l') = unat (bl_reserved l) - unat (rs_amount row)"
      and "unat (rs_amount row) \<le> unat (bl_reserved l)"
      and "unat (bl_settled l') = unat (bl_settled l) + min (unat actual) (unat (rs_amount row))"
      and "unat (bl_remaining l') = unat (bl_remaining l) + (unat (rs_amount row) - unat actual)"
      by (rule bl_settle_Ok)
    with inv res show ?thesis by (auto simp: bl_inv_def open_units_def)
  qed
qed

interpretation budget_system: invariant_system bl_step bl_inv
proof
  show "bl_inv (bl_step op l)" if "bl_inv l" for op l
    using that by (cases op) (simp_all add: bl_reserve_inv bl_settle_inv)
qed

end
