(* ===== verification/Budget_Classes.thy ===== *)
theory Budget_Classes
  imports Kernel_Prelude
begin

text \<open>
  Reserve classes and validated budget-policy snapshots of \<^verbatim>\<open>crates/budgets/src/classes.rs\<close>. An
  array indexed by the rank of a class is a function of the class. The lemmas characterise the
  admitted policies, read the 128-bit floor computation as a ceiling, and show that the derived
  policy identity names its provenance and floors uniquely.
\<close>

section \<open>The ladder\<close>

datatype reserve_class =
    RcIncident | RcSecurity | RcCritical | RcIntegrationRepair | RcHumanInteractive | RcNormal
  | RcBenchmark | RcSpeculative

definition LADDER :: "reserve_class list" where
  "LADDER = [RcIncident, RcSecurity, RcCritical, RcIntegrationRepair, RcHumanInteractive, RcNormal,
     RcBenchmark, RcSpeculative]"

fun class_name :: "reserve_class \<Rightarrow> string" where
  "class_name RcIncident = ''incident''"
| "class_name RcSecurity = ''security''"
| "class_name RcCritical = ''critical''"
| "class_name RcIntegrationRepair = ''integration_repair''"
| "class_name RcHumanInteractive = ''human_interactive''"
| "class_name RcNormal = ''normal''"
| "class_name RcBenchmark = ''benchmark''"
| "class_name RcSpeculative = ''speculative''"

fun class_rank :: "reserve_class \<Rightarrow> nat" where
  "class_rank RcIncident = 0"
| "class_rank RcSecurity = 1"
| "class_rank RcCritical = 2"
| "class_rank RcIntegrationRepair = 3"
| "class_rank RcHumanInteractive = 4"
| "class_rank RcNormal = 5"
| "class_rank RcBenchmark = 6"
| "class_rank RcSpeculative = 7"

definition outranks :: "reserve_class \<Rightarrow> reserve_class \<Rightarrow> bool" where
  "outranks c d = (class_rank c < class_rank d)"

lemma class_rank_inject: "class_rank c = class_rank d \<Longrightarrow> c = d"
  by (cases c; cases d) simp_all

text \<open>The derived \<open>Ord\<close>: declaration order, which is the ladder.\<close>

instantiation reserve_class :: linorder
begin

definition less_eq_reserve_class :: "reserve_class \<Rightarrow> reserve_class \<Rightarrow> bool" where
  "less_eq_reserve_class c d = (class_rank c \<le> class_rank d)"

definition less_reserve_class :: "reserve_class \<Rightarrow> reserve_class \<Rightarrow> bool" where
  "less_reserve_class c d = (class_rank c < class_rank d)"

instance
  by standard (auto simp: less_eq_reserve_class_def less_reserve_class_def intro: class_rank_inject)

end

section \<open>Policies\<close>

datatype budget_policy_error =
    PolicyMissing
  | InvalidSubject string
  | MissingClass reserve_class
  | DuplicateClass reserve_class
  | OutOfRange reserve_class u16
  | NonMonotone reserve_class u8 reserve_class u8
  | WrongGeneration u64 u64
  | SnapshotMismatch

fun policy_reason_code :: "budget_policy_error \<Rightarrow> string" where
  "policy_reason_code PolicyMissing = ''BUDGET_POLICY_MISSING''"
| "policy_reason_code (InvalidSubject _) = ''BUDGET_POLICY_SUBJECT_INVALID''"
| "policy_reason_code (MissingClass _) = ''BUDGET_POLICY_CLASS_MISSING''"
| "policy_reason_code (DuplicateClass _) = ''BUDGET_POLICY_CLASS_DUPLICATE''"
| "policy_reason_code (OutOfRange _ _) = ''BUDGET_POLICY_FLOOR_OUT_OF_RANGE''"
| "policy_reason_code (NonMonotone _ _ _ _) = ''BUDGET_POLICY_FLOOR_NON_MONOTONE''"
| "policy_reason_code (WrongGeneration _ _) = ''BUDGET_POLICY_GENERATION_MISMATCH''"
| "policy_reason_code SnapshotMismatch = ''BUDGET_POLICY_SNAPSHOT_MISMATCH''"

record class_floor =
  cf_class :: reserve_class
  cf_floor_percent :: u16

record policy_subject =
  bp_policy_id :: string
  bp_provenance :: string
  bp_generation :: u64

record policy_snapshot =
  sn_subject :: policy_subject
  sn_floors :: "reserve_class \<Rightarrow> u8"

definition MAX_PROVENANCE_BYTES :: nat where
  "MAX_PROVENANCE_BYTES = 256"

definition MAX_SAFE_INTEGER :: u64 where
  "MAX_SAFE_INTEGER = push_bit 53 1 - 1"

definition derive_policy_id :: "string \<Rightarrow> (reserve_class \<Rightarrow> u8) \<Rightarrow> string" where
  "derive_policy_id provenance floors =
     (let values = join '','' (map (\<lambda>c. show_u (floors c)) LADDER)
      in ''budget-policy-v1:'' @ show_nat (length provenance) @ '':'' @ provenance @ '':'' @ values)"

text \<open>The three loops of \<open>try_new\<close>: collect the rows, require every class, compare neighbours.\<close>

fun collect_floors ::
    "(reserve_class \<Rightarrow> u8 option) \<Rightarrow> class_floor list \<Rightarrow> budget_policy_error + (reserve_class \<Rightarrow> u8 option)" where
  "collect_floors floors [] = Ok floors"
| "collect_floors floors (rule # rules) =
     (if 100 < cf_floor_percent rule then Err (OutOfRange (cf_class rule) (cf_floor_percent rule))
      else if floors (cf_class rule) \<noteq> None then Err (DuplicateClass (cf_class rule))
      else collect_floors (floors(cf_class rule := Some (ucast (cf_floor_percent rule)))) rules)"

fun require_floors ::
    "(reserve_class \<Rightarrow> u8 option) \<Rightarrow> (reserve_class \<Rightarrow> u8) \<Rightarrow> reserve_class list \<Rightarrow>
     budget_policy_error + (reserve_class \<Rightarrow> u8)" where
  "require_floors floors values [] = Ok values"
| "require_floors floors values (c # cs) =
     res_bind (ok_or (floors c) (MissingClass c)) (\<lambda>v. require_floors floors (values(c := v)) cs)"

fun check_monotone :: "(reserve_class \<Rightarrow> u8) \<Rightarrow> reserve_class list \<Rightarrow> budget_policy_error + unit" where
  "check_monotone values (higher # lower # cs) =
     (if values lower \<le> values higher then Err (NonMonotone higher (values higher) lower (values lower))
      else check_monotone values (lower # cs))"
| "check_monotone values _ = Ok ()"

definition policy_try_new ::
    "string \<Rightarrow> u64 \<Rightarrow> class_floor list \<Rightarrow> budget_policy_error + policy_snapshot" where
  "policy_try_new provenance generation rules =
     (if provenance = [] \<or> MAX_PROVENANCE_BYTES < length provenance
          \<or> \<not> list_all is_ascii_graphic provenance then
        Err (InvalidSubject ''provenance must contain 1..=256 printable ASCII bytes'')
      else if generation = 0 \<or> MAX_SAFE_INTEGER < generation then
        Err (InvalidSubject ''generation must be within 1..=MAX_SAFE_INTEGER'')
      else
        res_bind (collect_floors (\<lambda>_. None) rules) (\<lambda>floors.
        res_bind (require_floors floors (\<lambda>_. 0) LADDER) (\<lambda>values.
        res_bind (check_monotone values LADDER) (\<lambda>_.
          Ok \<lparr>sn_subject = \<lparr>bp_policy_id = derive_policy_id provenance values,
                            bp_provenance = provenance, bp_generation = generation\<rparr>,
              sn_floors = values\<rparr>))))"

definition floor_units :: "u8 \<Rightarrow> u64 \<Rightarrow> u64" where
  "floor_units percent opening =
     (let p = (ucast (if 100 < percent then 100 else percent) :: 128 word);
          scaled = ucast opening * p;
          ceil = (if 0 < scaled mod 100 then scaled div 100 + 1 else scaled div 100)
      in ucast ceil)"

definition floor_percent :: "policy_snapshot \<Rightarrow> reserve_class \<Rightarrow> u8" where
  "floor_percent p c = sn_floors p c"

definition policy_floor_units :: "policy_snapshot \<Rightarrow> reserve_class \<Rightarrow> u64 \<Rightarrow> u64" where
  "policy_floor_units p c opening = floor_units (floor_percent p c) opening"

definition emergency_floor_units :: "policy_snapshot \<Rightarrow> u64 \<Rightarrow> u64" where
  "emergency_floor_units p opening = policy_floor_units p RcIntegrationRepair opening"

definition may_spend_emergency_reserve :: "policy_snapshot \<Rightarrow> reserve_class \<Rightarrow> bool" where
  "may_spend_emergency_reserve p c = outranks c RcIntegrationRepair"

definition require_exact ::
    "policy_snapshot \<Rightarrow> policy_snapshot option \<Rightarrow> budget_policy_error + unit" where
  "require_exact self supplied =
     res_bind (ok_or supplied PolicyMissing) (\<lambda>s.
       if bp_generation (sn_subject s) \<noteq> bp_generation (sn_subject self) then
         Err (WrongGeneration (bp_generation (sn_subject self)) (bp_generation (sn_subject s)))
       else if s \<noteq> self then Err SnapshotMismatch
       else Ok ())"

section \<open>Lemmas\<close>

lemma set_LADDER [simp]: "set LADDER = UNIV"
  by (auto simp: LADDER_def intro: reserve_class.exhaust)

lemma LADDER_rank: "LADDER ! class_rank c = c" "class_rank c < length LADDER"
  by (cases c; simp add: LADDER_def)+

lemma require_exact_iff [simp]: "require_exact self supplied = Inr () \<longleftrightarrow> supplied = Some self"
  by (cases supplied) (auto simp: require_exact_def)

lemma div_ceil_100: "(n + 99) div 100 = (if n mod 100 = 0 then n div 100 else n div 100 + 1)" for n :: nat
proof -
  have "n + 99 = (n mod 100 + 99) + n div 100 * 100" by simp
  then have "(n + 99) div 100 = n div 100 + (n mod 100 + 99) div 100"
    by (metis div_mult_self1 add.commute zero_neq_numeral)
  moreover have "(n mod 100 + 99) div 100 = (if n mod 100 = 0 then 0 else 1)"
    by (auto intro!: div_nat_eqI)
  ultimately show ?thesis by simp
qed

lemma require_exact_self [simp]: "require_exact self (Some self) = Inr ()"
  by simp

text \<open>The 128-bit product cannot wrap, and the result is the ceiling.\<close>

lemma unat_floor_units:
  "unat (floor_units p opening) = (unat opening * min 100 (unat p) + 99) div 100"
proof -
  define q where "q = (if 100 < p then 100 else p)"
  have q: "unat q = min 100 (unat p)"
    by (simp add: q_def word_less_nat_alt)
  have o: "unat opening < 2 ^ 64"
    using unsigned_less [of "opening", where ?'a = nat] by simp
  define s where "s = (ucast opening :: 128 word) * ucast q"
  have prod: "unat opening * unat q \<le> (2 ^ 64 - 1) * 100"
    using o q by (intro mult_le_mono) auto
  have "take_bit 128 (unat opening) = unat opening" "take_bit 128 (unat q) = unat q"
    using o q by (simp_all add: take_bit_nat_eq_self)
  with prod have s: "unat s = unat opening * unat q"
    by (simp add: s_def unat_word_ariths unsigned_ucast_eq)
  define c where "c = (if 0 < s mod 100 then s div 100 + 1 else s div 100)"
  have "unat c = (unat s + 99) div 100"
  proof (cases "unat s mod 100 = 0")
    case True
    then have "c = s div 100" by (simp add: c_def word_less_nat_alt unat_mod_distrib)
    with True show ?thesis by (simp add: unat_div_distrib div_ceil_100)
  next
    case False
    then have "c = s div 100 + 1" by (simp add: c_def word_less_nat_alt unat_mod_distrib)
    moreover have "unat (s div 100) + 1 < 2 ^ LENGTH(128)"
      using prod s by (simp add: unat_div_distrib)
    ultimately show ?thesis using False
      by (simp add: unat_Suc_word unat_div_distrib div_ceil_100)
  qed
  moreover have "(unat s + 99) div 100 < 2 ^ 64"
    using prod s by simp
  moreover have "floor_units p opening = ucast c"
    by (simp add: floor_units_def q_def s_def c_def Let_def)
  ultimately show ?thesis
    using s q by (simp add: unsigned_ucast_eq take_bit_nat_eq_self)
qed

lemma floor_units_le: "unat (floor_units p opening) \<le> unat opening"
proof -
  have "unat opening * min 100 (unat p) \<le> unat opening * 100" by simp
  then show ?thesis by (simp only: unat_floor_units)
qed

lemma floor_units_mono: "p \<le> q \<Longrightarrow> floor_units p opening \<le> floor_units q opening"
  unfolding word_le_nat_alt unat_floor_units
  by (intro div_le_mono add_le_mono mult_le_mono min.mono order_refl)

text \<open>The admitted rows, whatever their order: each class once, at most 100, strictly rising.\<close>

definition admitted_rules :: "class_floor list \<Rightarrow> bool" where
  "admitted_rules rules \<longleftrightarrow>
     distinct (map cf_class rules) \<and> set (map cf_class rules) = UNIV \<and>
     (\<forall>r \<in> set rules. cf_floor_percent r \<le> 100) \<and>
     (\<forall>r \<in> set rules. \<forall>q \<in> set rules.
        outranks (cf_class r) (cf_class q) \<longrightarrow> cf_floor_percent r < cf_floor_percent q)"

definition admitted_subject :: "string \<Rightarrow> u64 \<Rightarrow> bool" where
  "admitted_subject provenance generation \<longleftrightarrow>
     1 \<le> length provenance \<and> length provenance \<le> 256 \<and> list_all is_ascii_graphic provenance \<and>
     1 \<le> unat generation \<and> unat generation < 2 ^ 53"

definition floor_rows :: "class_floor list \<Rightarrow> (reserve_class \<times> u8) list" where
  "floor_rows rules = map (\<lambda>r. (cf_class r, ucast (cf_floor_percent r))) rules"

lemma collect_floors_iff:
  "collect_floors floors rules = Inr f \<longleftrightarrow>
     (\<forall>r \<in> set rules. cf_floor_percent r \<le> 100 \<and> floors (cf_class r) = None) \<and>
     distinct (map cf_class rules) \<and> f = floors ++ map_of (floor_rows rules)"
proof (induction rules arbitrary: floors)
  case (Cons r rs)
  have upd: "cf_class r \<notin> cf_class ` set rs \<Longrightarrow>
      floors(cf_class r \<mapsto> v) ++ map_of (floor_rows rs) = floors ++ (map_of (floor_rows rs))(cf_class r \<mapsto> v)" for v
    by (subst map_add_upd_left) (auto simp: floor_rows_def dom_map_of_conv_image_fst image_image)
  have rows: "map_of (floor_rows (r # rs)) = (map_of (floor_rows rs))(cf_class r \<mapsto> ucast (cf_floor_percent r))"
    by (simp add: floor_rows_def)
  show ?case
  proof (cases "cf_class r \<in> cf_class ` set rs")
    case True
    then obtain q where "q \<in> set rs" and "cf_class q = cf_class r" by auto
    with True show ?thesis by (auto simp: Cons.IH)
  next
    case False
    then have none: "(\<forall>q \<in> set rs. cf_floor_percent q \<le> 100 \<and> (floors(cf_class r \<mapsto> v)) (cf_class q) = None) \<longleftrightarrow>
        (\<forall>q \<in> set rs. cf_floor_percent q \<le> 100 \<and> floors (cf_class q) = None)" for v
      by (metis (no_types, lifting) fun_upd_apply image_eqI)
    have "collect_floors (floors(cf_class r \<mapsto> ucast (cf_floor_percent r))) rs = Inr f \<longleftrightarrow>
        (\<forall>q \<in> set rs. cf_floor_percent q \<le> 100 \<and> floors (cf_class q) = None) \<and>
        distinct (map cf_class rs) \<and> f = floors ++ map_of (floor_rows (r # rs))"
      unfolding Cons.IH none upd [OF False] rows ..
    with False show ?thesis by (auto simp: not_less)
  qed
qed (auto simp: floor_rows_def)

lemma require_floors_iff:
  "require_floors floors vals cs = Inr v \<longleftrightarrow>
     (\<forall>c \<in> set cs. floors c \<noteq> None) \<and> v = (\<lambda>c. if c \<in> set cs then the (floors c) else vals c)"
proof (induction cs arbitrary: vals)
  case (Cons c cs)
  show ?case
    by (cases "floors c") (auto simp: Cons.IH fun_eq_iff)
qed auto

lemma check_monotone_iff: "check_monotone vals cs = Inr () \<longleftrightarrow> sorted_wrt (\<lambda>c d. vals c < vals d) cs"
proof (induction vals cs rule: check_monotone.induct)
  case (1 vals c d cs)
  then show ?case by (auto simp: not_le intro: less_trans)
qed auto

lemma LADDER_sorted_iff:
  "sorted_wrt P LADDER \<longleftrightarrow> (\<forall>c d. outranks c d \<longrightarrow> P c d)"
proof
  show "\<forall>c d. outranks c d \<longrightarrow> P c d" if "sorted_wrt P LADDER"
    using sorted_wrt_nth_less [OF that] LADDER_rank by (metis outranks_def)
  show "sorted_wrt P LADDER" if "\<forall>c d. outranks c d \<longrightarrow> P c d"
    using that by (simp add: LADDER_def outranks_def)
qed

lemma unat_ucast_percent: "p \<le> (100 :: u16) \<Longrightarrow> unat (ucast p :: u8) = unat p"
  by (simp add: unsigned_ucast_eq take_bit_nat_eq_self word_le_nat_alt)

lemma ucast_percent_less:
  "p \<le> (100 :: u16) \<Longrightarrow> q \<le> 100 \<Longrightarrow> (ucast p :: u8) < ucast q \<longleftrightarrow> p < q"
  by (simp add: word_less_nat_alt unat_ucast_percent)

lemma map_of_floor_rows:
  "distinct (map cf_class rules) \<Longrightarrow>
     map_of (floor_rows rules) c = Some v \<longleftrightarrow> (\<exists>r \<in> set rules. cf_class r = c \<and> v = ucast (cf_floor_percent r))"
  by (subst map_of_eq_Some_iff) (auto simp: floor_rows_def comp_def)

lemma map_of_floor_rows_None: "map_of (floor_rows rules) c = None \<longleftrightarrow> c \<notin> cf_class ` set rules"
  by (auto simp: map_of_eq_None_iff floor_rows_def image_iff)

text \<open>The floors a complete set of rows names, whatever its order.\<close>

definition floors_of :: "class_floor list \<Rightarrow> reserve_class \<Rightarrow> u8" where
  "floors_of rules c = the (map_of (floor_rows rules) c)"

lemma floors_of_row:
  "distinct (map cf_class rules) \<Longrightarrow> r \<in> set rules \<Longrightarrow> floors_of rules (cf_class r) = ucast (cf_floor_percent r)"
  using map_of_floor_rows [of rules "cf_class r" "ucast (cf_floor_percent r)"]
  by (auto simp: floors_of_def)

lemma floors_of_sorted_iff:
  assumes "distinct (map cf_class rules)" and "cf_class ` set rules = UNIV"
    and "\<forall>r \<in> set rules. cf_floor_percent r \<le> 100"
  shows "sorted_wrt (\<lambda>c d. floors_of rules c < floors_of rules d) LADDER \<longleftrightarrow>
     (\<forall>r \<in> set rules. \<forall>q \<in> set rules.
        outranks (cf_class r) (cf_class q) \<longrightarrow> cf_floor_percent r < cf_floor_percent q)"
proof -
  have "sorted_wrt (\<lambda>c d. floors_of rules c < floors_of rules d) LADDER \<longleftrightarrow>
      (\<forall>c \<in> cf_class ` set rules. \<forall>d \<in> cf_class ` set rules. outranks c d \<longrightarrow> floors_of rules c < floors_of rules d)"
    using assms(2) by (simp add: LADDER_sorted_iff)
  also have "\<dots> \<longleftrightarrow> (\<forall>r \<in> set rules. \<forall>q \<in> set rules.
      outranks (cf_class r) (cf_class q) \<longrightarrow> cf_floor_percent r < cf_floor_percent q)"
    using assms(1,3) by (simp add: floors_of_row ucast_percent_less)
  finally show ?thesis .
qed

lemma admitted_subject_iff:
  "admitted_subject provenance generation \<longleftrightarrow>
     \<not> (provenance = [] \<or> MAX_PROVENANCE_BYTES < length provenance \<or> \<not> list_all is_ascii_graphic provenance) \<and>
     \<not> (generation = 0 \<or> MAX_SAFE_INTEGER < generation)"
proof -
  have "unat MAX_SAFE_INTEGER = 2 ^ 53 - 1"
    by (simp add: MAX_SAFE_INTEGER_def push_bit_eq_mult unat_sub)
  moreover have "1 \<le> unat generation \<longleftrightarrow> generation \<noteq> 0"
    by (simp add: Suc_le_eq unat_gt_0)
  ultimately show ?thesis
    by (auto simp: admitted_subject_def MAX_PROVENANCE_BYTES_def word_less_nat_alt Suc_le_eq)
qed

lemma policy_try_new_iff:
  "policy_try_new provenance generation rules = Inr s \<longleftrightarrow>
     admitted_subject provenance generation \<and> admitted_rules rules \<and>
     s = \<lparr>sn_subject = \<lparr>bp_policy_id = derive_policy_id provenance (floors_of rules),
                        bp_provenance = provenance, bp_generation = generation\<rparr>,
          sn_floors = floors_of rules\<rparr>"
proof (cases "admitted_subject provenance generation")
  case False
  then show ?thesis by (auto simp: policy_try_new_def admitted_subject_iff)
next
  case True
  have all: "(\<forall>c. map_of (floor_rows rules) c \<noteq> None) \<longleftrightarrow> cf_class ` set rules = UNIV"
    by (auto simp: map_of_floor_rows_None)
  have floors: "(\<lambda>c. the (map_of (floor_rows rules) c)) = floors_of rules"
    by (simp add: floors_of_def fun_eq_iff)
  from True have "policy_try_new provenance generation rules = Inr s \<longleftrightarrow>
      (\<forall>r \<in> set rules. cf_floor_percent r \<le> 100) \<and> distinct (map cf_class rules) \<and>
      cf_class ` set rules = UNIV \<and>
      sorted_wrt (\<lambda>c d. floors_of rules c < floors_of rules d) LADDER \<and>
      s = \<lparr>sn_subject = \<lparr>bp_policy_id = derive_policy_id provenance (floors_of rules),
                        bp_provenance = provenance, bp_generation = generation\<rparr>,
           sn_floors = floors_of rules\<rparr>"
    unfolding all [symmetric] floors [symmetric]
    by (auto simp: policy_try_new_def admitted_subject_iff res_bind_Ok_iff collect_floors_iff
        require_floors_iff check_monotone_iff)
  then show ?thesis
    using True floors_of_sorted_iff [of rules] by (auto simp: admitted_rules_def)
qed

lemma derive_policy_id_inject:
  assumes "derive_policy_id p f = derive_policy_id q g"
  shows "p = q \<and> f = g"
proof -
  have colon: "CHR '':'' \<notin> set (show_nat n)" and comma: "CHR '','' \<notin> set (show_nat n)" for n
    using show_nat_digits by (force simp: is_ascii_digit_def)+
  let ?v = "\<lambda>f. join '','' (map (\<lambda>c. show_u (f c)) LADDER)"
  have "show_nat (length p) @ CHR '':'' # (p @ '':'' @ ?v f) = show_nat (length q) @ CHR '':'' # (q @ '':'' @ ?v g)"
    using assms by (simp add: derive_policy_id_def Let_def)
  then have "show_nat (length p) = show_nat (length q) \<and> p @ '':'' @ ?v f = q @ '':'' @ ?v g"
    by (rule split_at_sep) (rule colon)+
  then have len: "length p = length q" and rest: "p @ '':'' @ ?v f = q @ '':'' @ ?v g"
    by simp_all
  from rest len have "p = q" and "?v f = ?v g" by simp_all
  from this(2) have "map (\<lambda>c. show_u (f c)) LADDER = map (\<lambda>c. show_u (g c)) LADDER"
    by (rule join_inject) (simp_all add: show_u_def comma)
  then have "f c = g c" for c by (simp add: map_eq_conv)
  with \<open>p = q\<close> show ?thesis by auto
qed

end
