(* ===== verification/Vector_Ledger.thy ===== *)
theory Vector_Ledger
  imports Budget_Classes
begin

text \<open>
  The budget dimensions of \<^verbatim>\<open>crates/budgets/src/dimensions.rs\<close> and the multi-dimension ledger of
  \<^verbatim>\<open>crates/budgets/src/lib.rs\<close>. An array indexed by the discriminant of a dimension is a function
  of the dimension. The loops of \<open>reserve\<close>, \<open>settle\<close> and \<open>release\<close> are folds over the canonical
  order; the lemmas give their result pointwise, the first refusal of \<open>reserve\<close>, and the
  ledger invariant with every operation keeping it.
\<close>

section \<open>Dimensions\<close>

datatype dimension =
    DmToken | DmCost | DmCall | DmWallTime | DmConcurrency | DmProviderQuota | DmInvocation | DmCpu
  | DmMemory | DmPids | DmDisk | DmEgress | DmOutput | DmArtifact | DmVerifierBacklog | DmEffect
  | DmProbe | DmCasLiability

definition DIMENSION_ALL :: "dimension list" where
  "DIMENSION_ALL =
     [DmToken, DmCost, DmCall, DmWallTime, DmConcurrency, DmProviderQuota, DmInvocation, DmCpu,
      DmMemory, DmPids, DmDisk, DmEgress, DmOutput, DmArtifact, DmVerifierBacklog, DmEffect,
      DmProbe, DmCasLiability]"

fun dimension_name :: "dimension \<Rightarrow> string" where
  "dimension_name DmToken = ''token''"
| "dimension_name DmCost = ''cost''"
| "dimension_name DmCall = ''call''"
| "dimension_name DmWallTime = ''wall-time''"
| "dimension_name DmConcurrency = ''concurrency''"
| "dimension_name DmProviderQuota = ''provider-quota''"
| "dimension_name DmInvocation = ''invocation''"
| "dimension_name DmCpu = ''cpu''"
| "dimension_name DmMemory = ''memory''"
| "dimension_name DmPids = ''pids''"
| "dimension_name DmDisk = ''disk''"
| "dimension_name DmEgress = ''egress''"
| "dimension_name DmOutput = ''output''"
| "dimension_name DmArtifact = ''artifact''"
| "dimension_name DmVerifierBacklog = ''verifier-backlog''"
| "dimension_name DmEffect = ''effect''"
| "dimension_name DmProbe = ''probe''"
| "dimension_name DmCasLiability = ''cas-liability''"

type_synonym reservation_vector = "dimension \<Rightarrow> u64"

definition vec_zero :: reservation_vector where
  "vec_zero = (\<lambda>_. 0)"

definition vec_is_zero :: "reservation_vector \<Rightarrow> bool" where
  "vec_is_zero v = list_all (\<lambda>d. v d = 0) DIMENSION_ALL"

definition vec_iter :: "reservation_vector \<Rightarrow> (dimension \<times> u64) list" where
  "vec_iter v = map (\<lambda>d. (d, v d)) DIMENSION_ALL"

definition vec_nonzero :: "reservation_vector \<Rightarrow> (dimension \<times> u64) list" where
  "vec_nonzero v = filter (\<lambda>(_, units). 0 < units) (vec_iter v)"

datatype usage = UsUnknown | UsKnown u64

type_synonym usage_vector = "dimension \<Rightarrow> usage"

definition usage_known :: "reservation_vector \<Rightarrow> usage_vector" where
  "usage_known v = (\<lambda>d. UsKnown (v d))"

datatype forecast_outcome =
    FoExact | FoUnder u64 | FoOver u64 | FoUnknown u64 | FoUnforecastOverrun u64 | FoUnforecastUnknown

fun is_liability :: "forecast_outcome \<Rightarrow> bool" where
  "is_liability FoExact = False"
| "is_liability (FoUnder _) = False"
| "is_liability (FoOver _) = True"
| "is_liability (FoUnknown _) = True"
| "is_liability (FoUnforecastOverrun _) = True"
| "is_liability FoUnforecastUnknown = True"

record forecast_error =
  fe_dimension :: dimension
  fe_forecast :: u64
  fe_usage :: usage
  fe_outcome :: forecast_outcome

record dimension_state =
  ds_opening :: u64
  ds_remaining :: u64
  ds_reserved :: u64
  ds_retained :: u64
  ds_settled :: u64
  ds_overrun :: u64
  ds_unknown_events :: u64

definition ds_conserved :: "dimension_state \<Rightarrow> bool" where
  "ds_conserved s =
     (Option.bind (Option.bind (checked_add (ds_remaining s) (ds_reserved s))
        (\<lambda>sum. checked_add sum (ds_retained s))) (\<lambda>sum. checked_add sum (ds_settled s))
      = Some (ds_opening s))"

definition ds_unknown_liability :: "dimension_state \<Rightarrow> u64 option" where
  "ds_unknown_liability s = checked_add (ds_retained s) (ds_overrun s)"

definition ds_has_unknown_liability :: "dimension_state \<Rightarrow> bool" where
  "ds_has_unknown_liability s = (0 < ds_retained s \<or> 0 < ds_overrun s \<or> 0 < ds_unknown_events s)"

record vector_reservation =
  vr_id :: string
  vr_class :: reserve_class
  vr_policy :: policy_subject
  vr_forecast :: reservation_vector

record settlement_record =
  sr_id :: string
  sr_class :: reserve_class
  sr_policy :: policy_subject
  sr_forecast :: reservation_vector
  sr_usage :: usage_vector
  sr_errors :: "forecast_error list"

definition is_forecast_error_event :: "settlement_record \<Rightarrow> bool" where
  "is_forecast_error_event r = list_ex (\<lambda>row. is_liability (fe_outcome row)) (sr_errors r)"

datatype dimension_error =
    DePolicy budget_policy_error
  | DeInvalid string
  | DeDuplicate string
  | DeExhausted dimension u64 u64
  | DeBelowFloor dimension reserve_class u64 u64 u64
  | DeNotFound
  | DeConservation dimension
  | DeArithmeticOverflow dimension
  | DeUnknownIsNotHeadroom dimension

fun dimension_reason_code :: "dimension_error \<Rightarrow> string" where
  "dimension_reason_code (DePolicy e) = policy_reason_code e"
| "dimension_reason_code (DeInvalid _) = ''BUDGET_RESERVATION_INVALID''"
| "dimension_reason_code (DeDuplicate _) = ''BUDGET_RESERVATION_DUPLICATE''"
| "dimension_reason_code (DeExhausted _ _ _) = ''BUDGET_DIMENSION_EXHAUSTED''"
| "dimension_reason_code (DeBelowFloor _ _ _ _ _) = ''BUDGET_CLASS_FLOOR''"
| "dimension_reason_code DeNotFound = ''BUDGET_RESERVATION_NOT_FOUND''"
| "dimension_reason_code (DeConservation _) = ''BUDGET_CONSERVATION''"
| "dimension_reason_code (DeArithmeticOverflow _) = ''BUDGET_ARITHMETIC_OVERFLOW''"
| "dimension_reason_code (DeUnknownIsNotHeadroom _) = ''BUDGET_UNKNOWN_NOT_HEADROOM''"

fun error_dimension :: "dimension_error \<Rightarrow> dimension option" where
  "error_dimension (DeExhausted d _ _) = Some d"
| "error_dimension (DeBelowFloor d _ _ _ _) = Some d"
| "error_dimension (DeConservation d) = Some d"
| "error_dimension (DeArithmeticOverflow d) = Some d"
| "error_dimension (DeUnknownIsNotHeadroom d) = Some d"
| "error_dimension _ = None"

section \<open>The ledger\<close>

type_synonym pots = "dimension \<Rightarrow> dimension_state"

record vector_ledger =
  vl_policy :: policy_snapshot
  vl_pots :: pots
  vl_open :: "(string, vector_reservation) btree_map"
  vl_issued :: "string set"

definition dim_add :: "dimension \<Rightarrow> u64 \<Rightarrow> u64 \<Rightarrow> dimension_error + u64" where
  "dim_add d left right = ok_or (checked_add left right) (DeArithmeticOverflow d)"

definition dim_sub :: "dimension \<Rightarrow> u64 \<Rightarrow> u64 \<Rightarrow> dimension_error + u64" where
  "dim_sub d left right = ok_or (checked_sub left right) (DeConservation d)"

definition dim_check :: "dimension \<Rightarrow> dimension_state \<Rightarrow> dimension_error + unit" where
  "dim_check d pot = (if ds_conserved pot then Ok () else Err (DeConservation d))"

definition vl_new :: "reservation_vector \<Rightarrow> reservation_vector \<Rightarrow> policy_snapshot \<Rightarrow> vector_ledger" where
  "vl_new opn unknown policy =
     \<lparr>vl_policy = policy,
      vl_pots = (\<lambda>d. \<lparr>ds_opening = opn d, ds_remaining = opn d, ds_reserved = 0, ds_retained = 0,
                     ds_settled = 0, ds_overrun = unknown d, ds_unknown_events = 0\<rparr>),
      vl_open = bt_empty, vl_issued = {}\<rparr>"

definition vl_headroom :: "vector_ledger \<Rightarrow> reservation_vector" where
  "vl_headroom l = (\<lambda>d. ds_remaining (vl_pots l d))"

definition vl_conserved :: "vector_ledger \<Rightarrow> bool" where
  "vl_conserved l = list_all (\<lambda>d. ds_conserved (vl_pots l d)) DIMENSION_ALL"

definition vl_unknown_as_headroom :: "vector_ledger \<Rightarrow> dimension \<Rightarrow> dimension_error + u64" where
  "vl_unknown_as_headroom l d =
     (if ds_has_unknown_liability (vl_pots l d) then Err (DeUnknownIsNotHeadroom d) else Ok 0)"

fun reserve_loop ::
    "policy_snapshot \<Rightarrow> reserve_class \<Rightarrow> pots \<Rightarrow> (dimension \<times> u64) list \<Rightarrow> dimension_error + pots" where
  "reserve_loop policy class next [] = Ok next"
| "reserve_loop policy class next ((d, requested) # rest) =
     (let pot = next d; remaining = ds_remaining pot in
      if remaining < requested then Err (DeExhausted d requested remaining)
      else let after = remaining - requested; floor = policy_floor_units policy class (ds_opening pot) in
      if after < floor then Err (DeBelowFloor d class floor remaining requested)
      else res_bind (dim_add d (ds_reserved pot) requested) (\<lambda>reserved.
           let pot' = pot\<lparr>ds_reserved := reserved, ds_remaining := after\<rparr> in
           res_bind (dim_check d pot') (\<lambda>_. reserve_loop policy class (next(d := pot')) rest)))"

definition vl_reserve ::
    "string \<Rightarrow> reserve_class \<Rightarrow> reservation_vector \<Rightarrow> policy_snapshot option \<Rightarrow>
     (vector_ledger, dimension_error, vector_reservation) mut_op" where
  "vl_reserve rid class forecast policy l =
     (case map_err DePolicy (require_exact (vl_policy l) policy) of
        Inl e \<Rightarrow> (Err e, l)
      | Inr _ \<Rightarrow>
          if rid = [] \<or> vec_is_zero forecast then
            (Err (DeInvalid ''id must be non-empty and at least one dimension must be positive''), l)
          else if rid \<in> vl_issued l then (Err (DeDuplicate rid), l)
          else case reserve_loop (vl_policy l) class (vl_pots l) (vec_nonzero forecast) of
            Inl e \<Rightarrow> (Err e, l)
          | Inr next \<Rightarrow>
              let row = \<lparr>vr_id = rid, vr_class = class, vr_policy = sn_subject (vl_policy l),
                         vr_forecast = forecast\<rparr> in
              (Ok row, l\<lparr>vl_pots := next, vl_issued := insert rid (vl_issued l),
                        vl_open := bt_insert rid row (vl_open l)\<rparr>))"

text \<open>
  The match of \<open>settle\<close> on one dimension: no row for known zero usage that was not forecast,
  otherwise the outcome and the pot it leaves before the reserved units are released.
\<close>

definition settle_outcome ::
    "dimension \<Rightarrow> u64 \<Rightarrow> usage \<Rightarrow> dimension_state \<Rightarrow>
     dimension_error + (forecast_outcome \<times> dimension_state) option" where
  "settle_outcome d forecast observed pot =
     (case observed of
        UsKnown actual \<Rightarrow>
          if forecast = 0 then
            if actual = 0 then Ok None
            else res_bind (dim_add d (ds_overrun pot) actual) (\<lambda>v.
                   Ok (Some (FoUnforecastOverrun actual, pot\<lparr>ds_overrun := v\<rparr>)))
          else
            let used = min actual forecast; residual = forecast - used; overrun = actual - used in
            res_bind (dim_add d (ds_settled pot) used) (\<lambda>settled.
            res_bind (dim_add d (ds_remaining pot) residual) (\<lambda>remaining.
            res_bind (dim_add d (ds_overrun pot) overrun) (\<lambda>over.
              Ok (Some (if 0 < overrun then FoOver overrun
                        else if 0 < residual then FoUnder residual else FoExact,
                        pot\<lparr>ds_settled := settled, ds_remaining := remaining, ds_overrun := over\<rparr>)))))
      | UsUnknown \<Rightarrow>
          if forecast = 0 then
            res_bind (dim_add d (ds_unknown_events pot) 1) (\<lambda>v.
              Ok (Some (FoUnforecastUnknown, pot\<lparr>ds_unknown_events := v\<rparr>)))
          else
            res_bind (dim_add d (ds_retained pot) forecast) (\<lambda>v.
              Ok (Some (FoUnknown forecast, pot\<lparr>ds_retained := v\<rparr>))))"

fun settle_loop ::
    "usage_vector \<Rightarrow> pots \<Rightarrow> forecast_error list \<Rightarrow> (dimension \<times> u64) list \<Rightarrow>
     dimension_error + (pots \<times> forecast_error list)" where
  "settle_loop usage next errors [] = Ok (next, errors)"
| "settle_loop usage next errors ((d, forecast) # rest) =
     res_bind (settle_outcome d forecast (usage d) (next d)) (\<lambda>res.
       case res of
         None \<Rightarrow> settle_loop usage next errors rest
       | Some (outcome, pot) \<Rightarrow>
           res_bind (dim_sub d (ds_reserved pot) forecast) (\<lambda>reserved.
           let pot' = pot\<lparr>ds_reserved := reserved\<rparr> in
           res_bind (dim_check d pot') (\<lambda>_.
             settle_loop usage (next(d := pot'))
               (errors @ [\<lparr>fe_dimension = d, fe_forecast = forecast, fe_usage = usage d,
                           fe_outcome = outcome\<rparr>]) rest)))"

definition vl_settle ::
    "string \<Rightarrow> usage_vector \<Rightarrow> policy_snapshot option \<Rightarrow>
     (vector_ledger, dimension_error, settlement_record) mut_op" where
  "vl_settle rid usage policy l =
     (case map_err DePolicy (require_exact (vl_policy l) policy) of
        Inl e \<Rightarrow> (Err e, l)
      | Inr _ \<Rightarrow>
          (case bt_get (vl_open l) rid of
             None \<Rightarrow> (Err DeNotFound, l)
           | Some row \<Rightarrow>
               (case settle_loop usage (vl_pots l) [] (vec_iter (vr_forecast row)) of
                  Inl e \<Rightarrow> (Err e, l)
                | Inr (next, errors) \<Rightarrow>
                    (Ok \<lparr>sr_id = vr_id row, sr_class = vr_class row, sr_policy = vr_policy row,
                         sr_forecast = vr_forecast row, sr_usage = usage, sr_errors = errors\<rparr>,
                     l\<lparr>vl_pots := next, vl_open := bt_remove rid (vl_open l)\<rparr>))))"

fun release_loop :: "pots \<Rightarrow> (dimension \<times> u64) list \<Rightarrow> dimension_error + pots" where
  "release_loop next [] = Ok next"
| "release_loop next ((d, forecast) # rest) =
     (let pot = next d in
      res_bind (dim_sub d (ds_reserved pot) forecast) (\<lambda>reserved.
      res_bind (dim_add d (ds_remaining pot) forecast) (\<lambda>remaining.
      let pot' = pot\<lparr>ds_reserved := reserved, ds_remaining := remaining\<rparr> in
      res_bind (dim_check d pot') (\<lambda>_. release_loop (next(d := pot')) rest))))"

definition vl_release :: "string \<Rightarrow> (vector_ledger, dimension_error, reservation_vector) mut_op" where
  "vl_release rid l =
     (case bt_get (vl_open l) rid of
        None \<Rightarrow> (Err DeNotFound, l)
      | Some row \<Rightarrow>
          (case release_loop (vl_pots l) (vec_nonzero (vr_forecast row)) of
             Inl e \<Rightarrow> (Err e, l)
           | Inr next \<Rightarrow>
               (Ok (vr_forecast row), l\<lparr>vl_pots := next, vl_open := bt_remove rid (vl_open l)\<rparr>)))"

section \<open>Runs and the invariant\<close>

datatype vector_op =
    VoReserve string reserve_class reservation_vector "policy_snapshot option"
  | VoSettle string usage_vector "policy_snapshot option"
  | VoRelease string

fun vl_step :: "vector_op \<Rightarrow> vector_ledger \<Rightarrow> vector_ledger" where
  "vl_step (VoReserve rid class forecast policy) l = snd (vl_reserve rid class forecast policy l)"
| "vl_step (VoSettle rid usage policy) l = snd (vl_settle rid usage policy l)"
| "vl_step (VoRelease rid) l = snd (vl_release rid l)"

definition ds_sum :: "dimension_state \<Rightarrow> nat" where
  "ds_sum s = unat (ds_remaining s) + unat (ds_reserved s) + unat (ds_retained s) + unat (ds_settled s)"

definition vl_inv :: "vector_ledger \<Rightarrow> bool" where
  "vl_inv l \<longleftrightarrow>
     (\<forall>d. ds_sum (vl_pots l d) = unat (ds_opening (vl_pots l d))) \<and>
     (\<forall>d. unat (ds_reserved (vl_pots l d)) = bt_sum (\<lambda>row. unat (vr_forecast row d)) (vl_open l)) \<and>
     (\<forall>rid row. bt_get (vl_open l) rid = Some row \<longrightarrow> vr_id row = rid \<and> rid \<in> vl_issued l)"

text \<open>
  Settlement of one dimension against an observation: the pot it leaves, the row it reports, and
  the only thing that can refuse it, a liability counter that is full.
\<close>

definition settle_pot :: "usage \<Rightarrow> u64 \<Rightarrow> dimension_state \<Rightarrow> dimension_state" where
  "settle_pot observed f pot =
     (case observed of
        UsKnown a \<Rightarrow> pot\<lparr>ds_settled := ds_settled pot + min a f, ds_remaining := ds_remaining pot + (f - min a f),
                        ds_overrun := ds_overrun pot + (a - min a f), ds_reserved := ds_reserved pot - f\<rparr>
      | UsUnknown \<Rightarrow>
          if f = 0 then pot\<lparr>ds_unknown_events := ds_unknown_events pot + 1\<rparr>
          else pot\<lparr>ds_retained := ds_retained pot + f, ds_reserved := ds_reserved pot - f\<rparr>)"

definition liability_full :: "usage \<Rightarrow> u64 \<Rightarrow> dimension_state \<Rightarrow> bool" where
  "liability_full observed f pot =
     (case observed of
        UsKnown a \<Rightarrow> 2 ^ 64 \<le> unat (ds_overrun pot) + (unat a - unat f)
      | UsUnknown \<Rightarrow> f = 0 \<and> 2 ^ 64 \<le> unat (ds_unknown_events pot) + 1)"

definition settle_rows :: "dimension \<Rightarrow> usage \<Rightarrow> u64 \<Rightarrow> forecast_error list" where
  "settle_rows d observed f =
     map (\<lambda>outcome. \<lparr>fe_dimension = d, fe_forecast = f, fe_usage = observed, fe_outcome = outcome\<rparr>)
       (case observed of
          UsKnown a \<Rightarrow>
            if f = 0 then (if a = 0 then [] else [FoUnforecastOverrun a])
            else if f < a then [FoOver (a - f)] else if a < f then [FoUnder (f - a)] else [FoExact]
        | UsUnknown \<Rightarrow> if f = 0 then [FoUnforecastUnknown] else [FoUnknown f])"

text \<open>What one dimension looks like after a request of \<open>q\<close> units, and when it may be granted.\<close>

definition reserve_pot :: "u64 \<Rightarrow> dimension_state \<Rightarrow> dimension_state" where
  "reserve_pot q pot = pot\<lparr>ds_reserved := ds_reserved pot + q, ds_remaining := ds_remaining pot - q\<rparr>"

definition release_pot :: "u64 \<Rightarrow> dimension_state \<Rightarrow> dimension_state" where
  "release_pot q pot = pot\<lparr>ds_reserved := ds_reserved pot - q, ds_remaining := ds_remaining pot + q\<rparr>"

definition fits :: "policy_snapshot \<Rightarrow> reserve_class \<Rightarrow> dimension_state \<Rightarrow> u64 \<Rightarrow> bool" where
  "fits policy class pot q \<longleftrightarrow>
     unat q + unat (policy_floor_units policy class (ds_opening pot)) \<le> unat (ds_remaining pot)"

definition shortfall :: "policy_snapshot \<Rightarrow> reserve_class \<Rightarrow> dimension \<Rightarrow> dimension_state \<Rightarrow> u64 \<Rightarrow> dimension_error" where
  "shortfall policy class d pot q =
     (if ds_remaining pot < q then DeExhausted d q (ds_remaining pot)
      else DeBelowFloor d class (policy_floor_units policy class (ds_opening pot)) (ds_remaining pot) q)"

section \<open>Lemmas on one dimension\<close>

lemma set_DIMENSION_ALL [simp]: "set DIMENSION_ALL = UNIV"
proof -
  have "d \<in> set DIMENSION_ALL" for d by (cases d) (simp_all add: DIMENSION_ALL_def)
  then show ?thesis by blast
qed

lemma distinct_DIMENSION_ALL: "distinct DIMENSION_ALL"
  by (simp add: DIMENSION_ALL_def)

lemma ds_conserved_iff: "ds_conserved s \<longleftrightarrow> ds_sum s = unat (ds_opening s)"
  unfolding ds_conserved_def ds_sum_def
  by (intro bind_checked_add) (rule checked_add_eq)

lemma vl_conserved_iff: "vl_conserved l \<longleftrightarrow> (\<forall>d. ds_sum (vl_pots l d) = unat (ds_opening (vl_pots l d)))"
  by (simp add: vl_conserved_def list_all_iff ds_conserved_iff)

lemma vec_is_zero_iff: "vec_is_zero v \<longleftrightarrow> v = vec_zero"
  by (auto simp: vec_is_zero_def vec_zero_def list_all_iff)

lemma map_of_vec_iter: "map_of (vec_iter v) d = Some (v d)"
  by (simp add: vec_iter_def map_of_map_restrict)

lemma distinct_vec_iter: "distinct (map fst (vec_iter v))"
  by (simp add: vec_iter_def comp_def distinct_DIMENSION_ALL)

lemma distinct_vec_nonzero: "distinct (map fst (vec_nonzero v))"
  unfolding vec_nonzero_def by (rule distinct_map_filter) (rule distinct_vec_iter)

lemma vec_nonzero_iff: "(d, q) \<in> set (vec_nonzero v) \<longleftrightarrow> q = v d \<and> q \<noteq> 0"
  by (auto simp: vec_nonzero_def vec_iter_def word_gt_0)

lemma map_of_vec_nonzero: "map_of (vec_nonzero v) d = (if v d = 0 then None else Some (v d))"
proof (cases "v d = 0")
  case True
  then have "d \<notin> fst ` set (vec_nonzero v)" by (force simp: vec_nonzero_iff)
  with True show ?thesis by (simp add: map_of_eq_None_iff)
next
  case False
  then have "(d, v d) \<in> set (vec_nonzero v)" by (simp add: vec_nonzero_iff)
  with False distinct_vec_nonzero show ?thesis by (simp add: map_of_is_SomeI)
qed

lemma reserve_pot_0 [simp]: "reserve_pot 0 pot = pot"
  by (simp add: reserve_pot_def)

lemma release_pot_0 [simp]: "release_pot 0 pot = pot"
  by (simp add: release_pot_def)

lemma release_reserve_pot [simp]: "release_pot q (reserve_pot q pot) = pot"
  by (simp add: reserve_pot_def release_pot_def)

lemma fits_guard:
  "fits policy class pot q \<longleftrightarrow>
     \<not> ds_remaining pot < q \<and> \<not> ds_remaining pot - q < policy_floor_units policy class (ds_opening pot)"
  by (auto simp: fits_def word_less_nat_alt unat_sub word_le_nat_alt not_less)

lemma reserve_pot_nat:
  assumes "ds_sum pot = unat (ds_opening pot)" and "unat q \<le> unat (ds_remaining pot)"
  shows "unat (ds_reserved (reserve_pot q pot)) = unat (ds_reserved pot) + unat q"
    and "unat (ds_remaining (reserve_pot q pot)) = unat (ds_remaining pot) - unat q"
    and "ds_sum (reserve_pot q pot) = unat (ds_opening pot)"
    and "checked_add (ds_reserved pot) q = Some (ds_reserved pot + q)"
proof -
  have fit: "unat (ds_reserved pot) + unat q < 2 ^ LENGTH(64)"
    using assms u64_less [of "ds_opening pot"] by (simp add: ds_sum_def)
  then show res: "unat (ds_reserved (reserve_pot q pot)) = unat (ds_reserved pot) + unat q"
    by (simp add: reserve_pot_def unat_word_ariths)
  show rem: "unat (ds_remaining (reserve_pot q pot)) = unat (ds_remaining pot) - unat q"
    using assms(2) by (simp add: reserve_pot_def unat_sub word_le_nat_alt)
  show "ds_sum (reserve_pot q pot) = unat (ds_opening pot)"
    using assms res rem by (simp add: ds_sum_def) (simp add: reserve_pot_def)
  show "checked_add (ds_reserved pot) q = Some (ds_reserved pot + q)"
    using fit by (simp add: checked_add_def)
qed

lemma release_pot_nat:
  assumes "ds_sum pot = unat (ds_opening pot)" and "unat q \<le> unat (ds_reserved pot)"
  shows "unat (ds_reserved (release_pot q pot)) = unat (ds_reserved pot) - unat q"
    and "unat (ds_remaining (release_pot q pot)) = unat (ds_remaining pot) + unat q"
    and "ds_sum (release_pot q pot) = unat (ds_opening pot)"
    and "checked_add (ds_remaining pot) q = Some (ds_remaining pot + q)"
    and "checked_sub (ds_reserved pot) q = Some (ds_reserved pot - q)"
proof -
  have fit: "unat (ds_remaining pot) + unat q < 2 ^ LENGTH(64)"
    using assms u64_less [of "ds_opening pot"] by (simp add: ds_sum_def)
  then show rem: "unat (ds_remaining (release_pot q pot)) = unat (ds_remaining pot) + unat q"
    by (simp add: release_pot_def unat_word_ariths)
  show res: "unat (ds_reserved (release_pot q pot)) = unat (ds_reserved pot) - unat q"
    using assms(2) by (simp add: release_pot_def unat_sub word_le_nat_alt)
  show "ds_sum (release_pot q pot) = unat (ds_opening pot)"
    using assms res rem by (simp add: ds_sum_def) (simp add: release_pot_def)
  show "checked_add (ds_remaining pot) q = Some (ds_remaining pot + q)"
    using fit by (simp add: checked_add_def)
  show "checked_sub (ds_reserved pot) q = Some (ds_reserved pot - q)"
    using assms(2) by (simp add: checked_sub_def word_le_nat_alt)
qed

section \<open>The loops, pointwise\<close>

definition conserving :: "pots \<Rightarrow> bool" where
  "conserving p \<longleftrightarrow> (\<forall>d. ds_sum (p d) = unat (ds_opening (p d)))"

lemma conserving_upd: "conserving p \<Longrightarrow> ds_sum pot = unat (ds_opening pot) \<Longrightarrow> conserving (p(d := pot))"
  by (simp add: conserving_def)

lemma map_of_pot_upd:
  fixes f :: "dimension \<Rightarrow> u64 \<Rightarrow> dimension_state \<Rightarrow> dimension_state"
  assumes "d \<notin> fst ` set rs"
  shows "(\<lambda>e. case map_of rs e of None \<Rightarrow> (p(d := f d q (p d))) e | Some u \<Rightarrow> f e u ((p(d := f d q (p d))) e)) =
     (\<lambda>e. case map_of ((d, q) # rs) e of None \<Rightarrow> p e | Some u \<Rightarrow> f e u (p e))"
proof
  have none: "map_of rs d = None" using assms by (simp add: map_of_eq_None_iff)
  show "(case map_of rs e of None \<Rightarrow> (p(d := f d q (p d))) e | Some u \<Rightarrow> f e u ((p(d := f d q (p d))) e)) =
     (case map_of ((d, q) # rs) e of None \<Rightarrow> p e | Some u \<Rightarrow> f e u (p e))" for e
    by (cases "e = d") (simp_all add: none split: option.split)
qed

text \<open>One iteration of \<open>reserve\<close>: the internal checks pass, so only a shortfall refuses.\<close>

lemma reserve_loop_step:
  assumes "conserving next"
  shows "reserve_loop policy class next ((d, q) # rest) =
     (if fits policy class (next d) q then reserve_loop policy class (next(d := reserve_pot q (next d))) rest
      else Inl (shortfall policy class d (next d) q))"
proof (cases "ds_remaining (next d) < q")
  case True
  then show ?thesis by (simp add: fits_guard shortfall_def Let_def)
next
  case False
  then have le: "unat q \<le> unat (ds_remaining (next d))" by (simp add: word_less_nat_alt)
  from assms have sum: "ds_sum (next d) = unat (ds_opening (next d))" by (simp add: conserving_def)
  note nat = reserve_pot_nat [OF sum le]
  have "ds_conserved (reserve_pot q (next d))"
    using nat(3) by (simp add: ds_conserved_iff reserve_pot_def)
  with False nat(4) show ?thesis
    by (simp add: fits_guard shortfall_def Let_def dim_add_def dim_check_def reserve_pot_def)
qed

lemma reserve_loop_Ok:
  assumes "conserving next" and "distinct (map fst rs)"
  shows "reserve_loop policy class next rs = Inr next' \<longleftrightarrow>
     (\<forall>(d, q) \<in> set rs. fits policy class (next d) q) \<and>
     next' = (\<lambda>d. case map_of rs d of None \<Rightarrow> next d | Some q \<Rightarrow> reserve_pot q (next d))"
  using assms
proof (induction rs arbitrary: "next")
  case (Cons r rs)
  obtain d q where r: "r = (d, q)" by (cases r)
  show ?case
  proof (cases "fits policy class (next d) q")
    case False
    with r Cons.prems(1) show ?thesis by (auto simp: reserve_loop_step simp del: reserve_loop.simps)
  next
    case True
    let ?next = "next(d := reserve_pot q (next d))"
    from Cons.prems(1) True have cons: "conserving ?next"
      using reserve_pot_nat(3) [of "next d" q]
      by (intro conserving_upd) (auto simp: conserving_def fits_def reserve_pot_def)
    have dist: "distinct (map fst rs)" using Cons.prems(2) by simp
    have same: "(\<forall>(e, p) \<in> set rs. fits policy class (?next e) p) \<longleftrightarrow>
        (\<forall>(e, p) \<in> set rs. fits policy class (next e) p)"
      using Cons.prems(2) r by (intro ball_cong) force+
    have ptw: "(\<lambda>e. case map_of rs e of None \<Rightarrow> ?next e | Some p \<Rightarrow> reserve_pot p (?next e)) =
        (\<lambda>e. case map_of (r # rs) e of None \<Rightarrow> next e | Some p \<Rightarrow> reserve_pot p (next e))"
      unfolding r using Cons.prems(2) r by (intro map_of_pot_upd [where f = "\<lambda>_. reserve_pot"]) simp
    have step: "reserve_loop policy class next (r # rs) = reserve_loop policy class ?next rs"
      unfolding r reserve_loop_step [OF Cons.prems(1)] by (simp only: True if_True)
    show ?thesis
      unfolding step Cons.IH [OF cons dist] same ptw by (simp add: r True)
  qed
qed auto

lemma reserve_loop_Err:
  assumes "conserving next" and "distinct (map fst rs)" and "reserve_loop policy class next rs = Inl e"
  shows "\<exists>pre d q post. rs = pre @ (d, q) # post \<and> (\<forall>(d', q') \<in> set pre. fits policy class (next d') q') \<and>
     \<not> fits policy class (next d) q \<and> e = shortfall policy class d (next d) q"
  using assms
proof (induction rs arbitrary: "next")
  case (Cons r rs)
  obtain d q where r: "r = (d, q)" by (cases r)
  show ?case
  proof (cases "fits policy class (next d) q")
    case False
    with r Cons.prems(1,3) have "r # rs = [] @ (d, q) # rs \<and> e = shortfall policy class d (next d) q"
      by (simp add: reserve_loop_step del: reserve_loop.simps)
    with False show ?thesis by (metis empty_iff empty_set)
  next
    case True
    let ?next = "next(d := reserve_pot q (next d))"
    from Cons.prems(1) True have "conserving ?next"
      using reserve_pot_nat(3) [of "next d" q]
      by (intro conserving_upd) (auto simp: conserving_def fits_def reserve_pot_def)
    moreover have "reserve_loop policy class ?next rs = Inl e"
      using Cons.prems(3) unfolding r reserve_loop_step [OF Cons.prems(1)] by (simp only: True if_True)
    moreover have "distinct (map fst rs)" using Cons.prems(2) by simp
    ultimately obtain pre d' q' post where
      IH: "rs = pre @ (d', q') # post" "\<forall>(d', q') \<in> set pre. fits policy class (?next d') q'"
        "\<not> fits policy class (?next d') q'" "e = shortfall policy class d' (?next d') q'"
      using Cons.IH [of ?next] by blast
    have notin: "d \<notin> fst ` set rs" using Cons.prems(2) r by simp
    then have "d' \<noteq> d" using IH(1) by auto
    moreover have "fits policy class (next d'') q''" if "(d'', q'') \<in> set pre" for d'' q''
    proof -
      have "d'' \<noteq> d" using that notin IH(1) by force
      moreover from IH(2) that have "fits policy class (?next d'') q''" by blast
      ultimately show ?thesis by simp
    qed
    ultimately have "r # rs = (r # pre) @ (d', q') # post \<and>
        (\<forall>(d', q') \<in> set (r # pre). fits policy class (next d') q') \<and>
        \<not> fits policy class (next d') q' \<and> e = shortfall policy class d' (next d') q'"
      using IH True r by auto
    then show ?thesis by blast
  qed
qed simp

lemma release_loop_Ok:
  assumes "conserving next" and "distinct (map fst rs)"
    and "\<forall>(d, q) \<in> set rs. unat q \<le> unat (ds_reserved (next d))"
  shows "release_loop next rs = Inr (\<lambda>d. case map_of rs d of None \<Rightarrow> next d | Some q \<Rightarrow> release_pot q (next d))"
  using assms
proof (induction rs arbitrary: "next")
  case (Cons r rs)
  obtain d q where r: "r = (d, q)" by (cases r)
  let ?next = "next(d := release_pot q (next d))"
  have "ds_sum (next d) = unat (ds_opening (next d))" and "unat q \<le> unat (ds_reserved (next d))"
    using Cons.prems r by (auto simp: conserving_def)
  note nat = release_pot_nat [OF this]
  have "ds_conserved (release_pot q (next d))"
    using nat(3) by (simp add: ds_conserved_iff release_pot_def)
  then have step: "release_loop next (r # rs) = release_loop ?next rs"
    using nat(4,5) r by (simp add: dim_add_def dim_sub_def dim_check_def release_pot_def Let_def)
  have cons: "conserving ?next"
    using Cons.prems(1) nat(3) by (intro conserving_upd) (simp_all add: release_pot_def)
  have dist: "distinct (map fst rs)" using Cons.prems(2) by simp
  have covered: "\<forall>(e, p) \<in> set rs. unat p \<le> unat (ds_reserved (?next e))"
  proof safe
    fix e p assume "(e, p) \<in> set rs"
    then have "e \<noteq> d" using Cons.prems(2) r by force
    with \<open>(e, p) \<in> set rs\<close> Cons.prems(3) show "unat p \<le> unat (ds_reserved (?next e))" by auto
  qed
  have ptw: "(\<lambda>e. case map_of rs e of None \<Rightarrow> ?next e | Some p \<Rightarrow> release_pot p (?next e)) =
      (\<lambda>e. case map_of (r # rs) e of None \<Rightarrow> next e | Some p \<Rightarrow> release_pot p (next e))"
    unfolding r using Cons.prems(2) r by (intro map_of_pot_upd [where f = "\<lambda>_. release_pot"]) simp
  show ?case
    unfolding step Cons.IH [OF cons dist covered] ptw ..
qed simp

lemma settle_pot_nat:
  assumes "ds_sum pot = unat (ds_opening pot)" and "unat f \<le> unat (ds_reserved pot)"
  shows "unat (ds_reserved (settle_pot u f pot)) = unat (ds_reserved pot) - unat f"
    and "unat (ds_remaining pot) \<le> unat (ds_remaining (settle_pot u f pot))"
    and "ds_sum (settle_pot u f pot) = unat (ds_opening pot)"
    and "ds_opening (settle_pot u f pot) = ds_opening pot"
    and "checked_sub (ds_reserved pot) f = Some (ds_reserved pot - f)"
    and "checked_add (ds_settled pot) (min a f) = Some (ds_settled pot + min a f)"
    and "checked_add (ds_remaining pot) (f - min a f) = Some (ds_remaining pot + (f - min a f))"
    and "checked_add (ds_retained pot) f = Some (ds_retained pot + f)"
proof -
  have fit: "unat (ds_settled pot) + unat f < 2 ^ LENGTH(64)" "unat (ds_remaining pot) + unat f < 2 ^ LENGTH(64)"
    "unat (ds_retained pot) + unat f < 2 ^ LENGTH(64)"
    using assms u64_less [of "ds_opening pot"] by (simp_all add: ds_sum_def)
  have res: "unat (ds_reserved pot - f) = unat (ds_reserved pot) - unat f"
    using assms(2) by (simp add: unat_sub word_le_nat_alt)
  have settled: "unat (ds_settled pot + min a f) = unat (ds_settled pot) + min (unat a) (unat f)" for a
    using fit(1) by (simp add: unat_word_ariths unat_min_word)
  have remaining: "unat (ds_remaining pot + (f - min a f)) = unat (ds_remaining pot) + (unat f - unat a)" for a
    using fit(2) by (simp add: unat_word_ariths unat_sub_min')
  have retained: "unat (ds_retained pot + f) = unat (ds_retained pot) + unat f"
    using fit(3) by (simp add: unat_word_ariths)
  show "unat (ds_reserved (settle_pot u f pot)) = unat (ds_reserved pot) - unat f"
    using res by (cases u) (simp_all add: settle_pot_def)
  show "unat (ds_remaining pot) \<le> unat (ds_remaining (settle_pot u f pot))"
    by (cases u) (simp_all add: settle_pot_def remaining)
  show "ds_sum (settle_pot u f pot) = unat (ds_opening pot)"
    using assms by (cases u) (simp_all add: settle_pot_def ds_sum_def res settled remaining retained)
  show "ds_opening (settle_pot u f pot) = ds_opening pot"
    by (cases u) (simp_all add: settle_pot_def)
  show "checked_sub (ds_reserved pot) f = Some (ds_reserved pot - f)"
    using assms(2) by (simp add: checked_sub_def word_le_nat_alt)
  show "checked_add (ds_settled pot) (min a f) = Some (ds_settled pot + min a f)"
    using fit(1) by (simp add: checked_add_def unat_min_word)
  show "checked_add (ds_remaining pot) (f - min a f) = Some (ds_remaining pot + (f - min a f))"
    using fit(2) by (simp add: checked_add_def unat_sub_min')
  show "checked_add (ds_retained pot) f = Some (ds_retained pot + f)"
    using fit(3) by (simp add: checked_add_def)
qed

text \<open>
  What settling one dimension promises, on the natural numbers: an observed spend is charged against the forecast and
  its excess is overrun; an unobserved forecast is retained, and an unobserved dimension without one is an event.
\<close>

definition settles :: "usage \<Rightarrow> u64 \<Rightarrow> dimension_state \<Rightarrow> dimension_state \<Rightarrow> bool" where
  "settles observed f pot pot' \<longleftrightarrow>
     ds_opening pot' = ds_opening pot \<and> unat (ds_reserved pot') + unat f = unat (ds_reserved pot) \<and>
     (case observed of
        UsKnown a \<Rightarrow>
          unat (ds_settled pot') = unat (ds_settled pot) + min (unat a) (unat f) \<and>
          unat (ds_remaining pot') = unat (ds_remaining pot) + (unat f - unat a) \<and>
          unat (ds_overrun pot') = unat (ds_overrun pot) + (unat a - unat f) \<and>
          ds_retained pot' = ds_retained pot \<and> ds_unknown_events pot' = ds_unknown_events pot
      | UsUnknown \<Rightarrow>
          unat (ds_retained pot') = unat (ds_retained pot) + unat f \<and>
          unat (ds_unknown_events pot') = unat (ds_unknown_events pot) + (if f = 0 then 1 else 0) \<and>
          ds_settled pot' = ds_settled pot \<and> ds_remaining pot' = ds_remaining pot \<and> ds_overrun pot' = ds_overrun pot)"

lemma settle_pot_settles:
  assumes "ds_sum pot = unat (ds_opening pot)" and "unat f \<le> unat (ds_reserved pot)" and "\<not> liability_full u f pot"
  shows "settles u f pot (settle_pot u f pot)"
proof (cases u)
  case (UsKnown a)
  have over: "unat (ds_overrun pot + (a - min a f)) = unat (ds_overrun pot) + (unat a - unat f)"
    using assms(3) UsKnown by (simp add: liability_full_def unat_word_ariths unat_sub_min)
  from settle_pot_nat(1,4) [OF assms(1,2), of u] settle_pot_nat(6,7) [OF assms(1,2), of a] assms(2) over show ?thesis
    by (simp add: settles_def UsKnown checked_add_Some_iff settle_pot_def unat_sub_min' unat_min_word)
next
  case UsUnknown
  from settle_pot_nat(1,4) [OF assms(1,2), of u] settle_pot_nat(8) [OF assms(1,2)] assms(2,3) show ?thesis
    by (auto simp: settles_def UsUnknown checked_add_Some_iff settle_pot_def liability_full_def unat_word_ariths)
qed

lemma min_word_cases:
  fixes a f :: u64
  shows "f < a \<Longrightarrow> min a f = f" and "\<not> f < a \<Longrightarrow> min a f = a"
  by (auto simp: min_def)

text \<open>One iteration of \<open>settle\<close>.\<close>

lemma settle_loop_step:
  assumes "conserving next" and "unat f \<le> unat (ds_reserved (next d))"
  shows "settle_loop usage next errors ((d, f) # rest) =
     (if liability_full (usage d) f (next d) then Inl (DeArithmeticOverflow d)
      else settle_loop usage (next(d := settle_pot (usage d) f (next d)))
             (errors @ settle_rows d (usage d) f) rest)"
proof -
  from assms(1) have "ds_sum (next d) = unat (ds_opening (next d))" by (simp add: conserving_def)
  note nat = settle_pot_nat [OF this assms(2)]
  have ok: "ds_conserved (settle_pot u f (next d))" for u
    using nat(3,4) by (simp add: ds_conserved_iff)
  show ?thesis
  proof (cases "usage d")
    case UsUnknown
    with ok [of UsUnknown] nat(5,8) show ?thesis
      by (auto simp: settle_outcome_def liability_full_def settle_rows_def settle_pot_def dim_add_def
          dim_sub_def dim_check_def checked_add_def Let_def)
  next
    case (UsKnown a)
    show ?thesis
    proof (cases "f = 0")
      case True
      have "a - min a 0 = a" by (simp add: min_def)
      with True UsKnown ok [of "UsKnown a"] nat(5) u64_less [of "ds_overrun (next d)"] show ?thesis
        by (auto simp: settle_outcome_def liability_full_def settle_rows_def settle_pot_def dim_add_def
            dim_sub_def dim_check_def checked_add_def checked_sub_def Let_def)
    next
      case False
      have over: "checked_add (ds_overrun (next d)) (a - min a f) =
          (if liability_full (UsKnown a) f (next d) then None else Some (ds_overrun (next d) + (a - min a f)))"
        by (auto simp: checked_add_def liability_full_def unat_sub_min)
      show ?thesis
        using False UsKnown ok [of "UsKnown a"] nat(5) nat(6,7) [of a] over
        by (auto simp: settle_outcome_def settle_rows_def settle_pot_def dim_add_def dim_sub_def
            dim_check_def Let_def min_word_cases word_gt_0)
    qed
  qed
qed

lemma settle_loop_cases:
  assumes "conserving next" and "distinct (map fst rs)"
    and "\<forall>(d, f) \<in> set rs. unat f \<le> unat (ds_reserved (next d))"
  shows "(\<exists>(d, f) \<in> set rs. liability_full (usage d) f (next d) \<and>
            settle_loop usage next errors rs = Inl (DeArithmeticOverflow d)) \<or>
         (\<forall>(d, f) \<in> set rs. \<not> liability_full (usage d) f (next d)) \<and>
         settle_loop usage next errors rs =
           Inr (\<lambda>d. case map_of rs d of None \<Rightarrow> next d | Some f \<Rightarrow> settle_pot (usage d) f (next d),
                errors @ concat (map (\<lambda>(d, f). settle_rows d (usage d) f) rs))"
  using assms
proof (induction rs arbitrary: "next" errors)
  case (Cons r rs)
  obtain d f where r: "r = (d, f)" by (cases r)
  have le: "unat f \<le> unat (ds_reserved (next d))" using Cons.prems(3) r by simp
  note step = settle_loop_step [OF Cons.prems(1) le, of usage errors rs]
  show ?case
  proof (cases "liability_full (usage d) f (next d)")
    case True
    then have "settle_loop usage next errors (r # rs) = Inl (DeArithmeticOverflow d)"
      unfolding r step by (simp only: if_True)
    with True r show ?thesis by (intro disjI1 bexI [of _ r]) auto
  next
    case False
    let ?next = "next(d := settle_pot (usage d) f (next d))"
    let ?errors = "errors @ settle_rows d (usage d) f"
    have notin: "d \<notin> fst ` set rs" and dist: "distinct (map fst rs)" using Cons.prems(2) r by simp_all
    have other: "?next e = next e" if "(e, g) \<in> set rs" for e g
      using that notin by force
    have "ds_sum (next d) = unat (ds_opening (next d))" using Cons.prems(1) by (simp add: conserving_def)
    then have cons: "conserving ?next"
      using Cons.prems(1) settle_pot_nat(3,4) [OF _ le] by (intro conserving_upd) simp_all
    have covered: "\<forall>(e, g) \<in> set rs. unat g \<le> unat (ds_reserved (?next e))"
      using Cons.prems(3) other by fastforce
    have same: "liability_full (usage e) g (?next e) \<longleftrightarrow> liability_full (usage e) g (next e)"
      if "(e, g) \<in> set rs" for e g
      using other [OF that] by (simp only:)
    have ptw: "(\<lambda>e. case map_of rs e of None \<Rightarrow> ?next e | Some g \<Rightarrow> settle_pot (usage e) g (?next e)) =
        (\<lambda>e. case map_of (r # rs) e of None \<Rightarrow> next e | Some g \<Rightarrow> settle_pot (usage e) g (next e))"
      unfolding r by (rule map_of_pot_upd [where f = "\<lambda>e. settle_pot (usage e)", OF notin])
    have step': "settle_loop usage next errors (r # rs) = settle_loop usage ?next ?errors rs"
      unfolding r step by (simp only: False if_False)
    from Cons.IH [OF cons dist covered, of ?errors] consider
        (full) e g where "(e, g) \<in> set rs" and "liability_full (usage e) g (?next e)"
          and "settle_loop usage ?next ?errors rs = Inl (DeArithmeticOverflow e)"
      | (fine) "\<forall>(e, g) \<in> set rs. \<not> liability_full (usage e) g (?next e)"
          and "settle_loop usage ?next ?errors rs = Inr (\<lambda>e. case map_of (r # rs) e of None \<Rightarrow> next e
               | Some g \<Rightarrow> settle_pot (usage e) g (next e),
             ?errors @ concat (map (\<lambda>(d, f). settle_rows d (usage d) f) rs))"
      unfolding ptw by blast
    then show ?thesis
    proof cases
      case full
      then have "liability_full (usage e) g (next e)" using same by blast
      with full(1,3) step' show ?thesis
        by (intro disjI1 bexI [of _ "(e, g)"]) (simp_all only: prod.case list.set insert_iff simp_thms)
    next
      case fine
      have "\<forall>(e, g) \<in> set (r # rs). \<not> liability_full (usage e) g (next e)"
        using fine(1) same False r by fastforce
      moreover have "settle_loop usage next errors (r # rs) = Inr (\<lambda>e. case map_of (r # rs) e of None \<Rightarrow> next e
             | Some g \<Rightarrow> settle_pot (usage e) g (next e),
           errors @ concat (map (\<lambda>(d, f). settle_rows d (usage d) f) (r # rs)))"
        unfolding step' fine(2) by (simp add: r)
      ultimately show ?thesis by blast
    qed
  qed
qed simp

section \<open>The operations of the ledger\<close>

lemma vl_inv_conserving: "vl_inv l \<Longrightarrow> conserving (vl_pots l)"
  by (simp add: vl_inv_def conserving_def)

lemma open_forecast_le:
  assumes "vl_inv l" and "bt_get (vl_open l) rid = Some row"
  shows "unat (vr_forecast row d) \<le> unat (ds_reserved (vl_pots l d))"
  using assms bt_sum_remove [OF assms(2), of "\<lambda>row. unat (vr_forecast row d)"] by (simp add: vl_inv_def)

lemma map_of_iter_fun: "(\<lambda>d. case map_of (vec_iter v) d of None \<Rightarrow> p d | Some q \<Rightarrow> f d q (p d)) = (\<lambda>d. f d (v d) (p d))"
  by (simp add: map_of_vec_iter)

lemma map_of_nonzero_fun:
  assumes "\<And>pot. f 0 pot = pot"
  shows "(\<lambda>d. case map_of (vec_nonzero v) d of None \<Rightarrow> p d | Some q \<Rightarrow> f q (p d)) = (\<lambda>d. f (v d) (p d))"
  by (auto simp: map_of_vec_nonzero assms)

text \<open>Every way \<open>reserve\<close> can end.\<close>

definition reserve_fits :: "vector_ledger \<Rightarrow> reserve_class \<Rightarrow> reservation_vector \<Rightarrow> bool" where
  "reserve_fits l class forecast \<longleftrightarrow>
     (\<forall>d. forecast d \<noteq> 0 \<longrightarrow> fits (vl_policy l) class (vl_pots l d) (forecast d))"

definition reserve_row :: "vector_ledger \<Rightarrow> string \<Rightarrow> reserve_class \<Rightarrow> reservation_vector \<Rightarrow> vector_reservation" where
  "reserve_row l rid class forecast =
     \<lparr>vr_id = rid, vr_class = class, vr_policy = sn_subject (vl_policy l), vr_forecast = forecast\<rparr>"

definition reserve_state :: "vector_ledger \<Rightarrow> string \<Rightarrow> reserve_class \<Rightarrow> reservation_vector \<Rightarrow> vector_ledger" where
  "reserve_state l rid class forecast =
     l\<lparr>vl_pots := (\<lambda>d. reserve_pot (forecast d) (vl_pots l d)), vl_issued := insert rid (vl_issued l),
       vl_open := bt_insert rid (reserve_row l rid class forecast) (vl_open l)\<rparr>"

lemma vl_reserve_Ok_iff:
  assumes "vl_inv l"
  shows "vl_reserve rid class forecast policy l = (Inr row, l') \<longleftrightarrow>
     policy = Some (vl_policy l) \<and> rid \<noteq> [] \<and> forecast \<noteq> vec_zero \<and> rid \<notin> vl_issued l \<and>
     reserve_fits l class forecast \<and>
     row = reserve_row l rid class forecast \<and> l' = reserve_state l rid class forecast"
proof -
  have loop: "reserve_loop (vl_policy l) class (vl_pots l) (vec_nonzero forecast) = Inr next \<longleftrightarrow>
      reserve_fits l class forecast \<and> next = (\<lambda>d. reserve_pot (forecast d) (vl_pots l d))" for "next"
    unfolding reserve_loop_Ok [OF vl_inv_conserving [OF assms] distinct_vec_nonzero]
      map_of_nonzero_fun [where f = reserve_pot, OF reserve_pot_0]
    by (auto simp: reserve_fits_def vec_nonzero_iff)
  show ?thesis
  proof (cases "require_exact (vl_policy l) policy")
    case (Inl e)
    then have "policy \<noteq> Some (vl_policy l)" by (metis require_exact_iff sum.distinct(1))
    with Inl show ?thesis by (simp add: vl_reserve_def)
  next
    case (Inr u)
    then have policy: "policy = Some (vl_policy l)" by simp
    show ?thesis
    proof (cases "reserve_loop (vl_policy l) class (vl_pots l) (vec_nonzero forecast)")
      case (Inl e)
      then have "\<not> reserve_fits l class forecast" using loop by (metis sum.distinct(1))
      with Inl policy Inr show ?thesis by (auto simp: vl_reserve_def)
    next
      case (Inr p)
      then have "reserve_fits l class forecast" and "p = (\<lambda>d. reserve_pot (forecast d) (vl_pots l d))"
        using loop by blast+
      with Inr policy show ?thesis
        by (auto simp: vl_reserve_def vec_is_zero_iff reserve_row_def reserve_state_def Let_def)
    qed
  qed
qed

lemma vl_reserve_refused: "vl_reserve rid class forecast policy l = (Inl e, l') \<Longrightarrow> l' = l"
  by (auto simp: vl_reserve_def Let_def split: sum.splits if_splits)

lemma vl_settle_refused: "vl_settle rid usage policy l = (Inl e, l') \<Longrightarrow> l' = l"
  by (auto simp: vl_settle_def split: sum.splits option.splits)

lemma vl_release_refused: "vl_release rid l = (Inl e, l') \<Longrightarrow> l' = l"
  by (auto simp: vl_release_def split: sum.splits option.splits)

text \<open>An open reservation can always be released, and the pots it leaves are known.\<close>

definition release_state :: "vector_ledger \<Rightarrow> string \<Rightarrow> vector_reservation \<Rightarrow> vector_ledger" where
  "release_state l rid row =
     l\<lparr>vl_pots := (\<lambda>d. release_pot (vr_forecast row d) (vl_pots l d)), vl_open := bt_remove rid (vl_open l)\<rparr>"

lemma vl_release_open:
  assumes "vl_inv l" and "bt_get (vl_open l) rid = Some row"
  shows "vl_release rid l = (Inr (vr_forecast row), release_state l rid row)"
proof -
  have "\<forall>(d, q) \<in> set (vec_nonzero (vr_forecast row)). unat q \<le> unat (ds_reserved (vl_pots l d))"
    using open_forecast_le [OF assms] by (auto simp: vec_nonzero_iff)
  then have "release_loop (vl_pots l) (vec_nonzero (vr_forecast row)) =
      Inr (\<lambda>d. release_pot (vr_forecast row d) (vl_pots l d))"
    using release_loop_Ok [OF vl_inv_conserving [OF assms(1)] distinct_vec_nonzero]
    by (simp only: map_of_nonzero_fun [where f = release_pot, OF release_pot_0])
  then show ?thesis by (simp add: vl_release_def assms(2) release_state_def)
qed

text \<open>An open reservation settles unless a liability counter is full.\<close>

definition settle_state :: "vector_ledger \<Rightarrow> string \<Rightarrow> usage_vector \<Rightarrow> vector_reservation \<Rightarrow> vector_ledger" where
  "settle_state l rid usage row =
     l\<lparr>vl_pots := (\<lambda>d. settle_pot (usage d) (vr_forecast row d) (vl_pots l d)),
       vl_open := bt_remove rid (vl_open l)\<rparr>"

definition settle_result :: "usage_vector \<Rightarrow> vector_reservation \<Rightarrow> settlement_record" where
  "settle_result usage row =
     \<lparr>sr_id = vr_id row, sr_class = vr_class row, sr_policy = vr_policy row,
      sr_forecast = vr_forecast row, sr_usage = usage,
      sr_errors = concat (map (\<lambda>d. settle_rows d (usage d) (vr_forecast row d)) DIMENSION_ALL)\<rparr>"

text \<open>The rows of the record, one for each dimension that was forecast, used or unobserved.\<close>

lemma settle_rows_dimensions:
  "map fe_dimension (sr_errors (settle_result usage row)) =
     filter (\<lambda>d. vr_forecast row d \<noteq> 0 \<or> usage d \<noteq> UsKnown 0) DIMENSION_ALL"
proof -
  have "map fe_dimension (concat (map (\<lambda>d. settle_rows d (usage d) (vr_forecast row d)) ds)) =
      filter (\<lambda>d. vr_forecast row d \<noteq> 0 \<or> usage d \<noteq> UsKnown 0) ds" for ds
    by (induction ds) (auto simp: settle_rows_def split: usage.splits)
  then show ?thesis by (simp add: settle_result_def)
qed

lemma settle_rows_liability:
  "list_all (\<lambda>e. is_liability (fe_outcome e) =
     (case usage (fe_dimension e) of UsKnown a \<Rightarrow> vr_forecast row (fe_dimension e) < a | UsUnknown \<Rightarrow> True))
     (sr_errors (settle_result usage row))"
  by (auto simp: settle_result_def settle_rows_def list_all_iff word_neq_0_conv split: usage.splits if_splits)

lemma vl_settle_open:
  assumes "vl_inv l" and "bt_get (vl_open l) rid = Some row"
  shows "(\<exists>d. liability_full (usage d) (vr_forecast row d) (vl_pots l d) \<and>
            vl_settle rid usage (Some (vl_policy l)) l = (Inl (DeArithmeticOverflow d), l)) \<or>
         (\<forall>d. \<not> liability_full (usage d) (vr_forecast row d) (vl_pots l d)) \<and>
         vl_settle rid usage (Some (vl_policy l)) l = (Inr (settle_result usage row), settle_state l rid usage row)"
proof -
  have covered: "\<forall>(d, q) \<in> set (vec_iter (vr_forecast row)). unat q \<le> unat (ds_reserved (vl_pots l d))"
    using open_forecast_le [OF assms] by (auto simp: vec_iter_def)
  have rows: "concat (map (\<lambda>(d, f). settle_rows d (usage d) f) (vec_iter v)) =
      concat (map (\<lambda>d. settle_rows d (usage d) (v d)) DIMENSION_ALL)" for v
    by (simp add: vec_iter_def comp_def)
  have all: "(\<forall>(d, f) \<in> set (vec_iter v). \<not> liability_full (usage d) f (vl_pots l d)) \<longleftrightarrow>
      (\<forall>d. \<not> liability_full (usage d) (v d) (vl_pots l d))" for v
    by (auto simp: vec_iter_def)
  from settle_loop_cases [OF vl_inv_conserving [OF assms(1)] distinct_vec_iter covered, of usage "[]"]
  show ?thesis
    unfolding all map_of_iter_fun [where f = "\<lambda>d. settle_pot (usage d)"] rows append_Nil
  proof (elim disjE bexE conjE)
    fix x assume "x \<in> set (vec_iter (vr_forecast row))"
      and "case x of (d, f) \<Rightarrow> liability_full (usage d) f (vl_pots l d) \<and>
        settle_loop usage (vl_pots l) [] (vec_iter (vr_forecast row)) = Inl (DeArithmeticOverflow d)"
    then show ?thesis
      by (intro disjI1) (auto simp: vec_iter_def vl_settle_def assms(2))
  next
    assume "\<forall>d. \<not> liability_full (usage d) (vr_forecast row d) (vl_pots l d)"
      and "settle_loop usage (vl_pots l) [] (vec_iter (vr_forecast row)) =
        Inr (\<lambda>d. settle_pot (usage d) (vr_forecast row d) (vl_pots l d),
             concat (map (\<lambda>d. settle_rows d (usage d) (vr_forecast row d)) DIMENSION_ALL))"
    then show ?thesis
      by (intro disjI2) (simp add: vl_settle_def assms(2) settle_result_def settle_state_def)
  qed
qed

section \<open>The invariant\<close>

lemma vl_new_inv: "vl_inv (vl_new opn unknown policy)"
  by (simp add: vl_inv_def vl_new_def ds_sum_def)

lemma reserve_state_inv:
  assumes "vl_inv l" and "rid \<notin> vl_issued l" and "reserve_fits l class forecast"
  shows "vl_inv (reserve_state l rid class forecast)"
proof -
  have fresh: "bt_get (vl_open l) rid = None"
    using assms(1,2) by (cases "bt_get (vl_open l) rid") (auto simp: vl_inv_def)
  have le: "unat (forecast d) \<le> unat (ds_remaining (vl_pots l d))" for d
    using assms(3) by (cases "forecast d = 0") (auto simp: reserve_fits_def fits_def dest: add_leD1)
  have sum: "ds_sum (vl_pots l d) = unat (ds_opening (vl_pots l d))" for d
    using assms(1) by (simp add: vl_inv_def)
  note nat = reserve_pot_nat [OF sum le]
  have "bt_sum (\<lambda>row. unat (vr_forecast row d)) (bt_insert rid (reserve_row l rid class forecast) (vl_open l)) =
      unat (forecast d) + bt_sum (\<lambda>row. unat (vr_forecast row d)) (vl_open l)" for d
    by (simp add: bt_sum_insert_fresh [OF fresh] reserve_row_def)
  moreover have "ds_opening (reserve_pot q pot) = ds_opening pot" for q pot
    by (simp add: reserve_pot_def)
  ultimately show ?thesis
    using assms(1) nat(1,3) by (auto simp: vl_inv_def reserve_state_def reserve_row_def)
qed

text \<open>Releasing gives every dimension its forecast back, once, and undoes a reservation just made.\<close>

lemma release_gives_back:
  assumes inv: "vl_inv l" and row: "bt_get (vl_open l) rid = Some row"
  shows "\<exists>l'. vl_release rid l = (Inr (vr_forecast row), l') \<and> vl_release rid l' = (Inl DeNotFound, l') \<and>
    bt_get (vl_open l') = (bt_get (vl_open l))(rid := None) \<and> vl_issued l' = vl_issued l \<and> vl_policy l' = vl_policy l \<and>
    (\<forall>d. unat (ds_remaining (vl_pots l' d)) = unat (ds_remaining (vl_pots l d)) + unat (vr_forecast row d) \<and>
      unat (ds_reserved (vl_pots l' d)) + unat (vr_forecast row d) = unat (ds_reserved (vl_pots l d)) \<and>
      vl_pots l' d = (vl_pots l d)\<lparr>ds_remaining := ds_remaining (vl_pots l' d), ds_reserved := ds_reserved (vl_pots l' d)\<rparr>)"
proof (intro exI [of _ "release_state l rid row"] conjI allI)
  show "vl_release rid l = (Inr (vr_forecast row), release_state l rid row)" by (rule vl_release_open [OF inv row])
  fix d
  have "ds_sum (vl_pots l d) = unat (ds_opening (vl_pots l d))" using inv by (simp add: vl_inv_def)
  note pot = release_pot_nat(1,2) [OF this open_forecast_le [OF inv row]]
  show "unat (ds_remaining (vl_pots (release_state l rid row) d)) = unat (ds_remaining (vl_pots l d)) + unat (vr_forecast row d)"
    "unat (ds_reserved (vl_pots (release_state l rid row) d)) + unat (vr_forecast row d) = unat (ds_reserved (vl_pots l d))"
    using pot open_forecast_le [OF inv row, of d] by (simp_all add: release_state_def)
qed (simp_all add: release_state_def vl_release_def release_pot_def fun_eq_iff)

lemma release_undoes_reserve:
  assumes inv: "vl_inv l" and run: "vl_reserve rid cls forecast supplied l = (Inr row, l')"
  shows "vl_release rid l' = (Inr forecast, l\<lparr>vl_issued := insert rid (vl_issued l)\<rparr>)"
proof -
  from run have facts: "rid \<notin> vl_issued l" "reserve_fits l cls forecast"
      and l': "l' = reserve_state l rid cls forecast"
    by (simp_all add: vl_reserve_Ok_iff [OF inv])
  have row: "bt_get (vl_open l') rid = Some (reserve_row l rid cls forecast)"
    by (simp add: l' reserve_state_def)
  have fresh: "bt_get (vl_open l) rid = None"
    using inv facts(1) by (cases "bt_get (vl_open l) rid") (auto simp: vl_inv_def)
  then have "bt_remove rid (bt_insert rid (reserve_row l rid cls forecast) (vl_open l)) = vl_open l"
    by (intro bt_ext) auto
  then show ?thesis
    using vl_release_open [OF reserve_state_inv [OF inv facts] row [unfolded l']]
    by (simp add: l' release_state_def) (simp add: reserve_state_def reserve_row_def)
qed

lemma close_inv:
  assumes "vl_inv l" and "bt_get (vl_open l) rid = Some row"
    and "\<And>d. ds_sum (p d) = unat (ds_opening (p d))"
    and "\<And>d. unat (ds_reserved (p d)) = unat (ds_reserved (vl_pots l d)) - unat (vr_forecast row d)"
  shows "vl_inv (l\<lparr>vl_pots := p, vl_open := bt_remove rid (vl_open l)\<rparr>)"
  using assms bt_sum_remove [OF assms(2)] by (auto simp: vl_inv_def)

lemma release_state_inv:
  assumes "vl_inv l" and "bt_get (vl_open l) rid = Some row"
  shows "vl_inv (release_state l rid row)"
proof -
  have sum: "ds_sum (vl_pots l d) = unat (ds_opening (vl_pots l d))" for d
    using assms(1) by (simp add: vl_inv_def)
  note nat = release_pot_nat [OF sum open_forecast_le [OF assms]]
  have "ds_opening (release_pot q pot) = ds_opening pot" for q pot
    by (simp add: release_pot_def)
  then show ?thesis
    unfolding release_state_def by (intro close_inv [OF assms]) (simp_all add: nat(1,3))
qed

lemma settle_state_inv:
  assumes "vl_inv l" and "bt_get (vl_open l) rid = Some row"
  shows "vl_inv (settle_state l rid usage row)"
proof -
  have sum: "ds_sum (vl_pots l d) = unat (ds_opening (vl_pots l d))" for d
    using assms(1) by (simp add: vl_inv_def)
  note nat = settle_pot_nat [OF sum open_forecast_le [OF assms]]
  show ?thesis
    unfolding settle_state_def by (intro close_inv [OF assms]) (simp_all add: nat(1,3,4))
qed

text \<open>Every step either refuses and changes nothing, or is one of the three state changes.\<close>

lemma vl_step_cases:
  assumes "vl_inv l"
  obtains (refused) "vl_step op l = l"
    | (reserved) rid cls forecast policy where "op = VoReserve rid cls forecast policy"
        and "rid \<notin> vl_issued l" and "reserve_fits l cls forecast"
        and "vl_step op l = reserve_state l rid cls forecast"
    | (settled) rid usage row where "bt_get (vl_open l) rid = Some row"
        and "vl_step op l = settle_state l rid usage row"
    | (released) rid row where "bt_get (vl_open l) rid = Some row"
        and "vl_step op l = release_state l rid row"
proof (cases op)
  case (VoReserve rid cls forecast policy)
  obtain r l' where res: "vl_reserve rid cls forecast policy l = (r, l')" by fastforce
  show thesis
  proof (cases r)
    case (Inl e)
    with res have "vl_step op l = l" by (simp add: VoReserve vl_reserve_refused)
    then show thesis by (rule refused)
  next
    case (Inr row)
    with res have "rid \<notin> vl_issued l \<and> reserve_fits l cls forecast \<and> l' = reserve_state l rid cls forecast"
      using vl_reserve_Ok_iff [OF assms] by blast
    with res VoReserve show thesis by (intro reserved [of rid cls forecast policy]) simp_all
  qed
next
  case (VoSettle rid usage policy)
  show thesis
  proof (cases "policy = Some (vl_policy l) \<and> bt_get (vl_open l) rid \<noteq> None")
    case True
    then obtain row where row: "bt_get (vl_open l) rid = Some row" by auto
    from vl_settle_open [OF assms row, of usage] True VoSettle have
      "vl_step op l = l \<or> vl_step op l = settle_state l rid usage row" by auto
    with refused settled row show thesis by blast
  next
    case False
    then have "\<exists>e. vl_settle rid usage policy l = (Inl e, l)"
      by (cases "require_exact (vl_policy l) policy") (auto simp: vl_settle_def)
    with VoSettle refused show thesis by auto
  qed
next
  case (VoRelease rid)
  show thesis
  proof (cases "bt_get (vl_open l) rid")
    case None
    with VoRelease refused show thesis by (simp add: vl_release_def)
  next
    case (Some row)
    with VoRelease released vl_release_open [OF assms Some] show thesis by simp
  qed
qed

lemma vl_step_inv:
  assumes "vl_inv l"
  shows "vl_inv (vl_step op l)"
  using assms by (rule vl_step_cases [of l op])
    (auto simp: assms simp del: vl_step.simps
      intro: reserve_state_inv settle_state_inv release_state_inv)

interpretation vector_system: invariant_system vl_step vl_inv
  by unfold_locales (rule vl_step_inv)

section \<open>Floors\<close>

definition policy_monotone :: "policy_snapshot \<Rightarrow> bool" where
  "policy_monotone p \<longleftrightarrow> (\<forall>c d. outranks c d \<longrightarrow> sn_floors p c < sn_floors p d)"

lemma policy_try_new_monotone:
  assumes "policy_try_new provenance generation rules = Inr p"
  shows "policy_monotone p"
proof -
  from assms have "admitted_rules rules" and "sn_floors p = floors_of rules"
    by (simp_all add: policy_try_new_iff)
  then show ?thesis
    using floors_of_sorted_iff [of rules]
    by (simp add: policy_monotone_def admitted_rules_def LADDER_sorted_iff)
qed

lemma policy_floor_mono:
  assumes "policy_monotone p" and "c \<le> d"
  shows "policy_floor_units p c u \<le> policy_floor_units p d u"
proof (cases "c = d")
  case False
  with assms(2) have "outranks c d"
    using class_rank_inject [of c d]
    by (metis le_neq_implies_less less_eq_reserve_class_def outranks_def)
  with assms(1) show ?thesis
    by (simp add: policy_monotone_def policy_floor_units_def floor_percent_def floor_units_mono less_imp_le)
qed simp

lemma fits_mono:
  assumes "policy_monotone p" and "c \<le> d" and "fits p d pot q"
  shows "fits p c pot q"
  using assms(3) policy_floor_mono [OF assms(1,2), of "ds_opening pot"]
  by (simp add: fits_def word_le_nat_alt)

text \<open>The capacity above the floor of a class is untouched.\<close>

definition reserve_held :: "reserve_class \<Rightarrow> vector_ledger \<Rightarrow> bool" where
  "reserve_held c l \<longleftrightarrow>
     (\<forall>d. policy_floor_units (vl_policy l) c (ds_opening (vl_pots l d)) \<le> ds_remaining (vl_pots l d))"

definition only_classes_from :: "reserve_class \<Rightarrow> vector_op \<Rightarrow> bool" where
  "only_classes_from c op = (case op of VoReserve _ d _ _ \<Rightarrow> c \<le> d | _ \<Rightarrow> True)"

lemma vl_new_held: "reserve_held c (vl_new opn unknown policy)"
  by (simp add: reserve_held_def vl_new_def policy_floor_units_def word_le_nat_alt floor_units_le)

lemma reserve_state_held:
  assumes "vl_inv l" and "policy_monotone (vl_policy l)" and "reserve_held c l"
    and "c \<le> cls" and "reserve_fits l cls forecast"
  shows "reserve_held c (reserve_state l rid cls forecast)"
  unfolding reserve_held_def
proof
  fix d
  let ?pot = "vl_pots l d"
  have "policy_floor_units (vl_policy l) c (ds_opening ?pot) \<le> ds_remaining (reserve_pot (forecast d) ?pot)"
  proof (cases "forecast d = 0")
    case True
    with assms(3) show ?thesis by (simp add: reserve_held_def)
  next
    case False
    with assms(5) have "fits (vl_policy l) cls ?pot (forecast d)" by (simp add: reserve_fits_def)
    then have fit: "fits (vl_policy l) c ?pot (forecast d)" by (rule fits_mono [OF assms(2,4)])
    then have le: "unat (forecast d) \<le> unat (ds_remaining ?pot)" by (simp add: fits_def)
    have "ds_sum ?pot = unat (ds_opening ?pot)" using assms(1) by (simp add: vl_inv_def)
    from reserve_pot_nat(2) [OF this le] fit show ?thesis by (simp add: fits_def word_le_nat_alt)
  qed
  then show "policy_floor_units (vl_policy (reserve_state l rid cls forecast)) c
      (ds_opening (vl_pots (reserve_state l rid cls forecast) d)) \<le> ds_remaining (vl_pots (reserve_state l rid cls forecast) d)"
    by (simp add: reserve_state_def) (simp add: reserve_pot_def)
qed

lemma close_held:
  assumes "reserve_held c l" and "\<And>d. ds_opening (p d) = ds_opening (vl_pots l d)"
    and "\<And>d. unat (ds_remaining (vl_pots l d)) \<le> unat (ds_remaining (p d))"
  shows "reserve_held c (l\<lparr>vl_pots := p, vl_open := m\<rparr>)"
  using assms by (auto simp: reserve_held_def word_le_nat_alt intro: le_trans)

lemma vl_step_held:
  assumes "vl_inv l" and "policy_monotone (vl_policy l)" and "reserve_held c l" and "only_classes_from c op"
  shows "reserve_held c (vl_step op l)"
  using assms(1)
proof (cases rule: vl_step_cases [of l op])
  case refused
  with assms(3) show ?thesis by (simp only:)
next
  case (reserved rid cls forecast policy)
  with assms(4) have "c \<le> cls" by (simp add: only_classes_from_def)
  with reserved reserve_state_held [OF assms(1-3)] show ?thesis by (simp only:)
next
  case (settled rid usage row)
  have sum: "ds_sum (vl_pots l d) = unat (ds_opening (vl_pots l d))" for d
    using assms(1) by (simp add: vl_inv_def)
  note nat = settle_pot_nat [OF sum open_forecast_le [OF assms(1) settled(1)]]
  show ?thesis
    unfolding settled(2) settle_state_def by (rule close_held [OF assms(3)]) (rule nat(4,2))+
next
  case (released rid row)
  have sum: "ds_sum (vl_pots l d) = unat (ds_opening (vl_pots l d))" for d
    using assms(1) by (simp add: vl_inv_def)
  note nat = release_pot_nat [OF sum open_forecast_le [OF assms(1) released(1)]]
  show ?thesis
    unfolding released(2) release_state_def
    by (rule close_held [OF assms(3)]) (simp_all add: nat(2) del: release_pot_0, simp add: release_pot_def)
qed

lemma vl_step_policy: "vl_inv l \<Longrightarrow> vl_policy (vl_step op l) = vl_policy l"
  by (erule vl_step_cases [of l op])
    (simp_all add: reserve_state_def settle_state_def release_state_def del: vl_step.simps)

lemma vl_run_held:
  assumes "vl_inv l" and "policy_monotone (vl_policy l)" and "reserve_held c l"
    and "\<forall>op \<in> set ops. only_classes_from c op"
  shows "reserve_held c (fold vl_step ops l)"
  using assms
proof (induction ops arbitrary: l)
  case (Cons op ops)
  show ?case
    using Cons.prems Cons.IH [of "vl_step op l"] vl_step_inv [of l op] vl_step_held [of l c op]
      vl_step_policy [of l op]
    by (simp del: vl_step.simps)
qed simp

end
