(* ===== verification/Nonce_Ledger.thy ===== *)
theory Nonce_Ledger
  imports Kernel_Prelude
begin

text \<open>
  The durable nonce port and its in-process implementation of
  \<^verbatim>\<open>crates/application/src/nonce_ledger.rs\<close>. The port is the locale \<open>nonce_store\<close>, whose laws every
  implementation promises; from them alone follows that a nonce is consumed at most once in any run
  of operations. The in-process ledger is shown to be such a store.
\<close>

section \<open>Model\<close>

record issued_nonce =
  in_key :: string
  in_digest :: string

datatype nonce_state = NsIssued | NsConsumed

datatype nonce_error =
    NeInvalid string | NeAlreadyIssued string | NeNotFound string | NeConsumed string
  | NeSubjectMismatch string | NeCorrupt string | NeStoreFailure string

fun nonce_reason_code :: "nonce_error \<Rightarrow> string" where
  "nonce_reason_code (NeInvalid _) = ''NONCE_INVALID''"
| "nonce_reason_code (NeAlreadyIssued _) = ''NONCE_ALREADY_ISSUED''"
| "nonce_reason_code (NeNotFound _) = ''NONCE_NOT_FOUND''"
| "nonce_reason_code (NeConsumed _) = ''NONCE_CONSUMED''"
| "nonce_reason_code (NeSubjectMismatch _) = ''NONCE_SUBJECT_MISMATCH''"
| "nonce_reason_code (NeCorrupt _) = ''NONCE_CORRUPT''"
| "nonce_reason_code (NeStoreFailure _) = ''NONCE_STORE_FAILURE''"

definition nonce_validate_hex_64 :: "string \<Rightarrow> string \<Rightarrow> nonce_error + unit" where
  "nonce_validate_hex_64 value name =
     (if length value = 64 \<and> list_all is_lower_hex value then Ok ()
      else Err (NeInvalid (name @ '' must contain 64 lowercase hexadecimal characters'')))"

definition issued_nonce_validated :: "string \<Rightarrow> string \<Rightarrow> nonce_error + issued_nonce" where
  "issued_nonce_validated key digest =
     res_bind (nonce_validate_hex_64 key ''nonce key'') (\<lambda>_.
     res_bind (nonce_validate_hex_64 digest ''nonce digest'') (\<lambda>_.
       Ok \<lparr>in_key = key, in_digest = digest\<rparr>))"

definition nonce_validate_key :: "string \<Rightarrow> nonce_error + unit" where
  "nonce_validate_key key = nonce_validate_hex_64 key ''nonce key''"

type_synonym nonce_rows = "(string, issued_nonce \<times> nonce_state) btree_map"

definition nonce_new :: nonce_rows where
  "nonce_new = bt_empty"

definition nonce_issue :: "string \<Rightarrow> string \<Rightarrow> (nonce_rows, nonce_error, issued_nonce) mut_op" where
  "nonce_issue key digest rows =
     (case issued_nonce_validated key digest of
        Inl e \<Rightarrow> (Err e, rows)
      | Inr issued \<Rightarrow>
          (case bt_get rows key of
             Some (existing, state) \<Rightarrow>
               if state = NsConsumed then (Err (NeConsumed key), rows)
               else if in_digest existing = digest then (Err (NeAlreadyIssued key), rows)
               else (Err (NeSubjectMismatch key), rows)
           | None \<Rightarrow> (Ok issued, bt_insert key (issued, NsIssued) rows)))"

definition nonce_consume :: "string \<Rightarrow> string \<Rightarrow> (nonce_rows, nonce_error, unit) mut_op" where
  "nonce_consume key digest rows =
     (case issued_nonce_validated key digest of
        Inl e \<Rightarrow> (Err e, rows)
      | Inr requested \<Rightarrow>
          (case bt_get rows key of
             None \<Rightarrow> (Err (NeNotFound key), rows)
           | Some (issued, state) \<Rightarrow>
               if state = NsConsumed then (Err (NeConsumed key), rows)
               else if in_digest issued \<noteq> in_digest requested then (Err (NeSubjectMismatch key), rows)
               else (Ok (), bt_insert key (issued, NsConsumed) rows)))"

definition nonce_lookup :: "nonce_rows \<Rightarrow> string \<Rightarrow> nonce_error + nonce_state option" where
  "nonce_lookup rows key =
     res_bind (nonce_validate_key key) (\<lambda>_. Ok (map_option snd (bt_get rows key)))"

section \<open>The port\<close>

text \<open>
  What a nonce store promises. \<open>seen\<close> is the row of a key: the digest it was issued for and its
  state. A refusal changes nothing, issuing needs a fresh key, consuming needs an issued row with
  the same digest, and no other key is touched.
\<close>

datatype nonce_op = NoIssue string string | NoConsume string string

locale nonce_store =
  fixes issue :: "string \<Rightarrow> string \<Rightarrow> ('s, 'e, 'n) mut_op"
    and consume :: "string \<Rightarrow> string \<Rightarrow> ('s, 'e, unit) mut_op"
    and seen :: "'s \<Rightarrow> string \<Rightarrow> (string \<times> nonce_state) option"
  assumes issue_refused: "issue k d s = (Inl e, s') \<Longrightarrow> s' = s"
    and issue_ok: "issue k d s = (Inr n, s') \<Longrightarrow>
      seen s k = None \<and> seen s' = (seen s)(k \<mapsto> (d, NsIssued))"
    and consume_refused: "consume k d s = (Inl e, s') \<Longrightarrow> s' = s"
    and consume_ok: "consume k d s = (Inr u, s') \<Longrightarrow>
      seen s k = Some (d, NsIssued) \<and> seen s' = (seen s)(k \<mapsto> (d, NsConsumed))"
begin

fun store_step :: "nonce_op \<Rightarrow> 's \<Rightarrow> 's" where
  "store_step (NoIssue k d) s = snd (issue k d s)"
| "store_step (NoConsume k d) s = snd (consume k d s)"

text \<open>The consumptions of a key that succeed in a run.\<close>

fun consumptions :: "string \<Rightarrow> nonce_op list \<Rightarrow> 's \<Rightarrow> nat" where
  "consumptions k [] s = 0"
| "consumptions k (op # ops) s =
     (case op of NoConsume j d \<Rightarrow> if j = k \<and> is_ok (fst (consume j d s)) then 1 else 0 | _ \<Rightarrow> 0)
     + consumptions k ops (store_step op s)"

lemma issue_cases:
  obtains "seen (snd (issue k d s)) = seen s"
    | "seen s k = None" and "seen (snd (issue k d s)) = (seen s)(k \<mapsto> (d, NsIssued))"
proof (cases "issue k d s")
  case (Pair r s')
  with that issue_refused [of k d s] issue_ok [of k d s] show thesis by (cases r) auto
qed

lemma consume_cases:
  obtains "\<not> is_ok (fst (consume k d s))" and "seen (snd (consume k d s)) = seen s"
    | "is_ok (fst (consume k d s))" and "seen s k = Some (d, NsIssued)"
      and "seen (snd (consume k d s)) = (seen s)(k \<mapsto> (d, NsConsumed))"
proof (cases "consume k d s")
  case (Pair r s')
  show thesis
  proof (cases r)
    case (Inl e)
    with Pair have "s' = s" by (simp add: consume_refused)
    with Pair Inl that(1) show thesis by simp
  next
    case (Inr u)
    with Pair have "seen s k = Some (d, NsIssued) \<and> seen s' = (seen s)(k \<mapsto> (d, NsConsumed))"
      by (intro consume_ok) simp
    with Pair Inr that(2) show thesis by simp
  qed
qed

lemma step_consumed: "seen s k = Some (d, NsConsumed) \<Longrightarrow> seen (store_step op s) k = Some (d, NsConsumed)"
proof (cases op)
  case (NoIssue j c)
  assume "seen s k = Some (d, NsConsumed)"
  then show ?thesis using NoIssue by (cases rule: issue_cases [of j c s]) auto
next
  case (NoConsume j c)
  assume "seen s k = Some (d, NsConsumed)"
  then show ?thesis using NoConsume by (cases rule: consume_cases [of j c s]) auto
qed

lemma step_digest: "seen s k = Some (d, st) \<Longrightarrow> \<exists>st'. seen (store_step op s) k = Some (d, st')"
proof (cases op)
  case (NoIssue j c)
  assume "seen s k = Some (d, st)"
  then show ?thesis using NoIssue by (cases rule: issue_cases [of j c s]) auto
next
  case (NoConsume j c)
  assume "seen s k = Some (d, st)"
  then show ?thesis using NoConsume by (cases rule: consume_cases [of j c s]) auto
qed

lemma run_digest: "seen s k = Some (d, st) \<Longrightarrow> \<exists>st'. seen (fold store_step ops s) k = Some (d, st')"
proof (induction ops arbitrary: s st)
  case (Cons op ops)
  from step_digest [OF Cons.prems] obtain st' where "seen (store_step op s) k = Some (d, st')" by blast
  from Cons.IH [OF this] show ?case by simp
qed simp

lemma consumed_no_more: "seen s k = Some (d, NsConsumed) \<Longrightarrow> consumptions k ops s = 0"
proof (induction ops arbitrary: s)
  case (Cons op ops)
  have "\<not> is_ok (fst (consume k c s))" for c
    using Cons.prems by (cases rule: consume_cases [of k c s]) auto
  with Cons.IH [OF step_consumed [OF Cons.prems]] show ?case by (auto split: nonce_op.split)
qed simp

lemma consumed_at_most_once: "consumptions k ops s \<le> 1"
proof (induction ops arbitrary: s)
  case (Cons op ops)
  show ?case
  proof (cases op)
    case (NoIssue j c)
    with Cons.IH [of "store_step op s"] show ?thesis by simp
  next
    case (NoConsume j c)
    show ?thesis
    proof (cases "j = k \<and> is_ok (fst (consume j c s))")
      case True
      then have "seen (snd (consume k c s)) k = Some (c, NsConsumed)"
        by (cases rule: consume_cases [of k c s]) auto
      with consumed_no_more True NoConsume show ?thesis by auto
    next
      case False
      with NoConsume Cons.IH [of "store_step op s"] show ?thesis by auto
    qed
  qed
qed simp

end

section \<open>The in-process ledger is a nonce store\<close>

definition nonce_seen :: "nonce_rows \<Rightarrow> string \<Rightarrow> (string \<times> nonce_state) option" where
  "nonce_seen rows key = map_option (\<lambda>(n, st). (in_digest n, st)) (bt_get rows key)"

lemma issued_nonce_validated_iff:
  "issued_nonce_validated k d = Inr n \<longleftrightarrow> is_hex_64 k \<and> is_hex_64 d \<and> n = \<lparr>in_key = k, in_digest = d\<rparr>"
  by (auto simp: issued_nonce_validated_def nonce_validate_hex_64_def is_hex_64_def)

lemma not_consumed_iff: "st \<noteq> NsConsumed \<longleftrightarrow> st = NsIssued"
  by (cases st) auto

interpretation memory_nonce: nonce_store nonce_issue nonce_consume nonce_seen
proof
  show "s' = s" if "nonce_issue k d s = (Inl e, s')" for k d s e s'
    using that by (auto simp: nonce_issue_def split: sum.splits option.splits if_splits)
  show "nonce_seen s k = None \<and> nonce_seen s' = (nonce_seen s)(k \<mapsto> (d, NsIssued))"
    if "nonce_issue k d s = (Inr n, s')" for k d s n s'
    using that by (auto simp: nonce_issue_def nonce_seen_def issued_nonce_validated_iff fun_eq_iff
        split: sum.splits option.splits if_splits)
  show "s' = s" if "nonce_consume k d s = (Inl e, s')" for k d s e s'
    using that by (auto simp: nonce_consume_def split: sum.splits option.splits if_splits)
  show "nonce_seen s k = Some (d, NsIssued) \<and> nonce_seen s' = (nonce_seen s)(k \<mapsto> (d, NsConsumed))"
    if "nonce_consume k d s = (Inr u, s')" for k d s u s'
    using that
    by (auto simp: nonce_consume_def nonce_seen_def issued_nonce_validated_iff not_consumed_iff fun_eq_iff
        split: sum.splits option.splits if_splits)
qed

end
