(* ===== verification/Coding_Tasks.thy ===== *)
theory Coding_Tasks
  imports Domain_Gates Nonce_Ledger
begin

text \<open>
  The closed payload shapes a command may carry: coding runs (\<^verbatim>\<open>run_coding.rs\<close>), coding tasks
  (\<^verbatim>\<open>coding_tasks.rs\<close> with its \<^verbatim>\<open>refusal.rs\<close> and \<^verbatim>\<open>validation.rs\<close>) and conversation messages
  (\<^verbatim>\<open>conversations.rs\<close> with its \<^verbatim>\<open>refusal.rs\<close>) of \<^verbatim>\<open>crates/application/src\<close>. The JSON codec is
  the record \<open>coding_ext\<close>: a decoder returns the printed serde error or the decoded struct; the
  untyped decoder returns the member names of the document, which is all the source reads of it.
\<close>

section \<open>Shapes\<close>

datatype coding_task_refusal =
    CrDeadlineExpired | CrDependencyNotAccepted | CrInvocationLimit | CrOperatorIngressRequired

fun coding_refusal_reason_code :: "coding_task_refusal \<Rightarrow> string" where
  "coding_refusal_reason_code CrDeadlineExpired = ''CODING_TASK_DEADLINE_EXPIRED''"
| "coding_refusal_reason_code CrDependencyNotAccepted = ''CODING_DEPENDENCY_NOT_ACCEPTED''"
| "coding_refusal_reason_code CrInvocationLimit = ''CODING_TASK_INVOCATION_LIMIT''"
| "coding_refusal_reason_code CrOperatorIngressRequired = ''CODING_OPERATOR_INGRESS_REQUIRED''"

datatype conversation_refusal =
    CvNotFound | CvCursorConflict | CvSequenceExhausted | CvOperatorIngressRequired

fun conversation_refusal_reason_code :: "conversation_refusal \<Rightarrow> string" where
  "conversation_refusal_reason_code CvNotFound = ''CONVERSATION_NOT_FOUND''"
| "conversation_refusal_reason_code CvCursorConflict = ''CONVERSATION_CURSOR_CONFLICT''"
| "conversation_refusal_reason_code CvSequenceExhausted = ''CONVERSATION_SEQUENCE_EXHAUSTED''"
| "conversation_refusal_reason_code CvOperatorIngressRequired = ''CONVERSATION_OPERATOR_INGRESS_REQUIRED''"

datatype coding_provider = PvClaude | PvCodex | PvCursor | PvAntigravity

fun coding_provider_as_str :: "coding_provider \<Rightarrow> string" where
  "coding_provider_as_str PvClaude = ''claude''"
| "coding_provider_as_str PvCodex = ''codex''"
| "coding_provider_as_str PvCursor = ''cursor''"
| "coding_provider_as_str PvAntigravity = ''antigravity''"

record run_coding_payload =
  rc_account_id :: string
  rc_provider :: coding_provider
  rc_model :: string
  rc_effort :: "string option"
  rc_expected_revision :: u64
  rc_launch_nonce :: string
  rc_quota_reservation :: string
  rc_quota_units :: u64
  rc_allocated_run :: string

record coding_task_budget =
  cb_max_invocations :: u32
  cb_max_cost_microusd :: u64

record coding_task_contract =
  ct_title :: string
  ct_objective :: string
  ct_repository_id :: string
  ct_base_commit :: string
  ct_scope_paths :: "string list"
  ct_acceptance_criteria :: "string list"
  ct_gate_ids :: "string list"
  ct_dependencies :: "string list"
  ct_budget :: coding_task_budget
  ct_deadline_unix_ms :: u64

record coding_runtime_selection =
  cs_account_id :: string
  cs_provider :: coding_provider
  cs_model :: string
  cs_effort :: "string option"

record run_coding_task_payload =
  tp_schema_version :: string
  tp_task :: coding_task_contract
  tp_selection :: coding_runtime_selection

datatype coding_submission = SubLegacy run_coding_payload | SubTask run_coding_task_payload

record conversation_cursor =
  cc_conversation_id :: string
  cc_message_id :: string
  cc_sequence :: u64

record conversation_message_payload =
  cm_schema_version :: string
  cm_cursor :: "conversation_cursor option"
  cm_content :: string

record coding_ext = hash_ext +
  x_json_members :: "string \<Rightarrow> string + string set"
  x_dec_run_coding :: "string \<Rightarrow> string + run_coding_payload"
  x_dec_coding_task :: "string \<Rightarrow> string + run_coding_task_payload"
  x_dec_conversation :: "string \<Rightarrow> string + conversation_message_payload"
  x_enc_task :: "coding_task_contract \<Rightarrow> string + string"
  x_enc_conversation :: "conversation_message_payload \<Rightarrow> string + string"

section \<open>Coding runs\<close>

definition RUN_CODING_KIND :: string where
  "RUN_CODING_KIND = ''run_coding''"

definition RUN_DEMO_KIND :: string where
  "RUN_DEMO_KIND = ''run_demo''"

definition MAX_CODING_QUOTA_UNITS :: u64 where
  "MAX_CODING_QUOTA_UNITS = 1000000"

definition is_supported_dispatch_kind :: "string \<Rightarrow> bool" where
  "is_supported_dispatch_kind kind = (kind = RUN_DEMO_KIND \<or> kind = RUN_CODING_KIND)"

definition validate_token :: "string \<Rightarrow> string \<Rightarrow> nat \<Rightarrow> domain_error + unit" where
  "validate_token field value maximum =
     (if value = [] \<or> maximum < length value \<or> has_control value then
        Err (Encoding (field @ '' must contain 1..='' @ show_nat maximum @ '' non-control bytes''))
      else if \<not> list_all (\<lambda>b. is_ascii_lowercase b \<or> is_ascii_digit b \<or> b \<in> set ''_-./'') value then
        Err (Encoding (field @ '' must be a lowercase ASCII token''))
      else Ok ())"

definition validate_hex_64 :: "string \<Rightarrow> string \<Rightarrow> domain_error + unit" where
  "validate_hex_64 field value =
     (if length value = 64 \<and> list_all is_lower_hex value then Ok ()
      else Err (Encoding (field @ '' must contain 64 lowercase hexadecimal characters'')))"

definition validate_reservation_id :: "string \<Rightarrow> domain_error + unit" where
  "validate_reservation_id value =
     (case strip_prefix ''rsv_'' value of
        None \<Rightarrow> Err (InvalidId value)
      | Some body \<Rightarrow> validate_hex_64 ''quota_reservation'' body)"

definition validate_effort :: "string option \<Rightarrow> domain_error + unit" where
  "validate_effort effort =
     (case effort of None \<Rightarrow> Ok () | Some e \<Rightarrow> validate_token ''effort'' e 32)"

definition run_coding_validate :: "run_coding_payload \<Rightarrow> domain_error + unit" where
  "run_coding_validate p =
     res_bind (validate_token ''account_id'' (rc_account_id p) 64) (\<lambda>_.
     res_bind (validate_token ''model'' (rc_model p) 128) (\<lambda>_.
     res_bind (validate_effort (rc_effort p)) (\<lambda>_.
     if rc_expected_revision p = 0 then
       Err (Encoding ''expected_revision must be a positive authority epoch'')
     else
       res_bind (validate_hex_64 ''launch_nonce'' (rc_launch_nonce p)) (\<lambda>_.
       res_bind (validate_reservation_id (rc_quota_reservation p)) (\<lambda>_.
       if rc_quota_units p = 0 \<or> MAX_CODING_QUOTA_UNITS < rc_quota_units p then
         Err (Encoding (''quota_units must be 1..='' @ show_u MAX_CODING_QUOTA_UNITS))
       else
         res_bind (typed_id_parse ''run'' (rc_allocated_run p)) (\<lambda>_. Ok ()))))))"

definition run_coding_parse ::
    "'x coding_ext_scheme \<Rightarrow> string \<Rightarrow> domain_error + run_coding_payload" where
  "run_coding_parse ex payload =
     res_bind (map_err (\<lambda>e. Encoding (''run_coding payload: '' @ e)) (x_dec_run_coding ex payload)) (\<lambda>v.
     res_bind (run_coding_validate v) (\<lambda>_. Ok v))"

section \<open>Coding tasks\<close>

definition RUN_CODING_TASK_SCHEMA :: string where
  "RUN_CODING_TASK_SCHEMA = ''bullet.run-coding.v2''"

definition MAX_CODING_SAFE_INTEGER :: u64 where
  "MAX_CODING_SAFE_INTEGER = 9007199254740991"

definition coding_encoding :: "string \<Rightarrow> domain_error" where
  "coding_encoding e = Encoding (''CODING_TASK_INVALID: '' @ e)"

definition validate_coding_subject :: "string \<Rightarrow> string \<Rightarrow> domain_error + unit" where
  "validate_coding_subject value prefix =
     (if (case strip_prefix prefix value of
            None \<Rightarrow> False
          | Some body \<Rightarrow> length body = 64 \<and> list_all is_lower_hex body)
      then Ok ()
      else Err (InvalidId (''expected a complete '' @ prefix @ '' subject'')))"

definition task_text :: "string \<Rightarrow> string \<Rightarrow> nat \<Rightarrow> bool \<Rightarrow> domain_error + unit" where
  "task_text field value maximum multiline =
     (if is_blank value \<or> maximum < length value
          \<or> has_control_except (\<lambda>c. multiline \<and> is_lf_or_tab c) value then
        Err (coding_encoding (field @ '' must contain 1..='' @ show_nat maximum @ '' admitted UTF-8 bytes''))
      else Ok ())"

definition task_strings :: "string \<Rightarrow> string list \<Rightarrow> nat \<Rightarrow> nat \<Rightarrow> domain_error + unit" where
  "task_strings field values minimum maximum =
     (if \<not> (minimum \<le> length values \<and> length values \<le> maximum) \<or> card (set values) \<noteq> length values then
        Err (coding_encoding (field @ '' must contain '' @ show_nat minimum @ ''..='' @ show_nat maximum
          @ '' unique entries''))
      else Ok ())"

text \<open>The \<open>for\<close> loops of the validation: the first refusal ends them.\<close>

fun for_each :: "('a \<Rightarrow> 'e + unit) \<Rightarrow> 'a list \<Rightarrow> 'e + unit" where
  "for_each f [] = Ok ()"
| "for_each f (x # xs) = res_bind (f x) (\<lambda>_. for_each f xs)"

definition task_scope_path :: "string \<Rightarrow> domain_error + unit" where
  "task_scope_path path =
     res_bind (task_text ''scope path'' path 512 False) (\<lambda>_.
     if (path \<noteq> [] \<and> hd path = CHR ''/'') \<or> char_of (92 :: nat) \<in> set path \<or>
        list_ex (\<lambda>part. part = [] \<or> part = ''.'' \<or> part = ''..'' \<or> eq_ignore_ascii_case part ''.git'')
          (split_on (CHR ''/'') path) then
       Err (coding_encoding ''scope paths must be normalized and repository-relative'')
     else Ok ())"

definition validate_task :: "coding_task_contract \<Rightarrow> domain_error + unit" where
  "validate_task t =
     res_bind (task_text ''title'' (ct_title t) 240 False) (\<lambda>_.
     res_bind (task_text ''objective'' (ct_objective t) 8192 True) (\<lambda>_.
     res_bind (typed_id_parse ''rep'' (ct_repository_id t)) (\<lambda>_.
     if \<not> (length (ct_base_commit t) = 40 \<or> length (ct_base_commit t) = 64)
        \<or> \<not> list_all is_lower_hex (ct_base_commit t) then
       Err (coding_encoding ''base_commit must be an exact lowercase Git object id'')
     else
     res_bind (task_strings ''scope_paths'' (ct_scope_paths t) 1 128) (\<lambda>_.
     res_bind (for_each task_scope_path (ct_scope_paths t)) (\<lambda>_.
     res_bind (task_strings ''acceptance_criteria'' (ct_acceptance_criteria t) 1 32) (\<lambda>_.
     res_bind (for_each (\<lambda>c. task_text ''acceptance criterion'' c 1024 True) (ct_acceptance_criteria t)) (\<lambda>_.
     res_bind (task_strings ''gate_ids'' (ct_gate_ids t) 1 16) (\<lambda>_.
     res_bind (for_each (\<lambda>g. res_bind (gate_id_parse g) (\<lambda>_. Ok ())) (ct_gate_ids t)) (\<lambda>_.
     res_bind (task_strings ''dependencies'' (ct_dependencies t) 0 64) (\<lambda>_.
     res_bind (for_each (\<lambda>d. validate_coding_subject d ''ctr_'') (ct_dependencies t)) (\<lambda>_.
     if \<not> (1 \<le> cb_max_invocations (ct_budget t) \<and> cb_max_invocations (ct_budget t) \<le> 16)
        \<or> \<not> (1 \<le> cb_max_cost_microusd (ct_budget t) \<and> cb_max_cost_microusd (ct_budget t) \<le> 1000000000)
        \<or> \<not> (1 \<le> ct_deadline_unix_ms t \<and> ct_deadline_unix_ms t \<le> MAX_CODING_SAFE_INTEGER) then
       Err (coding_encoding ''budget or deadline is outside the supported range'')
     else Ok ())))))))))))"

definition validate_task_payload :: "run_coding_task_payload \<Rightarrow> domain_error + unit" where
  "validate_task_payload p =
     (if tp_schema_version p \<noteq> RUN_CODING_TASK_SCHEMA then
        Err (coding_encoding ''unsupported task schema version'')
      else
        res_bind (validate_task (tp_task p)) (\<lambda>_.
        res_bind (validate_token ''account_id'' (cs_account_id (tp_selection p)) 64) (\<lambda>_.
        res_bind (validate_token ''model'' (cs_model (tp_selection p)) 128) (\<lambda>_.
          validate_effort (cs_effort (tp_selection p))))))"

definition coding_task_parse ::
    "'x coding_ext_scheme \<Rightarrow> string \<Rightarrow> domain_error + run_coding_task_payload" where
  "coding_task_parse ex payload =
     res_bind (map_err coding_encoding (x_dec_coding_task ex payload)) (\<lambda>v.
     res_bind (validate_task_payload v) (\<lambda>_. Ok v))"

definition coding_submission_parse ::
    "'x coding_ext_scheme \<Rightarrow> string \<Rightarrow> domain_error + coding_submission" where
  "coding_submission_parse ex payload =
     res_bind (map_err coding_encoding (x_json_members ex payload)) (\<lambda>members.
     if ''schema_version'' \<in> members then
       res_bind (coding_task_parse ex payload) (\<lambda>p. Ok (SubTask p))
     else
       res_bind (run_coding_parse ex payload) (\<lambda>p. Ok (SubLegacy p)))"

definition canonical_task_json ::
    "'x coding_ext_scheme \<Rightarrow> coding_task_contract \<Rightarrow> domain_error + string" where
  "canonical_task_json ex t =
     res_bind (validate_task t) (\<lambda>_. map_err coding_encoding (x_enc_task ex t))"

definition task_revision_id ::
    "'x coding_ext_scheme \<Rightarrow> coding_task_contract \<Rightarrow> string \<Rightarrow> domain_error + string" where
  "task_revision_id ex t operator =
     res_bind (validate_coding_subject operator ''opr_'') (\<lambda>_.
     res_bind (canonical_task_json ex t) (\<lambda>body.
     let seed = ''bullet.coding-task-revision.v1'' @ [char_of (0 :: nat)] @ operator @ [char_of (0 :: nat)] @ body in
     Ok (''ctr_'' @ to_hex ex (digest_of ex seed))))"

definition coding_run_id :: "'x coding_ext_scheme \<Rightarrow> string \<Rightarrow> string" where
  "coding_run_id ex command =
     (let seed = ''bullet.coding-run.v1'' @ [char_of (0 :: nat)] @ command in
      ''crn_'' @ to_hex ex (digest_of ex seed))"

section \<open>Conversation messages\<close>

definition CONVERSATION_MESSAGE_KIND :: string where
  "CONVERSATION_MESSAGE_KIND = ''conversation_message''"

definition CONVERSATION_MESSAGE_SCHEMA :: string where
  "CONVERSATION_MESSAGE_SCHEMA = ''bullet.conversation-message.v1''"

definition MAX_MESSAGE_BYTES :: nat where
  "MAX_MESSAGE_BYTES = 32768"

definition MAX_MESSAGE_SEQUENCE :: u64 where
  "MAX_MESSAGE_SEQUENCE = 9007199254740991"

definition conversation_invalid :: "string \<Rightarrow> domain_error" where
  "conversation_invalid e = Encoding (''CONVERSATION_MESSAGE_INVALID: '' @ e)"

definition validate_subject :: "string \<Rightarrow> string \<Rightarrow> domain_error + unit" where
  "validate_subject subject prefix = validate_coding_subject subject prefix"

definition cursor_validate :: "conversation_cursor \<Rightarrow> domain_error + unit" where
  "cursor_validate c =
     res_bind (validate_subject (cc_conversation_id c) ''cnv_'') (\<lambda>_.
     res_bind (validate_subject (cc_message_id c) ''msg_'') (\<lambda>_.
     if \<not> (1 \<le> cc_sequence c \<and> cc_sequence c \<le> MAX_MESSAGE_SEQUENCE) then
       Err (conversation_invalid ''cursor sequence is outside the supported range'')
     else Ok ()))"

definition validate_content :: "string \<Rightarrow> domain_error + unit" where
  "validate_content content =
     (if is_blank content \<or> MAX_MESSAGE_BYTES < length content \<or> has_control_except is_lf_or_tab content then
        Err (conversation_invalid ''content must contain 1..=32768 UTF-8 bytes with only LF/TAB controls'')
      else Ok ())"

definition conversation_validate :: "conversation_message_payload \<Rightarrow> domain_error + unit" where
  "conversation_validate p =
     (if cm_schema_version p \<noteq> CONVERSATION_MESSAGE_SCHEMA then
        Err (conversation_invalid ''unsupported conversation message schema'')
      else
        res_bind (validate_content (cm_content p)) (\<lambda>_.
          case cm_cursor p of None \<Rightarrow> Ok () | Some c \<Rightarrow> cursor_validate c))"

definition conversation_parse ::
    "'x coding_ext_scheme \<Rightarrow> string \<Rightarrow> domain_error + conversation_message_payload" where
  "conversation_parse ex payload =
     res_bind (map_err conversation_invalid (x_dec_conversation ex payload)) (\<lambda>v.
     res_bind (conversation_validate v) (\<lambda>_. Ok v))"

definition conversation_canonical_json ::
    "'x coding_ext_scheme \<Rightarrow> conversation_message_payload \<Rightarrow> domain_error + string" where
  "conversation_canonical_json ex p =
     res_bind (conversation_validate p) (\<lambda>_. map_err conversation_invalid (x_enc_conversation ex p))"

definition conversation_id :: "'x coding_ext_scheme \<Rightarrow> string \<Rightarrow> string \<Rightarrow> domain_error + string" where
  "conversation_id ex operator command =
     res_bind (validate_subject operator ''opr_'') (\<lambda>_.
     let seed = ''bullet.conversation.v1'' @ [char_of (0 :: nat)] @ operator @ [char_of (0 :: nat)] @ command in
     Ok (''cnv_'' @ to_hex ex (digest_of ex seed)))"

definition message_id :: "'x coding_ext_scheme \<Rightarrow> string \<Rightarrow> string" where
  "message_id ex command =
     (let seed = ''bullet.conversation-message.v1'' @ [char_of (0 :: nat)] @ command in
      ''msg_'' @ to_hex ex (digest_of ex seed))"

section \<open>Lemmas\<close>

lemma for_each_Ok_iff: "for_each f xs = Inr () \<longleftrightarrow> (\<forall>x \<in> set xs. f x = Inr ())"
  by (induction xs) (auto simp: res_bind_Ok_iff)

lemma validate_coding_subject_iff:
  "validate_coding_subject v prefix = Inr () \<longleftrightarrow> (\<exists>body. v = prefix @ body \<and> is_hex_64 body)"
  by (auto simp: validate_coding_subject_def is_hex_64_def strip_prefix_Some_iff strip_prefix_None_iff
      split: option.splits)

lemma split_on_nonempty [simp]: "split_on sep s \<noteq> []"
  by (cases s) (auto split: list.splits)

lemma split_on_parts: "part \<in> set (split_on sep s) \<Longrightarrow> sep \<notin> set part"
  by (induction s arbitrary: part) (auto split: if_splits list.splits)

lemma join_split_on: "join [sep] (split_on sep s) = s"
proof (induction s)
  case (Cons c s)
  obtain p ps where "split_on sep s = p # ps" by (cases "split_on sep s") (auto simp: split_on_nonempty)
  with Cons show ?case by (cases ps) auto
qed simp

text \<open>An admitted scope path stays inside the repository: it is relative and no part climbs or is hidden.\<close>

lemma task_scope_path_safe:
  assumes "task_scope_path path = Inr ()"
  shows "path = join ''/'' (split_on (CHR ''/'') path) \<and>
     (\<forall>part \<in> set (split_on (CHR ''/'') path). part \<notin> {[], ''.'', ''..''} \<and> \<not> eq_ignore_ascii_case part ''.git'')"
  using assms by (auto simp: task_scope_path_def join_split_on res_bind_Ok_iff list_ex_iff split: if_splits)

end
