(* ===== verification/Commands.thy ===== *)
theory Commands
  imports Coding_Tasks
begin

text \<open>
  Durable commands of \<^verbatim>\<open>crates/application/src/commands.rs\<close>, and what the coding and conversation
  modules derive from a command: the admission plan and replay check of \<^verbatim>\<open>run_coding.rs\<close>, the lease
  key of \<^verbatim>\<open>coding_tasks.rs\<close>, the receipts of \<^verbatim>\<open>conversations/records.rs\<close>. The codec of the fixed
  offline response is the field \<open>x_enc_offline\<close> of \<open>command_ext\<close>.
\<close>

section \<open>Requests and records\<close>

record command_request =
  cq_idempotency_key :: string
  cq_kind :: string
  cq_payload :: string

record command_record =
  cr_id :: string
  cr_idempotency_key :: string
  cr_kind :: string
  cr_payload :: string
  cr_payload_digest :: digest
  cr_phase :: command_phase
  cr_response :: "string option"

record offline_resolution =
  or_phase :: command_phase
  or_response :: string

text \<open>The JSON object of the offline response: id, digest, code, detail, repair.\<close>

record command_ext = coding_ext +
  x_enc_offline :: "string \<Rightarrow> string \<Rightarrow> string \<Rightarrow> string \<Rightarrow> string \<Rightarrow> string + string"

definition COMMAND_DIGEST_DOMAIN :: bytes where
  "COMMAND_DIGEST_DOMAIN = ''bullet-kernel.command-request.v1''"

definition MAX_COMMAND_KEY_BYTES :: nat where
  "MAX_COMMAND_KEY_BYTES = 256"

definition MAX_COMMAND_KIND_BYTES :: nat where
  "MAX_COMMAND_KIND_BYTES = 64"

definition MAX_COMMAND_JSON_BYTES :: nat where
  "MAX_COMMAND_JSON_BYTES = 1024 * 1024"

definition COMMAND_RECONCILED_EVENT :: string where
  "COMMAND_RECONCILED_EVENT = ''command_reconciled''"

definition command_digest :: "'x hash_ext_scheme \<Rightarrow> command_request \<Rightarrow> digest" where
  "command_digest ex q =
     digest_of ex (frame COMMAND_DIGEST_DOMAIN @ frame (cq_kind q) @ frame (cq_payload q))"

definition command_id :: "'x hash_ext_scheme \<Rightarrow> command_request \<Rightarrow> string" where
  "command_id ex q = typed_id_from_seed ex ''cmd'' (cq_idempotency_key q)"

definition validate_text :: "string \<Rightarrow> string \<Rightarrow> nat \<Rightarrow> bool \<Rightarrow> domain_error + unit" where
  "validate_text field value maximum token =
     (if value = [] \<or> maximum < length value \<or> has_control value then
        Err (Encoding (field @ '' must contain 1..='' @ show_nat maximum @ '' non-control bytes''))
      else if token \<and> \<not> list_all (\<lambda>b. is_ascii_lowercase b \<or> is_ascii_digit b \<or> b \<in> set ''_-'') value then
        Err (Encoding (field @ '' must be a lowercase ASCII token''))
      else Ok ())"

definition validate_json :: "'x coding_ext_scheme \<Rightarrow> string \<Rightarrow> string \<Rightarrow> domain_error + unit" where
  "validate_json ex field value =
     (if value = [] \<or> MAX_COMMAND_JSON_BYTES < length value then
        Err (Encoding (field @ '' must contain 1..='' @ show_nat MAX_COMMAND_JSON_BYTES @ '' bytes''))
      else
        res_bind (map_err (\<lambda>e. Encoding (field @ '': '' @ e)) (x_json_members ex value)) (\<lambda>_. Ok ()))"

definition command_validate :: "'x coding_ext_scheme \<Rightarrow> command_request \<Rightarrow> domain_error + unit" where
  "command_validate ex q =
     res_bind (validate_text ''idempotency key'' (cq_idempotency_key q) MAX_COMMAND_KEY_BYTES False) (\<lambda>_.
     res_bind (validate_text ''command kind'' (cq_kind q) MAX_COMMAND_KIND_BYTES True) (\<lambda>_.
     res_bind (validate_json ex ''command payload'' (cq_payload q)) (\<lambda>_.
     res_bind (if cq_kind q = RUN_CODING_KIND
               then res_bind (coding_submission_parse ex (cq_payload q)) (\<lambda>_. Ok ()) else Ok ()) (\<lambda>_.
     if cq_kind q = CONVERSATION_MESSAGE_KIND
     then res_bind (conversation_parse ex (cq_payload q)) (\<lambda>_. Ok ())
     else Ok ()))))"

definition command_from_json ::
    "'x coding_ext_scheme \<Rightarrow> string \<Rightarrow> string \<Rightarrow> string \<Rightarrow> domain_error + command_request" where
  "command_from_json ex key kind payload =
     (let q = \<lparr>cq_idempotency_key = key, cq_kind = kind, cq_payload = payload\<rparr> in
      res_bind (command_validate ex q) (\<lambda>_. Ok q))"

text \<open>\<open>CommandRequest::new\<close>; the payload's own encoder is an argument.\<close>

definition command_new ::
    "'x coding_ext_scheme \<Rightarrow> ('v \<Rightarrow> string + string) \<Rightarrow> string \<Rightarrow> string \<Rightarrow> 'v \<Rightarrow>
     domain_error + command_request" where
  "command_new ex to_string key kind v =
     res_bind (map_err Encoding (to_string v)) (\<lambda>payload. command_from_json ex key kind payload)"

definition record_request :: "command_record \<Rightarrow> command_request" where
  "record_request r =
     \<lparr>cq_idempotency_key = cr_idempotency_key r, cq_kind = cr_kind r, cq_payload = cr_payload r\<rparr>"

definition record_validate :: "'x coding_ext_scheme \<Rightarrow> command_record \<Rightarrow> domain_error + unit" where
  "record_validate ex r =
     (let q = record_request r in
      res_bind (command_validate ex q) (\<lambda>_.
      if cr_id r \<noteq> command_id ex q then
        Err (Encoding ''command id does not match its idempotency key'')
      else if cr_payload_digest r \<noteq> command_digest ex q then
        Err (Encoding ''command request digest does not match its kind and payload'')
      else
        (case (cr_phase r, cr_response r) of
           (CpPending, Some _) \<Rightarrow> Err (Encoding ''pending command has a stored result'')
         | (CpApplied, None) \<Rightarrow> Err (Encoding (command_phase_as_str (cr_phase r) @ '' command has no stored result''))
         | (CpVerified, None) \<Rightarrow> Err (Encoding (command_phase_as_str (cr_phase r) @ '' command has no stored result''))
         | (CpFailed, None) \<Rightarrow> Err (Encoding (command_phase_as_str (cr_phase r) @ '' command has no stored result''))
         | (_, Some response) \<Rightarrow> validate_json ex ''command result'' response
         | (_, None) \<Rightarrow> Ok ())))"

definition command_matches ::
    "'x coding_ext_scheme \<Rightarrow> command_request \<Rightarrow> command_record \<Rightarrow> domain_error + unit" where
  "command_matches ex q r =
     res_bind (command_validate ex q) (\<lambda>_.
     res_bind (record_validate ex r) (\<lambda>_.
     if cr_id r \<noteq> command_id ex q \<or> cr_idempotency_key r \<noteq> cq_idempotency_key q \<or> cr_kind r \<noteq> cq_kind q
        \<or> cr_payload r \<noteq> cq_payload q \<or> cr_payload_digest r \<noteq> command_digest ex q then
       Err (Idempotency (cq_idempotency_key q))
     else Ok ()))"

definition offline_worker_resolution ::
    "'x command_ext_scheme \<Rightarrow> command_request \<Rightarrow> domain_error + offline_resolution" where
  "offline_worker_resolution ex q =
     res_bind (command_validate ex q) (\<lambda>_.
     let (phase, code, detail, repair) =
       (if is_supported_dispatch_kind (cq_kind q) then
          (CpUnknown, ''EXECUTION_ADAPTER_UNAVAILABLE'',
           ''No admitted execution and read-back adapter is connected to this worker.'',
           ''Configure the authenticated runner, verifier, and effect adapter, then submit a new command key.'')
        else
          (CpFailed, ''UNSUPPORTED_COMMAND_KIND'',
           ''The internal worker has no admitted handler for this command kind.'',
           ''Use a command kind published by the running Kernel contract.'')) in
     res_bind (map_err Encoding
         (x_enc_offline ex (command_id ex q) (to_hex ex (command_digest ex q)) code detail repair)) (\<lambda>response.
       Ok \<lparr>or_phase = phase, or_response = response\<rparr>))"

definition resolved_record ::
    "'x coding_ext_scheme \<Rightarrow> offline_resolution \<Rightarrow> command_record \<Rightarrow> domain_error + command_record" where
  "resolved_record ex res r =
     (let r' = r\<lparr>cr_phase := or_phase res, cr_response := Some (or_response res)\<rparr> in
      res_bind (record_validate ex r') (\<lambda>_. Ok r'))"

section \<open>Coding admission\<close>

record coding_admission_view =
  av_authority_epoch :: u64
  av_used_quota :: u64
  av_existing_reservation :: "(string \<times> u64) option"
  av_nonce :: "(string \<times> nonce_state) option"

record coding_admission_plan =
  ap_consume_nonce :: string
  ap_reservation :: "string \<times> u64"

definition validate_run_coding_replay ::
    "'x coding_ext_scheme \<Rightarrow> command_request \<Rightarrow> (string \<times> u64) option \<Rightarrow> (string \<times> nonce_state) option \<Rightarrow>
     domain_error + unit" where
  "validate_run_coding_replay ex q reservation nonce =
     (if cq_kind q \<noteq> RUN_CODING_KIND then Ok ()
      else
        res_bind (run_coding_parse ex (cq_payload q)) (\<lambda>payload.
        let digest = to_hex ex (command_digest ex q) in
        if reservation \<noteq> Some (rc_quota_reservation payload, rc_quota_units payload) then
          Err (Encoding ''run_coding replay is missing its exact quota reservation'')
        else if nonce \<noteq> Some (digest, NsConsumed) then
          Err (Encoding ''run_coding replay is missing its consumed launch nonce'')
        else Ok ()))"

definition plan_run_coding_admission ::
    "'x coding_ext_scheme \<Rightarrow> command_request \<Rightarrow> bool \<Rightarrow> coding_admission_view \<Rightarrow>
     domain_error + coding_admission_plan option" where
  "plan_run_coding_admission ex q existed view =
     (if cq_kind q \<noteq> RUN_CODING_KIND then Ok None
      else
        res_bind (run_coding_parse ex (cq_payload q)) (\<lambda>payload.
        if existed then
          res_bind (validate_run_coding_replay ex q (av_existing_reservation view) (av_nonce view)) (\<lambda>_. Ok None)
        else if rc_expected_revision payload \<noteq> av_authority_epoch view then
          Err (StaleAuthority (''run_coding expected revision '' @ show_u (rc_expected_revision payload)
            @ '' but authority epoch is '' @ show_u (av_authority_epoch view)))
        else
          let digest = to_hex ex (command_digest ex q) in
          if av_existing_reservation view \<noteq> None then
            Err (Conflict ''quota reservation is already bound to another subject'')
          else
            let remaining = saturating_sub MAX_CODING_QUOTA_UNITS (av_used_quota view) in
            if remaining < rc_quota_units payload then
              Err (Encoding (''coding quota exhausted: requested '' @ show_u (rc_quota_units payload)
                @ '' remaining '' @ show_u remaining))
            else
              (case av_nonce view of
                 None \<Rightarrow> Err (Encoding ''run_coding launch nonce has not been issued'')
               | Some (stored, NsConsumed) \<Rightarrow> Err (Encoding ''run_coding launch nonce is already consumed'')
               | Some (stored, NsIssued) \<Rightarrow>
                   if stored = digest then
                     Ok (Some \<lparr>ap_consume_nonce = rc_launch_nonce payload,
                               ap_reservation = (rc_quota_reservation payload, rc_quota_units payload)\<rparr>)
                   else Err (Encoding ''run_coding launch nonce does not match this request digest''))))"

definition task_payload ::
    "'x coding_ext_scheme \<Rightarrow> command_request \<Rightarrow> domain_error + run_coding_task_payload option" where
  "task_payload ex q =
     (if cq_kind q \<noteq> RUN_CODING_KIND then Ok None
      else res_bind (coding_submission_parse ex (cq_payload q)) (\<lambda>s.
        case s of SubLegacy _ \<Rightarrow> Ok None | SubTask p \<Rightarrow> Ok (Some p)))"

definition coding_lease_key :: "'x coding_ext_scheme \<Rightarrow> command_request \<Rightarrow> domain_error + string" where
  "coding_lease_key ex q =
     res_bind (command_validate ex q) (\<lambda>_.
     res_bind (task_payload ex q) (\<lambda>p.
     if p = None then Err (coding_encoding ''lease identity requires a v2 coding task'')
     else
       let subject = ''bullet.coding-lease-acquire.v1'' @ [char_of (0 :: nat)] @ command_id ex q
             @ [char_of (0 :: nat)] @ to_hex ex (command_digest ex q);
           key = ''coding-lease-v1:'' @ to_hex ex (digest_of ex subject) in
       if key = cq_idempotency_key q then
         Err (Idempotency ''coding lease identity collides with submission'')
       else Ok key))"

section \<open>Conversation receipts\<close>

definition HEAD_TURN_OUTBOX_KIND :: string where
  "HEAD_TURN_OUTBOX_KIND = ''conversation_head_turn''"

record conversation_receipt =
  rt_schema_version :: string
  rt_cursor :: conversation_cursor
  rt_content_digest :: string
  rt_head_turn_id :: string

record head_turn_reference =
  ht_schema_version :: string
  ht_command_id :: string
  ht_request_digest :: string
  ht_message :: conversation_receipt

definition receipt_for_request ::
    "'x coding_ext_scheme \<Rightarrow> command_request \<Rightarrow> string \<Rightarrow> u64 \<Rightarrow> domain_error + conversation_receipt" where
  "receipt_for_request ex q conversation sequence =
     res_bind (command_validate ex q) (\<lambda>_.
     if cq_kind q \<noteq> CONVERSATION_MESSAGE_KIND then
       Err (conversation_invalid ''saved-message receipt requires a conversation command'')
     else
       res_bind (conversation_parse ex (cq_payload q)) (\<lambda>payload.
       let message = message_id ex (command_id ex q);
           seed = ''bullet.conversation-head-turn.v1'' @ [char_of (0 :: nat)] @ message;
           cursor = \<lparr>cc_conversation_id = conversation, cc_message_id = message, cc_sequence = sequence\<rparr> in
       res_bind (cursor_validate cursor) (\<lambda>_.
         Ok \<lparr>rt_schema_version = ''bullet.conversation-message-receipt.v1'', rt_cursor = cursor,
             rt_content_digest = to_hex ex (digest_of ex (cm_content payload)),
             rt_head_turn_id = ''hdt_'' @ to_hex ex (digest_of ex seed)\<rparr>)))"

definition head_turn_for_request ::
    "'x coding_ext_scheme \<Rightarrow> command_request \<Rightarrow> conversation_receipt \<Rightarrow> domain_error + head_turn_reference" where
  "head_turn_for_request ex q receipt =
     res_bind (receipt_for_request ex q (cc_conversation_id (rt_cursor receipt)) (cc_sequence (rt_cursor receipt)))
       (\<lambda>expected.
       if expected \<noteq> receipt then
         Err (conversation_invalid ''head turn reference does not match its accepted message'')
       else
         Ok \<lparr>ht_schema_version = ''bullet.conversation-head-reference.v1'', ht_command_id = command_id ex q,
             ht_request_digest = to_hex ex (command_digest ex q), ht_message = receipt\<rparr>)"

section \<open>Lemmas\<close>

text \<open>The bytes hashed for a request determine its kind and its payload.\<close>

lemma command_frames_inject:
  assumes "length (cq_kind q) < 2 ^ 64" "length (cq_kind q') < 2 ^ 64"
    and "length (cq_payload q) < 2 ^ 64" "length (cq_payload q') < 2 ^ 64"
    and "frame d @ frame (cq_kind q) @ frame (cq_payload q) = frame d @ frame (cq_kind q') @ frame (cq_payload q')"
  shows "cq_kind q = cq_kind q' \<and> cq_payload q = cq_payload q'"
proof -
  from assms(5) have "frame (cq_kind q) @ frame (cq_payload q) = frame (cq_kind q') @ frame (cq_payload q')"
    by simp
  then have "cq_kind q = cq_kind q' \<and> frame (cq_payload q) = frame (cq_payload q')"
    using assms(1,2) frame_append_inject by blast
  moreover have "cq_payload q = cq_payload q'" if "frame (cq_payload q) = frame (cq_payload q')"
    using frame_append_inject [of "cq_payload q" "[]" "cq_payload q'" "[]"] that assms(3,4) by simp
  ultimately show ?thesis by blast
qed

lemma command_validate_sizes:
  assumes "command_validate ex q = Inr ()"
  shows "length (cq_idempotency_key q) \<le> 256" "length (cq_kind q) \<le> 64" "length (cq_payload q) \<le> 1048576"
  using assms
  by (auto simp: command_validate_def res_bind_Ok_iff validate_text_def validate_json_def
      MAX_COMMAND_KEY_BYTES_def MAX_COMMAND_KIND_BYTES_def MAX_COMMAND_JSON_BYTES_def split: if_splits)

text \<open>A request meets a stored row exactly when the row is a valid row of this very request.\<close>

lemma command_matches_iff:
  "command_matches ex q r = Inr () \<longleftrightarrow> record_validate ex r = Inr () \<and> record_request r = q"
proof
  assume "command_matches ex q r = Inr ()"
  then show "record_validate ex r = Inr () \<and> record_request r = q"
    by (auto simp: command_matches_def record_request_def res_bind_Ok_iff split: if_splits)
next
  assume "record_validate ex r = Inr () \<and> record_request r = q"
  then show "command_matches ex q r = Inr ()"
    by (auto simp: command_matches_def record_validate_def record_request_def Let_def res_bind_Ok_iff
        split: if_splits)
qed

lemma record_validate_request: "record_validate ex r = Inr () \<Longrightarrow> command_validate ex (record_request r) = Inr ()"
  by (auto simp: record_validate_def Let_def res_bind_Ok_iff)

lemma record_validate_identity:
  assumes "record_validate ex r = Inr ()"
  shows "cr_id r = command_id ex (record_request r)" "cr_payload_digest r = command_digest ex (record_request r)"
  using assms by (auto simp: record_validate_def Let_def res_bind_Ok_iff split: if_splits)

text \<open>The result shape: a pending row carries no result, a settled one does.\<close>

lemma record_validate_result:
  assumes "record_validate ex r = Inr ()"
  shows "cr_phase r = CpPending \<Longrightarrow> cr_response r = None"
    and "cr_phase r \<in> {CpApplied, CpVerified, CpFailed} \<Longrightarrow> cr_response r \<noteq> None"
  using assms
  by (auto simp: record_validate_def Let_def res_bind_Ok_iff split: if_splits option.splits)

lemma offline_resolution_phase:
  assumes "offline_worker_resolution ex q = Inr res"
  shows "or_phase res = (if is_supported_dispatch_kind (cq_kind q) then CpUnknown else CpFailed)"
  using assms by (auto simp: offline_worker_resolution_def Let_def res_bind_Ok_iff split: if_splits)

text \<open>What a plan was decided on: only an unspent nonce bound to this request, within the quota.\<close>

lemma plan_run_coding_Some:
  assumes "plan_run_coding_admission ex q existed view = Inr (Some p)"
  obtains payload where "\<not> existed" "cq_kind q = RUN_CODING_KIND" "run_coding_parse ex (cq_payload q) = Inr payload"
    "rc_expected_revision payload = av_authority_epoch view" "av_existing_reservation view = None"
    "rc_quota_units payload \<le> saturating_sub MAX_CODING_QUOTA_UNITS (av_used_quota view)"
    "av_nonce view = Some (to_hex ex (command_digest ex q), NsIssued)"
    "p = \<lparr>ap_consume_nonce = rc_launch_nonce payload,
          ap_reservation = (rc_quota_reservation payload, rc_quota_units payload)\<rparr>"
  using assms
  by (cases "av_existing_reservation view")
    (auto simp: plan_run_coding_admission_def res_bind_Ok_iff Let_def not_less
      split: if_splits option.splits nonce_state.splits)

end
