(* ===== verification/Effect_Records.thy ===== *)
theory Effect_Records
  imports Domain_Core
begin

text \<open>
  The effect state machine of \<^verbatim>\<open>crates/application/src/effect_state.rs\<close> and the durable intent and
  receipt rows of \<^verbatim>\<open>effects.rs\<close>. The JSON encoders of the identity payload and of the recovery
  subject are fields of \<open>effect_ext\<close>.
\<close>

section \<open>State machine\<close>

datatype effect_state =
    EfProposed | EfAuthorized | EfDispatching | EfReceiptPending | EfVerified | EfCommitted
  | EfOutcomeUnknown | EfQuarantined | EfFailed | EfCompensationPending | EfCompensating
  | EfCompensated | EfOrphanedRemote

fun effect_state_debug :: "effect_state \<Rightarrow> string" where
  "effect_state_debug EfProposed = ''Proposed''"
| "effect_state_debug EfAuthorized = ''Authorized''"
| "effect_state_debug EfDispatching = ''Dispatching''"
| "effect_state_debug EfReceiptPending = ''ReceiptPending''"
| "effect_state_debug EfVerified = ''Verified''"
| "effect_state_debug EfCommitted = ''Committed''"
| "effect_state_debug EfOutcomeUnknown = ''OutcomeUnknown''"
| "effect_state_debug EfQuarantined = ''Quarantined''"
| "effect_state_debug EfFailed = ''Failed''"
| "effect_state_debug EfCompensationPending = ''CompensationPending''"
| "effect_state_debug EfCompensating = ''Compensating''"
| "effect_state_debug EfCompensated = ''Compensated''"
| "effect_state_debug EfOrphanedRemote = ''OrphanedRemote''"

definition effect_transition :: "effect_state \<Rightarrow> effect_state \<Rightarrow> domain_error + effect_state" where
  "effect_transition self to = allow effect_state_debug self to
     [([EfProposed], EfAuthorized, EfAuthorized),
      ([EfProposed, EfAuthorized], EfFailed, EfFailed),
      ([EfAuthorized], EfDispatching, EfDispatching),
      ([EfDispatching], EfReceiptPending, EfReceiptPending),
      ([EfDispatching, EfReceiptPending], EfOutcomeUnknown, EfOutcomeUnknown),
      ([EfReceiptPending], EfVerified, EfVerified),
      ([EfOutcomeUnknown], EfVerified, EfVerified),
      ([EfOutcomeUnknown], EfDispatching, EfDispatching),
      ([EfOutcomeUnknown], EfOrphanedRemote, EfOrphanedRemote),
      ([EfVerified], EfCommitted, EfCommitted),
      ([EfDispatching, EfReceiptPending, EfOutcomeUnknown], EfQuarantined, EfQuarantined),
      ([EfQuarantined], EfCompensationPending, EfCompensationPending),
      ([EfCompensationPending], EfCompensating, EfCompensating),
      ([EfCompensating], EfCompensated, EfCompensated)]"

definition needs_reconcile :: "effect_state \<Rightarrow> bool" where
  "needs_reconcile s = (s = EfOutcomeUnknown)"

definition is_unresolved :: "effect_state \<Rightarrow> bool" where
  "is_unresolved s = (s \<in> {EfDispatching, EfReceiptPending, EfOutcomeUnknown})"

fun effect_as_str :: "effect_state \<Rightarrow> string" where
  "effect_as_str EfProposed = ''PROPOSED''"
| "effect_as_str EfAuthorized = ''AUTHORIZED''"
| "effect_as_str EfDispatching = ''DISPATCHING''"
| "effect_as_str EfReceiptPending = ''RECEIPT_PENDING''"
| "effect_as_str EfVerified = ''VERIFIED''"
| "effect_as_str EfCommitted = ''COMMITTED''"
| "effect_as_str EfOutcomeUnknown = ''OUTCOME_UNKNOWN''"
| "effect_as_str EfQuarantined = ''QUARANTINED''"
| "effect_as_str EfFailed = ''FAILED''"
| "effect_as_str EfCompensationPending = ''COMPENSATION_PENDING''"
| "effect_as_str EfCompensating = ''COMPENSATING''"
| "effect_as_str EfCompensated = ''COMPENSATED''"
| "effect_as_str EfOrphanedRemote = ''ORPHANED_REMOTE''"

definition normalize_unresolved_for_recovery :: "effect_state \<Rightarrow> domain_error + effect_state" where
  "normalize_unresolved_for_recovery s =
     (if s \<in> {EfDispatching, EfReceiptPending, EfOutcomeUnknown} then Ok EfOutcomeUnknown
      else Err (InvalidTransition (effect_as_str s) (effect_as_str EfOutcomeUnknown)))"

definition effect_terminal :: "effect_state \<Rightarrow> bool" where
  "effect_terminal s = (s \<in> {EfCommitted, EfFailed, EfCompensated, EfOrphanedRemote})"

definition effect_all :: "effect_state list" where
  "effect_all = [EfProposed, EfAuthorized, EfDispatching, EfReceiptPending, EfVerified, EfCommitted,
     EfOutcomeUnknown, EfQuarantined, EfFailed, EfCompensationPending, EfCompensating, EfCompensated,
     EfOrphanedRemote]"

definition effect_parse :: "string \<Rightarrow> domain_error + effect_state" where
  "effect_parse name =
     (if name = ''PROPOSED'' then Ok EfProposed
      else if name = ''AUTHORIZED'' then Ok EfAuthorized
      else if name = ''DISPATCHING'' then Ok EfDispatching
      else if name = ''RECEIPT_PENDING'' then Ok EfReceiptPending
      else if name = ''VERIFIED'' then Ok EfVerified
      else if name = ''COMMITTED'' then Ok EfCommitted
      else if name = ''OUTCOME_UNKNOWN'' then Ok EfOutcomeUnknown
      else if name = ''QUARANTINED'' then Ok EfQuarantined
      else if name = ''FAILED'' then Ok EfFailed
      else if name = ''COMPENSATION_PENDING'' then Ok EfCompensationPending
      else if name = ''COMPENSATING'' then Ok EfCompensating
      else if name = ''COMPENSATED'' then Ok EfCompensated
      else if name = ''ORPHANED_REMOTE'' then Ok EfOrphanedRemote
      else Err (UnknownState (''effect state '' @ name)))"

section \<open>Rows\<close>

record effect_intent =
  ei_id :: string
  ei_logical_effect_key :: string
  ei_provider :: string
  ei_target_identity :: string
  ei_desired_state_hash :: string
  ei_expected_old_oid :: string
  ei_attempt_id :: string
  ei_fence :: u64
  ei_policy_version :: string
  ei_payload_hash :: string
  ei_provider_idempotency_key :: "string option"
  ei_state :: effect_state
  ei_unknown_retries :: u32
  ei_created_at :: string

datatype receipt_verdict = RvMatch | RvMismatch | RvAbsent

fun verdict_as_str :: "receipt_verdict \<Rightarrow> string" where
  "verdict_as_str RvMatch = ''MATCH''"
| "verdict_as_str RvMismatch = ''MISMATCH''"
| "verdict_as_str RvAbsent = ''ABSENT''"

definition verdict_parse :: "string \<Rightarrow> domain_error + receipt_verdict" where
  "verdict_parse name =
     (if name = ''MATCH'' then Ok RvMatch
      else if name = ''MISMATCH'' then Ok RvMismatch
      else if name = ''ABSENT'' then Ok RvAbsent
      else Err (UnknownState (''receipt verdict '' @ name)))"

record effect_receipt =
  er_id :: string
  er_effect_intent_id :: string
  er_observed_remote_identity :: string
  er_observed_state_hash :: "string option"
  er_verification_method :: string
  er_verification_result :: receipt_verdict
  er_adopted_after_unknown :: bool
  er_recorded_at :: string

text \<open>The members of the identity payload, in the order of the \<open>json!\<close> object.\<close>

record effect_identity =
  fi_logical_effect_key :: string
  fi_provider :: string
  fi_target_identity :: string
  fi_desired_state_hash :: string
  fi_expected_old_oid :: string
  fi_attempt_id :: string
  fi_fence :: u64
  fi_policy_version :: string
  fi_provider_idempotency_key :: "string option"

record recovery_subject =
  rs_schema_version :: string
  rs_effect_intent_id :: string
  rs_intent_payload_digest :: digest
  rs_observed_remote_identity :: string
  rs_observed_state_hash :: "string option"
  rs_verification_method :: string
  rs_verification_result :: receipt_verdict

definition intent_identity :: "effect_intent \<Rightarrow> effect_identity" where
  "intent_identity i = \<lparr>fi_logical_effect_key = ei_logical_effect_key i, fi_provider = ei_provider i,
     fi_target_identity = ei_target_identity i, fi_desired_state_hash = ei_desired_state_hash i,
     fi_expected_old_oid = ei_expected_old_oid i, fi_attempt_id = ei_attempt_id i, fi_fence = ei_fence i,
     fi_policy_version = ei_policy_version i, fi_provider_idempotency_key = ei_provider_idempotency_key i\<rparr>"

definition effect_stable_payload ::
    "(effect_identity \<Rightarrow> string + string) \<Rightarrow> effect_intent \<Rightarrow> domain_error + string" where
  "effect_stable_payload enc i = map_err Encoding (enc (intent_identity i))"

definition stable_payload_digest ::
    "'x hash_ext_scheme \<Rightarrow> (effect_identity \<Rightarrow> string + string) \<Rightarrow> effect_intent \<Rightarrow> domain_error + digest" where
  "stable_payload_digest ex enc i = res_bind (effect_stable_payload enc i) (\<lambda>p. Ok (digest_of ex p))"

definition payload_digest ::
    "'x hash_ext_scheme \<Rightarrow> (effect_identity \<Rightarrow> string + string) \<Rightarrow> effect_intent \<Rightarrow> domain_error + string" where
  "payload_digest ex enc i = res_bind (stable_payload_digest ex enc i) (\<lambda>d. Ok (to_hex ex d))"

definition RECOVERY_RECEIPT_DOMAIN :: string where
  "RECOVERY_RECEIPT_DOMAIN = ''bullet.effect-recovery-receipt.v1''"

definition receipt_id :: "'x hash_ext_scheme \<Rightarrow> string \<Rightarrow> string" where
  "receipt_id ex seed = typed_id_from_seed ex ''efr'' seed"

definition recovery_receipt_id ::
    "'x hash_ext_scheme \<Rightarrow> (effect_identity \<Rightarrow> string + string) \<Rightarrow> (recovery_subject \<Rightarrow> string + bytes) \<Rightarrow>
     effect_intent \<Rightarrow> string \<Rightarrow> string option \<Rightarrow> string \<Rightarrow> receipt_verdict \<Rightarrow> domain_error + string" where
  "recovery_receipt_id ex enc to_vec i remote state_hash how result =
     res_bind (stable_payload_digest ex enc i) (\<lambda>d.
     res_bind (of_json ex to_vec
         \<lparr>rs_schema_version = RECOVERY_RECEIPT_DOMAIN, rs_effect_intent_id = ei_id i,
          rs_intent_payload_digest = d, rs_observed_remote_identity = remote,
          rs_observed_state_hash = state_hash, rs_verification_method = how,
          rs_verification_result = result\<rparr>) (\<lambda>digest.
       Ok (typed_id_from_seed ex ''efr'' (RECOVERY_RECEIPT_DOMAIN @ '':'' @ to_hex ex digest))))"

section \<open>Lemmas\<close>

lemma effect_transition_target: "effect_transition a b = Inr c \<Longrightarrow> c = b"
  unfolding effect_transition_def by (drule allow_Ok_target) simp_all

lemma effect_terminal_stuck: "effect_terminal a \<Longrightarrow> \<not> is_ok (effect_transition a b)"
  by (cases a) (simp_all add: effect_terminal_def effect_transition_def)

lemma effect_not_stuck:
  assumes "\<not> effect_terminal a"
  shows "\<exists>b. is_ok (effect_transition a b)"
proof -
  define t where "t = (case a of EfProposed \<Rightarrow> EfAuthorized | EfAuthorized \<Rightarrow> EfDispatching
    | EfDispatching \<Rightarrow> EfReceiptPending | EfReceiptPending \<Rightarrow> EfVerified | EfVerified \<Rightarrow> EfCommitted
    | EfOutcomeUnknown \<Rightarrow> EfVerified | EfQuarantined \<Rightarrow> EfCompensationPending
    | EfCompensationPending \<Rightarrow> EfCompensating | _ \<Rightarrow> EfCompensated)"
  have "is_ok (effect_transition a t)"
    using assms by (cases a) (simp_all add: t_def effect_terminal_def effect_transition_def)
  then show ?thesis by blast
qed

interpretation effect_machine: transition_machine effect_transition effect_terminal
  by unfold_locales (fact effect_transition_target effect_terminal_stuck effect_not_stuck)+

lemma effect_parse_as_str: "effect_parse (effect_as_str x) = Inr x"
  by (cases x) (simp_all add: effect_parse_def)

lemma effect_parse_inverse: "effect_parse s = Inr x \<Longrightarrow> s = effect_as_str x"
  by (auto simp: effect_parse_def split: if_splits)

interpretation effect_names: wire_catalog effect_as_str effect_parse
  by unfold_locales (fact effect_parse_as_str effect_parse_inverse)+

interpretation verdict_names: wire_catalog verdict_as_str verdict_parse
proof
  show "verdict_parse (verdict_as_str x) = Inr x" for x
    by (cases x) (simp_all add: verdict_parse_def)
  show "s = verdict_as_str x" if "verdict_parse s = Inr x" for s x
    using that by (auto simp: verdict_parse_def split: if_splits)
qed

text \<open>What precedes the two states that only a read-back reaches.\<close>

lemma effect_committed_pred: "effect_transition a EfCommitted = Inr c \<Longrightarrow> a = EfVerified"
  by (cases a) (simp_all add: effect_transition_def)

lemma effect_verified_pred:
  "effect_transition a EfVerified = Inr c \<Longrightarrow> a \<in> {EfReceiptPending, EfOutcomeUnknown}"
  by (cases a) (simp_all add: effect_transition_def)

lemma effect_unresolved_pred:
  "effect_transition a b = Inr c \<Longrightarrow> is_unresolved b \<Longrightarrow> is_unresolved a \<or> a = EfAuthorized"
  by (cases a; cases b) (simp_all add: effect_transition_def is_unresolved_def)

lemma effect_dispatching_pred:
  "effect_transition a EfDispatching = Inr c \<Longrightarrow> a \<in> {EfAuthorized, EfOutcomeUnknown}"
  by (cases a) (simp_all add: effect_transition_def)

end
