(* ===== verification/Ledger_Records.thy ===== *)
theory Ledger_Records
  imports Commands Effect_Records
begin

text \<open>
  The row shapes every ledger shares and the checks on them: the ledger error of \<^verbatim>\<open>store.rs\<close>, the
  rows of \<^verbatim>\<open>records.rs\<close>, the authority row of \<^verbatim>\<open>authority_revision.rs\<close>, the context capsules of
  \<^verbatim>\<open>context.rs\<close>, the active-lease check of \<^verbatim>\<open>authority.rs\<close>, the launch-grant nonces of
  \<^verbatim>\<open>launch_grant/nonce.rs\<close> and the package resolution of \<^verbatim>\<open>store/lease_txn.rs\<close>, all under
  \<^verbatim>\<open>crates/application/src\<close>.

  The codecs and the calendar of the \<^verbatim>\<open>chrono\<close> crate are fields of \<open>ledger_ext\<close>: \<open>x_rfc3339\<close> prints
  a millisecond timestamp that \<open>x_millis_ok\<close> admits, \<open>x_parse_rfc3339\<close> reads a text as an instant.
\<close>

section \<open>Errors\<close>

text \<open>\<open>LePanic\<close> is not a value of the source: it stands for a call that panics.\<close>

datatype ledger_error =
    LeStore string | LeUnsupportedSchema string | LeDomain domain_error
  | LeCodingTask coding_task_refusal | LeConversation conversation_refusal | LePanic

fun ledger_reason_code :: "ledger_error \<Rightarrow> string" where
  "ledger_reason_code (LeStore _) = ''STORE_FAILURE''"
| "ledger_reason_code (LeUnsupportedSchema _) = ''UNSUPPORTED_SCHEMA''"
| "ledger_reason_code (LeDomain e) = domain_reason_code e"
| "ledger_reason_code (LeCodingTask e) = coding_refusal_reason_code e"
| "ledger_reason_code (LeConversation e) = conversation_refusal_reason_code e"
| "ledger_reason_code LePanic = []"

text \<open>The \<open>?\<close> operator on a domain result inside a ledger function.\<close>

abbreviation from_domain :: "domain_error + 'a \<Rightarrow> ledger_error + 'a" where
  "from_domain r \<equiv> map_err LeDomain r"

section \<open>Rows\<close>

definition MAX_LEASE_TTL_SECONDS :: int where
  "MAX_LEASE_TTL_SECONDS = 15"

record stored_graph =
  sg_mission :: mission
  sg_plan :: plan_revision
  sg_packages :: "work_package list"
  sg_variants :: "variant list"

record ledger_event =
  le_seq :: u64
  le_at :: string
  le_kind :: string
  le_body :: string
  le_event_id :: "string option"
  le_stream_id :: "string option"
  le_sequence :: "u64 option"
  le_causation_id :: "string option"
  le_correlation_id :: "string option"
  le_authority_token_hash :: "string option"

record ready_row =
  rr_work_package_id :: string
  rr_enqueued_at :: string

record outbox_item =
  ob_seq :: u64
  ob_command_id :: "string option"
  ob_kind :: string
  ob_payload :: string
  ob_phase :: command_phase
  ob_delivered_at :: "string option"
  ob_acked_at :: "string option"

record active_lease =
  al_variant_id :: string
  al_attempt_id :: string
  al_fence :: u64
  al_runner_id :: string
  al_runner_epoch :: u64
  al_workspace_nonce :: bytes
  al_heartbeat_at :: string
  al_expires_at :: string
  al_ttl_seconds :: int

record lease_request =
  lq_idempotency_key :: string
  lq_mission_id :: string
  lq_variant_id :: string
  lq_attempt_seed :: string
  lq_runner_id :: string
  lq_runner_epoch :: u64
  lq_workspace_id :: string
  lq_workspace_nonce :: bytes
  lq_scope_revision :: u64
  lq_context_revision :: u64
  lq_ttl_seconds :: int

text \<open>The members of the idempotency payload: a lease request without its key.\<close>

record lease_payload =
  lp_mission_id :: string
  lp_variant_id :: string
  lp_attempt_seed :: string
  lp_runner_id :: string
  lp_runner_epoch :: u64
  lp_workspace_id :: string
  lp_workspace_nonce :: bytes
  lp_scope_revision :: u64
  lp_context_revision :: u64
  lp_ttl_seconds :: int

record lease_grant =
  lg_attempt :: attempt
  lg_lease :: active_lease

record heartbeat_request =
  hb_variant_id :: string
  hb_attempt_id :: string
  hb_fence :: u64
  hb_runner_id :: string
  hb_runner_epoch :: u64
  hb_workspace_nonce :: bytes
  hb_ttl_seconds :: int

record release_request =
  rq_variant_id :: string
  rq_attempt_id :: string
  rq_final_state :: attempt_state
  rq_requeue :: bool

record expired_lease =
  xl_variant_id :: string
  xl_attempt_id :: string
  xl_work_package_id :: string
  xl_fence :: u64

record initial_content =
  ic_schema_version :: string
  ic_mission_id :: string
  ic_work_package_id :: string
  ic_plan_revision_id :: string
  ic_revision :: u64
  ic_task_class :: task_class
  ic_objective :: string
  ic_package_title :: string

record ledger_ext = command_ext +
  x_enc_lease_payload :: "lease_payload \<Rightarrow> string + string"
  x_enc_grant :: "lease_grant \<Rightarrow> string + string"
  x_dec_grant :: "string \<Rightarrow> string + lease_grant"
  x_enc_expired :: "expired_lease \<Rightarrow> string + string"
  x_enc_context :: "initial_content \<Rightarrow> string + bytes"
  x_enc_request :: "command_request \<Rightarrow> string + string"
  x_enc_effect :: "effect_identity \<Rightarrow> string + string"
  x_millis_ok :: "int \<Rightarrow> bool"
  x_rfc3339 :: "int \<Rightarrow> string"
  x_parse_rfc3339 :: "string \<Rightarrow> int option"

definition validate_lease_ttl :: "int \<Rightarrow> domain_error + int" where
  "validate_lease_ttl ttl =
     (if 1 \<le> ttl \<and> ttl \<le> MAX_LEASE_TTL_SECONDS then Ok ttl else Err (InvalidLeaseTtl ttl))"

definition request_validated_ttl :: "lease_request \<Rightarrow> domain_error + int" where
  "request_validated_ttl req = validate_lease_ttl (lq_ttl_seconds req)"

definition heartbeat_validated_ttl :: "heartbeat_request \<Rightarrow> domain_error + int" where
  "heartbeat_validated_ttl req = validate_lease_ttl (hb_ttl_seconds req)"

definition lease_payload_of :: "lease_request \<Rightarrow> lease_payload" where
  "lease_payload_of req = \<lparr>lp_mission_id = lq_mission_id req, lp_variant_id = lq_variant_id req,
     lp_attempt_seed = lq_attempt_seed req, lp_runner_id = lq_runner_id req,
     lp_runner_epoch = lq_runner_epoch req, lp_workspace_id = lq_workspace_id req,
     lp_workspace_nonce = lq_workspace_nonce req, lp_scope_revision = lq_scope_revision req,
     lp_context_revision = lq_context_revision req, lp_ttl_seconds = lq_ttl_seconds req\<rparr>"

definition lease_stable_payload :: "'x ledger_ext_scheme \<Rightarrow> lease_request \<Rightarrow> domain_error + string" where
  "lease_stable_payload ex req =
     res_bind (request_validated_ttl req) (\<lambda>_.
       map_err Encoding (x_enc_lease_payload ex (lease_payload_of req)))"

section \<open>Normalized authority\<close>

definition MAX_SQLITE_INTEGER :: u64 where
  "MAX_SQLITE_INTEGER = 9223372036854775807"

datatype authority_revision_error = AreInvalid string

definition authority_revision_reason_code :: "authority_revision_error \<Rightarrow> string" where
  "authority_revision_reason_code e = ''AUTHORITY_REVISION_INVALID''"

record normalized_authority =
  na_graph_revision :: u64
  na_workspace_generation :: u64
  na_scope_digest :: string
  na_policy_generation :: u64
  na_routing_generation :: u64
  na_authority_epoch :: u64
  na_freeze_generation :: u64

definition authority_new ::
    "u64 \<Rightarrow> u64 \<Rightarrow> string \<Rightarrow> u64 \<Rightarrow> u64 \<Rightarrow> u64 \<Rightarrow> u64 \<Rightarrow> authority_revision_error + normalized_authority" where
  "authority_new graph_revision workspace_generation scope_digest policy_generation routing_generation
     authority_epoch freeze_generation =
     (if graph_revision = 0 \<or> workspace_generation = 0 \<or> policy_generation = 0 \<or> routing_generation = 0
         \<or> authority_epoch = 0 then
        Err (AreInvalid ''authority counters cannot be zero'')
      else if list_ex (\<lambda>v. MAX_SQLITE_INTEGER < v)
          [graph_revision, workspace_generation, policy_generation, routing_generation, authority_epoch,
           freeze_generation] then
        Err (AreInvalid (''authority counters cannot exceed '' @ show_u MAX_SQLITE_INTEGER))
      else if length scope_digest \<noteq> 64 \<or> \<not> list_all is_lower_hex scope_digest then
        Err (AreInvalid ''scope digest must be 64 lowercase hex characters'')
      else Ok \<lparr>na_graph_revision = graph_revision, na_workspace_generation = workspace_generation,
             na_scope_digest = scope_digest, na_policy_generation = policy_generation,
             na_routing_generation = routing_generation, na_authority_epoch = authority_epoch,
             na_freeze_generation = freeze_generation\<rparr>)"

text \<open>\<open>genesis\<close>: the \<open>expect\<close> of the source is discharged by the lemma \<open>genesis_representable\<close>.\<close>

definition genesis :: normalized_authority where
  "genesis = projr (authority_new 1 1 (replicate 64 (CHR ''0'')) 1 1 1 0)"

section \<open>Active lease check\<close>

record active_lease_subject =
  as_variant_id :: string
  as_attempt_id :: string
  as_work_package_id :: string
  as_fence :: u64
  as_runner_id :: string
  as_runner_epoch :: u64
  as_workspace_id :: string
  as_workspace_nonce :: bytes
  as_scope_revision :: u64
  as_context_revision :: u64

definition lease_subject_from_attempt :: "attempt \<Rightarrow> active_lease_subject" where
  "lease_subject_from_attempt a = \<lparr>as_variant_id = at_variant_id a, as_attempt_id = at_id a,
     as_work_package_id = at_work_package_id a, as_fence = at_fence a, as_runner_id = at_runner_id a,
     as_runner_epoch = at_runner_epoch a, as_workspace_id = at_workspace_id a,
     as_workspace_nonce = at_workspace_nonce a, as_scope_revision = at_scope_revision a,
     as_context_revision = at_context_revision a\<rparr>"

definition check_active_lease_snapshot ::
    "'x ledger_ext_scheme \<Rightarrow> active_lease \<Rightarrow> attempt \<Rightarrow> active_lease_subject \<Rightarrow> string \<Rightarrow> ledger_error + unit" where
  "check_active_lease_snapshot ex l a s authoritative_now =
     res_bind (ok_or (x_parse_rfc3339 ex (al_heartbeat_at l)) (LeStore ''corrupt active lease heartbeat'')) (\<lambda>heartbeat.
     res_bind (ok_or (x_parse_rfc3339 ex (al_expires_at l)) (LeStore ''corrupt active lease expiry'')) (\<lambda>expires.
     res_bind (ok_or (x_parse_rfc3339 ex authoritative_now) (LeStore ''invalid authority-store time'')) (\<lambda>now.
     if now < heartbeat \<or> expires \<le> heartbeat then
       Err (LeStore ''corrupt active lease time window'')
     else if expires \<le> now
       \<or> \<not> permits_online_lease_check (at_state a)
       \<or> al_variant_id l \<noteq> as_variant_id s
       \<or> al_attempt_id l \<noteq> as_attempt_id s
       \<or> al_fence l \<noteq> as_fence s
       \<or> al_runner_id l \<noteq> as_runner_id s
       \<or> al_runner_epoch l \<noteq> as_runner_epoch s
       \<or> al_workspace_nonce l \<noteq> as_workspace_nonce s
       \<or> at_variant_id a \<noteq> as_variant_id s
       \<or> at_id a \<noteq> as_attempt_id s
       \<or> at_work_package_id a \<noteq> as_work_package_id s
       \<or> at_fence a \<noteq> as_fence s
       \<or> at_runner_id a \<noteq> as_runner_id s
       \<or> at_runner_epoch a \<noteq> as_runner_epoch s
       \<or> at_workspace_id a \<noteq> as_workspace_id s
       \<or> at_workspace_nonce a \<noteq> as_workspace_nonce s
       \<or> at_scope_revision a \<noteq> as_scope_revision s
       \<or> at_context_revision a \<noteq> as_context_revision s then
       Err (LeDomain (StaleAuthority (''active lease does not match Attempt '' @ as_attempt_id s
         @ '' fence '' @ show_u (as_fence s))))
     else Ok ())))"

section \<open>Context capsules\<close>

definition INITIAL_CONTEXT_CAPSULE_SCHEMA :: string where
  "INITIAL_CONTEXT_CAPSULE_SCHEMA = ''bullet.context-capsule.initial.v1''"

record context_capsule =
  cx_id :: string
  cx_mission_id :: string
  cx_work_package_id :: string
  cx_plan_revision_id :: string
  cx_revision :: u64
  cx_task_class :: task_class
  cx_objective :: string
  cx_package_title :: string
  cx_content_digest :: digest
  cx_recorded_at :: string

definition content_digest ::
    "'x ledger_ext_scheme \<Rightarrow> string \<Rightarrow> string \<Rightarrow> string \<Rightarrow> task_class \<Rightarrow> string \<Rightarrow> string \<Rightarrow> ledger_error + digest" where
  "content_digest ex mission package plan cls objective title =
     from_domain (of_json ex (x_enc_context ex)
       \<lparr>ic_schema_version = INITIAL_CONTEXT_CAPSULE_SCHEMA, ic_mission_id = mission,
        ic_work_package_id = package, ic_plan_revision_id = plan, ic_revision = 1, ic_task_class = cls,
        ic_objective = objective, ic_package_title = title\<rparr>)"

definition validate_time :: "'x ledger_ext_scheme \<Rightarrow> string \<Rightarrow> ledger_error + unit" where
  "validate_time ex recorded_at =
     res_bind (ok_or (x_parse_rfc3339 ex recorded_at) (LeStore ''context capsule record time is not RFC 3339''))
       (\<lambda>_. Ok ())"

definition capsule_initial ::
    "'x ledger_ext_scheme \<Rightarrow> stored_graph \<Rightarrow> work_package \<Rightarrow> string \<Rightarrow> ledger_error + context_capsule" where
  "capsule_initial ex g p recorded_at =
     (if wp_mission_id p \<noteq> mi_id (sg_mission g) \<or> wp_plan_revision_id p \<noteq> pr_id (sg_plan g)
         \<or> \<not> list_ex (\<lambda>item. wp_id item = wp_id p) (sg_packages g) then
        Err (LeStore ''context capsule package is not owned by the exact graph'')
      else
        res_bind (validate_time ex recorded_at) (\<lambda>_.
        res_bind (content_digest ex (mi_id (sg_mission g)) (wp_id p) (pr_id (sg_plan g)) (wp_task_class p)
            (mi_objective (sg_mission g)) (wp_title p)) (\<lambda>d.
          Ok \<lparr>cx_id = typed_id_from_seed ex ''ctx'' (to_hex ex d), cx_mission_id = mi_id (sg_mission g),
              cx_work_package_id = wp_id p, cx_plan_revision_id = pr_id (sg_plan g), cx_revision = 1,
              cx_task_class = wp_task_class p, cx_objective = mi_objective (sg_mission g),
              cx_package_title = wp_title p, cx_content_digest = d, cx_recorded_at = recorded_at\<rparr>)))"

definition capsule_validate :: "'x ledger_ext_scheme \<Rightarrow> context_capsule \<Rightarrow> ledger_error + unit" where
  "capsule_validate ex c =
     res_bind (validate_time ex (cx_recorded_at c)) (\<lambda>_.
     if cx_revision c \<noteq> 1 then Err (LeStore ''unsupported context capsule revision'')
     else
       res_bind (content_digest ex (cx_mission_id c) (cx_work_package_id c) (cx_plan_revision_id c)
           (cx_task_class c) (cx_objective c) (cx_package_title c)) (\<lambda>expected.
       if cx_content_digest c \<noteq> expected
          \<or> cx_id c \<noteq> typed_id_from_seed ex ''ctx'' (to_hex ex expected) then
         Err (LeStore ''context capsule identity or content digest is corrupt'')
       else Ok ()))"

definition same_subject :: "context_capsule \<Rightarrow> context_capsule \<Rightarrow> bool" where
  "same_subject c e \<longleftrightarrow>
     cx_id c = cx_id e \<and> cx_mission_id c = cx_mission_id e \<and> cx_work_package_id c = cx_work_package_id e
     \<and> cx_plan_revision_id c = cx_plan_revision_id e \<and> cx_revision c = cx_revision e
     \<and> cx_task_class c = cx_task_class e \<and> cx_objective c = cx_objective e
     \<and> cx_package_title c = cx_package_title e \<and> cx_content_digest c = cx_content_digest e"

text \<open>The loop of \<open>initial_context_capsules\<close>: \<open>seen\<close> is its set of package identities.\<close>

fun capsules_loop ::
    "'x ledger_ext_scheme \<Rightarrow> stored_graph \<Rightarrow> string \<Rightarrow> string set \<Rightarrow> work_package list \<Rightarrow>
     ledger_error + context_capsule list" where
  "capsules_loop ex g at seen [] = Ok []"
| "capsules_loop ex g at seen (p # ps) =
     (if wp_id p \<in> seen then Err (LeStore ''graph repeats a context capsule work package'')
      else
        res_bind (capsule_initial ex g p at) (\<lambda>c.
        res_bind (capsules_loop ex g at (insert (wp_id p) seen) ps) (\<lambda>cs. Ok (c # cs))))"

definition initial_context_capsules ::
    "'x ledger_ext_scheme \<Rightarrow> stored_graph \<Rightarrow> string \<Rightarrow> ledger_error + context_capsule list" where
  "initial_context_capsules ex g recorded_at = capsules_loop ex g recorded_at {} (sg_packages g)"

text \<open>The two loops of \<open>validate_initial_context_set\<close>.\<close>

fun collect_capsules ::
    "'x ledger_ext_scheme \<Rightarrow> (string, context_capsule) btree_map \<Rightarrow> context_capsule list \<Rightarrow>
     ledger_error + (string, context_capsule) btree_map" where
  "collect_capsules ex actual [] = Ok actual"
| "collect_capsules ex actual (c # cs) =
     res_bind (capsule_validate ex c) (\<lambda>_.
     if bt_contains actual (cx_work_package_id c) then
       Err (LeStore ''context capsule set repeats a work package'')
     else collect_capsules ex (bt_insert (cx_work_package_id c) c actual) cs)"

fun match_capsules ::
    "'x ledger_ext_scheme \<Rightarrow> stored_graph \<Rightarrow> (string, context_capsule) btree_map \<Rightarrow> work_package list \<Rightarrow>
     ledger_error + unit" where
  "match_capsules ex g actual [] = Ok ()"
| "match_capsules ex g actual (p # ps) =
     res_bind (ok_or (bt_get actual (wp_id p)) (LeStore (''context capsule missing for '' @ wp_id p))) (\<lambda>stored.
     res_bind (capsule_initial ex g p (cx_recorded_at stored)) (\<lambda>expected.
     if \<not> same_subject stored expected then
       Err (LeStore (''context capsule subject differs for '' @ wp_id p))
     else match_capsules ex g actual ps))"

definition validate_initial_context_set ::
    "'x ledger_ext_scheme \<Rightarrow> stored_graph \<Rightarrow> context_capsule list \<Rightarrow> ledger_error + unit" where
  "validate_initial_context_set ex g capsules =
     res_bind (collect_capsules ex bt_empty capsules) (\<lambda>actual.
     if bt_len actual \<noteq> length (sg_packages g) then
       Err (LeStore ''context capsule set is incomplete or contains foreign rows'')
     else match_capsules ex g actual (sg_packages g))"

section \<open>Launch-grant nonces\<close>

datatype nonce_consumption = NcConsumed | NcReplayed | NcExpired | NcUnknown

record launch_nonce_record =
  ln_grant_nonce :: string
  ln_grant_id :: string
  ln_attempt_id :: string
  ln_attempt_fence :: u64
  ln_expires_at_unix_ms :: u64
  ln_issued_at :: string

record stored_launch_nonce =
  sn_record :: launch_nonce_record
  sn_consumed_at :: "string option"

definition launch_nonce_validate :: "launch_nonce_record \<Rightarrow> ledger_error + unit" where
  "launch_nonce_validate r =
     (if \<not> is_hex_64 (ln_grant_nonce r) \<or> \<not> is_hex_64 (ln_grant_id r) \<or> ln_attempt_fence r = 0
         \<or> ln_expires_at_unix_ms r = 0 \<or> ln_issued_at r = [] then
        Err (LeStore ''launch grant nonce record is malformed'')
      else Ok ())"

definition classify_stored_nonce ::
    "stored_launch_nonce option \<Rightarrow> string \<Rightarrow> u64 \<Rightarrow> nonce_consumption" where
  "classify_stored_nonce stored attempt now =
     (case stored of
        None \<Rightarrow> NcUnknown
      | Some s \<Rightarrow>
          if ln_attempt_id (sn_record s) \<noteq> attempt then NcUnknown
          else if sn_consumed_at s \<noteq> None then NcReplayed
          else if ln_expires_at_unix_ms (sn_record s) \<le> now then NcExpired
          else NcConsumed)"

section \<open>Package resolution\<close>

record current_package =
  cp_mission :: mission
  cp_plan :: plan_revision
  cp_package :: work_package
  cp_variant :: variant

definition package_from_graph :: "stored_graph \<Rightarrow> string \<Rightarrow> ledger_error + current_package option" where
  "package_from_graph g package =
     (case List.find (\<lambda>row. wp_id row = package) (sg_packages g) of
        None \<Rightarrow> Ok None
      | Some found \<Rightarrow>
          (case filter (\<lambda>v. va_work_package_id v = package) (sg_variants g) of
             [v] \<Rightarrow> Ok (Some \<lparr>cp_mission = sg_mission g, cp_plan = sg_plan g, cp_package = found, cp_variant = v\<rparr>)
           | _ \<Rightarrow> Err (LeStore (''package '' @ package @ '' does not have exactly one variant in graph ''
                   @ mi_id (sg_mission g)))))"

definition not_a_member :: "string \<Rightarrow> string \<Rightarrow> ledger_error" where
  "not_a_member selected package =
     LeDomain (StaleAuthority (''variant '' @ selected @ '' is not a member of work package '' @ package))"

definition package_from_graph_variant ::
    "stored_graph \<Rightarrow> string \<Rightarrow> string \<Rightarrow> ledger_error + current_package option" where
  "package_from_graph_variant g package selected =
     (let matches = filter (\<lambda>v. va_id v = selected) (sg_variants g) in
      if 1 < length matches then
        Err (LeStore (''variant '' @ selected @ '' is duplicated in graph '' @ mi_id (sg_mission g)))
      else
        (case List.find (\<lambda>row. wp_id row = package) (sg_packages g) of
           None \<Rightarrow> Ok None
         | Some found \<Rightarrow>
             (case matches of
                [] \<Rightarrow> Err (not_a_member selected package)
              | v # _ \<Rightarrow>
                  if va_work_package_id v \<noteq> package then Err (not_a_member selected package)
                  else Ok (Some \<lparr>cp_mission = sg_mission g, cp_plan = sg_plan g, cp_package = found,
                                cp_variant = v\<rparr>))))"

definition package_unknown :: "string \<Rightarrow> ledger_error" where
  "package_unknown package =
     LeDomain (StaleAuthority (''work package '' @ package @ '' is not in any current graph''))"

definition incarnation_subject ::
    "attempt option \<Rightarrow> string \<Rightarrow> u64 \<Rightarrow> ledger_error + active_lease_subject" where
  "incarnation_subject stored attempt fence =
     res_bind (ok_or stored (LeDomain (StaleAuthority (''no Attempt '' @ attempt @ '' in the store'')))) (\<lambda>a.
     if at_id a \<noteq> attempt \<or> at_fence a \<noteq> fence then
       Err (LeDomain (StaleAuthority (''Attempt '' @ attempt @ '' fence '' @ show_u fence
         @ '' does not match durable fence '' @ show_u (at_fence a))))
     else Ok (lease_subject_from_attempt a))"

section \<open>Lemmas\<close>

lemma genesis_representable: "authority_new 1 1 (replicate 64 (CHR ''0'')) 1 1 1 0 = Inr genesis"
  by (simp add: genesis_def authority_new_def MAX_SQLITE_INTEGER_def is_lower_hex_def is_ascii_digit_def
      list_all_iff word_less_nat_alt)

lemma genesis_epoch [simp]: "na_authority_epoch genesis = 1"
  using arg_cong [OF genesis_representable, of "na_authority_epoch \<circ> projr"]
  by (simp add: authority_new_def MAX_SQLITE_INTEGER_def is_lower_hex_def is_ascii_digit_def
      list_all_iff word_less_nat_alt)

lemma check_active_lease_snapshot_iff:
  "check_active_lease_snapshot ex l a s now = Inr () \<longleftrightarrow>
     (\<exists>h e n. x_parse_rfc3339 ex (al_heartbeat_at l) = Some h \<and> x_parse_rfc3339 ex (al_expires_at l) = Some e
        \<and> x_parse_rfc3339 ex now = Some n \<and> h \<le> n \<and> n < e)
     \<and> permits_online_lease_check (at_state a) \<and> s = lease_subject_from_attempt a
     \<and> al_variant_id l = at_variant_id a \<and> al_attempt_id l = at_id a \<and> al_fence l = at_fence a
     \<and> al_runner_id l = at_runner_id a \<and> al_runner_epoch l = at_runner_epoch a
     \<and> al_workspace_nonce l = at_workspace_nonce a"
  by (cases "x_parse_rfc3339 ex (al_heartbeat_at l)"; cases "x_parse_rfc3339 ex (al_expires_at l)";
      cases "x_parse_rfc3339 ex now")
    (auto simp: check_active_lease_snapshot_def lease_subject_from_attempt_def ok_or_def)

lemma validate_lease_ttl_iff: "validate_lease_ttl t = Inr u \<longleftrightarrow> u = t \<and> 1 \<le> t \<and> t \<le> 15"
  by (auto simp: validate_lease_ttl_def MAX_LEASE_TTL_SECONDS_def)

lemma capsule_initial_same:
  "capsule_initial ex g p t = Inr c \<Longrightarrow> capsule_initial ex g p t' = Inr c' \<Longrightarrow> same_subject c c'"
  by (auto simp: capsule_initial_def same_subject_def res_bind_Ok_iff split: if_splits)

lemma capsule_initial_fields:
  assumes "capsule_initial ex g p t = Inr c"
  shows "cx_work_package_id c = wp_id p" "cx_mission_id c = mi_id (sg_mission g)" "cx_recorded_at c = t"
  using assms by (auto simp: capsule_initial_def res_bind_Ok_iff split: if_splits)

lemma capsule_initial_valid: "capsule_initial ex g p t = Inr c \<Longrightarrow> capsule_validate ex c = Inr ()"
  by (auto simp: capsule_initial_def capsule_validate_def res_bind_Ok_iff split: if_splits)

lemma capsules_loop_ids:
  "capsules_loop ex g t seen ps = Inr cs \<Longrightarrow>
     map cx_work_package_id cs = map wp_id ps \<and> distinct (map wp_id ps) \<and> (\<forall>p \<in> set ps. wp_id p \<notin> seen)"
  by (induction ps arbitrary: seen cs)
    (fastforce simp: res_bind_Ok_iff capsule_initial_fields split: if_splits)+

lemma capsules_loop_initial:
  "capsules_loop ex g t seen ps = Inr cs \<Longrightarrow> list_all2 (\<lambda>p c. capsule_initial ex g p t = Inr c) ps cs"
  by (induction ps arbitrary: seen cs) (auto simp: res_bind_Ok_iff split: if_splits)

end
