(* ===== verification/Memory_Ledger.thy ===== *)
theory Memory_Ledger
  imports Ledger_Records
begin

text \<open>
  The state of the in-process ledger and its single-row operations: \<^verbatim>\<open>memory/mod.rs\<close>,
  \<^verbatim>\<open>memory/support.rs\<close>, \<^verbatim>\<open>memory/clock.rs\<close>, \<^verbatim>\<open>memory/context.rs\<close>, \<^verbatim>\<open>memory/launch_grant.rs\<close> and
  the nonce and resolution methods of \<^verbatim>\<open>memory/lease_transport.rs\<close> under
  \<^verbatim>\<open>crates/application/src\<close>. Leases, commands, effects and graph deltas have theories of their own.
\<close>

section \<open>State\<close>

record transport_nonce =
  tn_binding :: string
  tn_expires_at_unix_ms :: u64
  tn_consumed :: bool

record memory_ledger =
  ml_commands :: "(string, command_record) btree_map"
  ml_context_capsules :: "(string, context_capsule) btree_map"
  ml_graphs :: "(string, stored_graph) btree_map"
  ml_attempts :: "(string, attempt) btree_map"
  ml_candidates :: "(string, candidate) btree_map"
  ml_evidence :: "(string, evidence) btree_map"
  ml_effects :: "(string, effect) btree_map"
  ml_events :: "ledger_event list"
  ml_leases :: "(string, active_lease) btree_map"
  ml_fences :: "(string, u64) btree_map"
  ml_ready :: "(string, string) btree_map"
  ml_outbox :: "outbox_item list"
  ml_effect_intents :: "(string, effect_intent) btree_map"
  ml_effect_keys :: "(string, string) btree_map"
  ml_effect_receipts :: "effect_receipt list"
  ml_launch_grant_nonces :: "(string, stored_launch_nonce) btree_map"
  ml_lease_transport_grants :: "(string, string) btree_map"
  ml_lease_transport_settlements :: "(string, string) btree_map"
  ml_lease_transport_nonces :: "(string, transport_nonce) btree_map"
  ml_authority_nonces :: "(string, string \<times> bool) btree_map"
  ml_budget_reservations :: "(string, u64) btree_map"
  ml_authority :: "normalized_authority option"
  ml_fail_after_writes :: "u32 option"
  ml_simulation_clock_millis :: int

type_synonym 'a ledger_op = "(memory_ledger, ledger_error, 'a) mut_op"

definition memory_new :: memory_ledger where
  "memory_new = \<lparr>ml_commands = bt_empty, ml_context_capsules = bt_empty, ml_graphs = bt_empty,
     ml_attempts = bt_empty, ml_candidates = bt_empty, ml_evidence = bt_empty, ml_effects = bt_empty,
     ml_events = [], ml_leases = bt_empty, ml_fences = bt_empty, ml_ready = bt_empty, ml_outbox = [],
     ml_effect_intents = bt_empty, ml_effect_keys = bt_empty, ml_effect_receipts = [],
     ml_launch_grant_nonces = bt_empty, ml_lease_transport_grants = bt_empty,
     ml_lease_transport_settlements = bt_empty, ml_lease_transport_nonces = bt_empty,
     ml_authority_nonces = bt_empty, ml_budget_reservations = bt_empty, ml_authority = None,
     ml_fail_after_writes = None, ml_simulation_clock_millis = 0\<rparr>"

section \<open>Support and clock\<close>

definition set_failpoint :: "u32 \<Rightarrow> memory_ledger \<Rightarrow> memory_ledger" where
  "set_failpoint allowed s = s\<lparr>ml_fail_after_writes := Some allowed\<rparr>"

definition injected_failpoint :: ledger_error where
  "injected_failpoint = LeStore ''injected failpoint''"

definition tick :: "unit ledger_op" where
  "tick s =
     (case ml_fail_after_writes s of
        Some n \<Rightarrow>
          if n = 0 then (Err injected_failpoint, s\<lparr>ml_fail_after_writes := None\<rparr>)
          else (Ok (), s\<lparr>ml_fail_after_writes := Some (n - 1)\<rparr>)
      | None \<Rightarrow> (Ok (), s))"

text \<open>\<open>append_only\<close>: the map is the argument, the answer is whether a row was added.\<close>

definition append_only ::
    "(string, 'v) btree_map \<Rightarrow> string \<Rightarrow> 'v \<Rightarrow> string \<Rightarrow> (ledger_error + bool) \<times> (string, 'v) btree_map" where
  "append_only m key v what =
     (case bt_get m key of
        Some existing \<Rightarrow>
          if existing = v then (Ok False, m)
          else (Err (LeDomain (Conflict (what @ '' '' @ key @ '' differs from the stored row''))), m)
      | None \<Rightarrow> (Ok True, bt_insert key v m))"

text \<open>
  The clock starts at 0 and every advance is range-checked, so printing it never panics; printing a
  lease expiry beyond the calendar does.
\<close>

definition simulation_time :: "'x ledger_ext_scheme \<Rightarrow> memory_ledger \<Rightarrow> string" where
  "simulation_time ex s = x_rfc3339 ex (ml_simulation_clock_millis s)"

definition advance_simulation_time :: "'x ledger_ext_scheme \<Rightarrow> u64 \<Rightarrow> unit ledger_op" where
  "advance_simulation_time ex seconds s =
     (case Option.bind (i64_checked (uint seconds)) (\<lambda>sec.
           Option.bind (i64_checked (sec * 1000)) (\<lambda>millis.
             i64_checked (ml_simulation_clock_millis s + millis))) of
        None \<Rightarrow> (Err (LeStore ''simulation clock overflow''), s)
      | Some millis \<Rightarrow>
          if \<not> x_millis_ok ex millis then (Err (LeStore ''simulation clock out of range''), s)
          else (Ok (), s\<lparr>ml_simulation_clock_millis := millis\<rparr>))"

definition lease_window :: "'x ledger_ext_scheme \<Rightarrow> int \<Rightarrow> memory_ledger \<Rightarrow> ledger_error + string \<times> string" where
  "lease_window ex ttl s =
     res_bind (ok_or (Option.bind (i64_checked (ttl * 1000)) (\<lambda>millis.
         i64_checked (ml_simulation_clock_millis s + millis))) (LeStore ''lease expiry overflow'')) (\<lambda>expiry.
     if x_millis_ok ex expiry then Ok (simulation_time ex s, x_rfc3339 ex expiry) else Err LePanic)"

definition push_event ::
    "'x ledger_ext_scheme \<Rightarrow> string \<Rightarrow> string \<Rightarrow> string option \<Rightarrow> string option \<Rightarrow> string option \<Rightarrow>
     memory_ledger \<Rightarrow> memory_ledger" where
  "push_event ex kind body stream correlation token_hash s =
     (let seq = of_nat (length (ml_events s)) + 1;
          event_id = to_hex ex (digest_of ex (''evt:'' @ show_u seq @ '':'' @ kind @ '':'' @ body)) in
      s\<lparr>ml_events := ml_events s @
         [\<lparr>le_seq = seq, le_at = simulation_time ex s, le_kind = kind, le_body = body,
           le_event_id = Some event_id, le_stream_id = stream, le_sequence = Some seq,
           le_causation_id = None, le_correlation_id = correlation,
           le_authority_token_hash = token_hash\<rparr>]\<rparr>)"

section \<open>Context capsules\<close>

fun insert_capsules :: "context_capsule list \<Rightarrow> unit ledger_op" where
  "insert_capsules [] s = (Ok (), s)"
| "insert_capsules (c # cs) s =
     (let s' = s\<lparr>ml_context_capsules := bt_insert (cx_work_package_id c) c (ml_context_capsules s)\<rparr> in
      if bt_contains (ml_context_capsules s) (cx_work_package_id c) then
        (Err (LeStore ''context capsule already exists for work package''), s')
      else insert_capsules cs s')"

definition insert_initial_contexts :: "'x ledger_ext_scheme \<Rightarrow> stored_graph \<Rightarrow> string \<Rightarrow> unit ledger_op" where
  "insert_initial_contexts ex g recorded_at =
     st_bind (st_lift (initial_context_capsules ex g recorded_at)) insert_capsules"

definition contexts_for_mission :: "memory_ledger \<Rightarrow> string \<Rightarrow> context_capsule list" where
  "contexts_for_mission s mission =
     filter (\<lambda>c. cx_mission_id c = mission) (bt_values (ml_context_capsules s))"

definition require_initial_contexts ::
    "'x ledger_ext_scheme \<Rightarrow> stored_graph \<Rightarrow> memory_ledger \<Rightarrow> ledger_error + unit" where
  "require_initial_contexts ex g s =
     validate_initial_context_set ex g (contexts_for_mission s (mi_id (sg_mission g)))"

text \<open>The row count is bounded by memory, so its overflow check of the source cannot fire.\<close>

definition validate_all_initial_contexts :: "'x ledger_ext_scheme \<Rightarrow> memory_ledger \<Rightarrow> ledger_error + unit" where
  "validate_all_initial_contexts ex s =
     res_bind (for_each (\<lambda>g. require_initial_contexts ex g s) (bt_values (ml_graphs s))) (\<lambda>_.
     if sum_list (map (\<lambda>g. length (sg_packages g)) (bt_values (ml_graphs s)))
        \<noteq> bt_len (ml_context_capsules s) then
       Err (LeStore ''context capsule rows exist outside a materialized graph'')
     else Ok ())"

definition require_context_revision ::
    "'x ledger_ext_scheme \<Rightarrow> stored_graph \<Rightarrow> string \<Rightarrow> u64 \<Rightarrow> memory_ledger \<Rightarrow> ledger_error + unit" where
  "require_context_revision ex g package revision s =
     res_bind (require_initial_contexts ex g s) (\<lambda>_.
     if \<not> list_ex (\<lambda>p. wp_id p = package) (sg_packages g) then
       Err (LeDomain (StaleAuthority (''context package '' @ package @ '' is not owned by graph ''
         @ mi_id (sg_mission g))))
     else if revision \<noteq> 1 then
       Err (LeDomain (StaleAuthority (''context revision '' @ show_u revision
         @ '' is not the current revision 1 for '' @ package)))
     else Ok ())"

section \<open>Graphs\<close>

definition put_graph :: "stored_graph \<Rightarrow> unit ledger_op" where
  "put_graph g =
     st_bind tick (\<lambda>_ s.
       let key = mi_id (sg_mission g) in
       if \<not> bt_contains (ml_graphs s) key then
         (Err (LeStore (''graph '' @ key @ '' was never materialized'')), s)
       else (Ok (), s\<lparr>ml_graphs := bt_insert key g (ml_graphs s)\<rparr>))"

definition get_graph :: "memory_ledger \<Rightarrow> string \<Rightarrow> stored_graph option" where
  "get_graph s mission = bt_get (ml_graphs s) mission"

definition list_missions :: "memory_ledger \<Rightarrow> mission list" where
  "list_missions s = map sg_mission (bt_values (ml_graphs s))"

text \<open>The permanent fence rows and the ready rows a new graph brings.\<close>

definition open_fences :: "variant list \<Rightarrow> (string, u64) btree_map \<Rightarrow> (string, u64) btree_map" where
  "open_fences vs fences = fold (\<lambda>v. bt_or_insert (va_id v) 0) vs fences"

definition open_ready :: "string \<Rightarrow> work_package list \<Rightarrow> (string, string) btree_map \<Rightarrow> (string, string) btree_map" where
  "open_ready now ps ready =
     fold (\<lambda>p r. if wp_state p = WpReady then bt_or_insert (wp_id p) now r else r) ps ready"

definition materialize_graph :: "'x ledger_ext_scheme \<Rightarrow> stored_graph \<Rightarrow> string \<Rightarrow> unit ledger_op" where
  "materialize_graph ex g now =
     st_bind tick (\<lambda>_ s.
       let key = mi_id (sg_mission g) in
       if bt_contains (ml_graphs s) key then
         (Err (LeDomain (Conflict (''graph '' @ key @ '' already materialized''))), s)
       else
         (case initial_context_capsules ex g now of
            Inl e \<Rightarrow> (Err e, s)
          | Inr capsules \<Rightarrow>
              if list_ex (\<lambda>c. bt_contains (ml_context_capsules s) (cx_work_package_id c)) capsules then
                (Err (LeStore ''context capsule already exists for work package''), s)
              else
                (Ok (), push_event ex ''graph_materialized'' key (Some key) None None
                  (s\<lparr>ml_graphs := bt_insert key g (ml_graphs s),
                     ml_context_capsules :=
                       fold (\<lambda>c. bt_insert (cx_work_package_id c) c) capsules (ml_context_capsules s),
                     ml_fences := open_fences (sg_variants g) (ml_fences s),
                     ml_ready := open_ready now (sg_packages g) (ml_ready s)\<rparr>))))"

section \<open>Attempts, candidates, evidence, effects, events\<close>

definition active_attempt :: "memory_ledger \<Rightarrow> string \<Rightarrow> attempt option" where
  "active_attempt s package =
     List.find (\<lambda>a. at_work_package_id a = package \<and> appears_in_active_attempt_projection (at_state a))
       (bt_values (ml_attempts s))"

definition list_attempts :: "memory_ledger \<Rightarrow> string \<Rightarrow> attempt list" where
  "list_attempts s mission =
     (case bt_get (ml_graphs s) mission of
        None \<Rightarrow> []
      | Some g \<Rightarrow>
          filter (\<lambda>a. list_ex (\<lambda>v. va_id v = at_variant_id a) (sg_variants g)) (bt_values (ml_attempts s)))"

definition put_candidate :: "candidate \<Rightarrow> bool ledger_op" where
  "put_candidate c =
     st_bind tick (\<lambda>_ s.
       let (r, m) = append_only (ml_candidates s) (ca_id c) c ''candidate'' in (r, s\<lparr>ml_candidates := m\<rparr>))"

definition put_evidence :: "evidence \<Rightarrow> bool ledger_op" where
  "put_evidence e =
     st_bind tick (\<lambda>_ s.
       let (r, m) = append_only (ml_evidence s) (ev_id e) e ''evidence'' in (r, s\<lparr>ml_evidence := m\<rparr>))"

definition put_effect :: "effect \<Rightarrow> bool ledger_op" where
  "put_effect e =
     st_bind tick (\<lambda>_ s.
       let (r, m) = append_only (ml_effects s) (ef_id e) e ''effect'' in (r, s\<lparr>ml_effects := m\<rparr>))"

definition append_event :: "'x ledger_ext_scheme \<Rightarrow> string \<Rightarrow> string \<Rightarrow> unit ledger_op" where
  "append_event ex kind body =
     st_bind tick (\<lambda>_ s. (Ok (), push_event ex kind body None None None s))"

definition list_events_after :: "memory_ledger \<Rightarrow> u64 \<Rightarrow> nat \<Rightarrow> ledger_event list" where
  "list_events_after s after limit = take limit (filter (\<lambda>e. after < le_seq e) (ml_events s))"

definition latest_event_sequence :: "memory_ledger \<Rightarrow> u64" where
  "latest_event_sequence s = (if ml_events s = [] then 0 else le_seq (last (ml_events s)))"

section \<open>Ready rows and outbox\<close>

fun parse_ready :: "(string \<times> string) list \<Rightarrow> ledger_error + ready_row list" where
  "parse_ready [] = Ok []"
| "parse_ready ((key, at) # rows) =
     res_bind (from_domain (typed_id_parse ''wpk'' key)) (\<lambda>id.
     res_bind (parse_ready rows) (\<lambda>out. Ok (\<lparr>rr_work_package_id = id, rr_enqueued_at = at\<rparr> # out)))"

definition ready_rows :: "memory_ledger \<Rightarrow> ledger_error + ready_row list" where
  "ready_rows s = parse_ready (bt_entries (ml_ready s))"

definition enqueue_ready :: "string \<Rightarrow> string \<Rightarrow> unit ledger_op" where
  "enqueue_ready package now =
     st_bind tick (\<lambda>_ s. (Ok (), s\<lparr>ml_ready := bt_or_insert package now (ml_ready s)\<rparr>))"

definition outbox_pending :: "memory_ledger \<Rightarrow> outbox_item list" where
  "outbox_pending s = filter (\<lambda>i. ob_phase i = CpPending \<or> ob_phase i = CpApplied) (ml_outbox s)"

definition outbox_for_command :: "memory_ledger \<Rightarrow> string \<Rightarrow> outbox_item list" where
  "outbox_for_command s command = filter (\<lambda>i. ob_command_id i = Some command) (ml_outbox s)"

definition mark_item :: "command_phase \<Rightarrow> string \<Rightarrow> outbox_item \<Rightarrow> outbox_item" where
  "mark_item phase now i =
     (let i = i\<lparr>ob_phase := phase\<rparr> in
      case phase of
        CpApplied \<Rightarrow> i\<lparr>ob_delivered_at := Some now\<rparr>
      | CpVerified \<Rightarrow> i\<lparr>ob_acked_at := Some now\<rparr>
      | CpFailed \<Rightarrow> i\<lparr>ob_acked_at := Some now\<rparr>
      | CpUnknown \<Rightarrow> i\<lparr>ob_acked_at := Some now\<rparr>
      | CpPending \<Rightarrow> i)"

text \<open>\<open>iter_mut().find(..)\<close>: the first row that matches is changed.\<close>

fun update_first :: "('a \<Rightarrow> bool) \<Rightarrow> ('a \<Rightarrow> 'a) \<Rightarrow> 'a list \<Rightarrow> 'a list option" where
  "update_first P f [] = None"
| "update_first P f (x # xs) =
     (if P x then Some (f x # xs) else map_option ((#) x) (update_first P f xs))"

definition outbox_mark :: "u64 \<Rightarrow> command_phase \<Rightarrow> string \<Rightarrow> unit ledger_op" where
  "outbox_mark seq phase now =
     st_bind tick (\<lambda>_ s.
       case update_first (\<lambda>i. ob_seq i = seq) (mark_item phase now) (ml_outbox s) of
         None \<Rightarrow> (Err (LeStore (''unknown outbox seq '' @ show_u seq)), s)
       | Some items \<Rightarrow> (Ok (), s\<lparr>ml_outbox := items\<rparr>))"

definition current_authority :: "memory_ledger \<Rightarrow> normalized_authority" where
  "current_authority s = (case ml_authority s of Some a \<Rightarrow> a | None \<Rightarrow> genesis)"

section \<open>Launch-grant and transport nonces\<close>

definition record_launch_grant_nonce :: "launch_nonce_record \<Rightarrow> unit ledger_op" where
  "record_launch_grant_nonce r =
     st_bind (st_lift (launch_nonce_validate r)) (\<lambda>_.
     st_bind tick (\<lambda>_ s.
       if bt_contains (ml_launch_grant_nonces s) (ln_grant_nonce r)
          \<or> list_ex (\<lambda>n. ln_grant_id (sn_record n) = ln_grant_id r) (bt_values (ml_launch_grant_nonces s)) then
         (Err (LeDomain (Conflict (''launch grant '' @ ln_grant_id r @ '' nonce already persisted''))), s)
       else
         (Ok (), s\<lparr>ml_launch_grant_nonces :=
            bt_insert (ln_grant_nonce r) \<lparr>sn_record = r, sn_consumed_at = None\<rparr> (ml_launch_grant_nonces s)\<rparr>)))"

definition consume_launch_grant_nonce ::
    "'x ledger_ext_scheme \<Rightarrow> string \<Rightarrow> string \<Rightarrow> nonce_consumption ledger_op" where
  "consume_launch_grant_nonce ex nonce attempt =
     st_bind tick (\<lambda>_ s.
       if ml_simulation_clock_millis s < 0 then (Err (LeStore ''simulation clock precedes the epoch''), s)
       else
         let now = word_of_int (ml_simulation_clock_millis s);
             outcome = classify_stored_nonce (bt_get (ml_launch_grant_nonces s) nonce) attempt now in
         case bt_get (ml_launch_grant_nonces s) nonce of
           Some stored \<Rightarrow>
             if outcome = NcConsumed then
               (Ok outcome, s\<lparr>ml_launch_grant_nonces :=
                  bt_insert nonce (stored\<lparr>sn_consumed_at := Some (simulation_time ex s)\<rparr>)
                    (ml_launch_grant_nonces s)\<rparr>)
             else (Ok outcome, s)
         | None \<Rightarrow> (Ok outcome, s))"

definition reserve_transport_nonce :: "string \<Rightarrow> string \<Rightarrow> u64 \<Rightarrow> unit ledger_op" where
  "reserve_transport_nonce nonce binding expires s =
     (if bt_contains (ml_lease_transport_nonces s) nonce then
        (Err (LeStore ''lease-transport nonce already reserved''), s)
      else (Ok (), s\<lparr>ml_lease_transport_nonces := bt_insert nonce
              \<lparr>tn_binding = binding, tn_expires_at_unix_ms = expires, tn_consumed = False\<rparr>
              (ml_lease_transport_nonces s)\<rparr>))"

definition consume_transport_nonce :: "string \<Rightarrow> string \<Rightarrow> u64 \<Rightarrow> nonce_consumption ledger_op" where
  "consume_transport_nonce nonce binding now s =
     (case bt_get (ml_lease_transport_nonces s) nonce of
        None \<Rightarrow> (Ok NcUnknown, s)
      | Some r \<Rightarrow>
          if tn_binding r \<noteq> binding then (Ok NcUnknown, s)
          else if tn_consumed r then (Ok NcReplayed, s)
          else if tn_expires_at_unix_ms r \<le> now then (Ok NcExpired, s)
          else (Ok NcConsumed, s\<lparr>ml_lease_transport_nonces :=
                  bt_insert nonce (r\<lparr>tn_consumed := True\<rparr>) (ml_lease_transport_nonces s)\<rparr>))"

fun resolve_in :: "(stored_graph \<Rightarrow> ledger_error + current_package option) \<Rightarrow> string \<Rightarrow> stored_graph list \<Rightarrow>
    ledger_error + current_package" where
  "resolve_in locate package [] = Err (package_unknown package)"
| "resolve_in locate package (g # gs) =
     res_bind (locate g) (\<lambda>found.
       case found of Some c \<Rightarrow> Ok c | None \<Rightarrow> resolve_in locate package gs)"

definition resolve_package :: "memory_ledger \<Rightarrow> string \<Rightarrow> ledger_error + current_package" where
  "resolve_package s package =
     resolve_in (\<lambda>g. package_from_graph g package) package (bt_values (ml_graphs s))"

definition resolve_variant :: "memory_ledger \<Rightarrow> string \<Rightarrow> string \<Rightarrow> ledger_error + current_package" where
  "resolve_variant s package variant =
     resolve_in (\<lambda>g. package_from_graph_variant g package variant) package (bt_values (ml_graphs s))"

section \<open>Transactions\<close>

text \<open>
  The shape the multi-row commands share: the closure runs on the live maps, and an error restores
  the clone taken before it, except for the failpoint counter.
\<close>

definition transaction :: "'a ledger_op \<Rightarrow> 'a ledger_op" where
  "transaction body start =
     (case body start of
        (Inr a, s) \<Rightarrow> (Ok a, s)
      | (Inl e, s) \<Rightarrow> (Err e, start\<lparr>ml_fail_after_writes := ml_fail_after_writes s\<rparr>))"

text \<open>Equality of two ledgers up to the injected-failure counter.\<close>

definition same_rows :: "memory_ledger \<Rightarrow> memory_ledger \<Rightarrow> bool" where
  "same_rows s t \<longleftrightarrow> t\<lparr>ml_fail_after_writes := None\<rparr> = s\<lparr>ml_fail_after_writes := None\<rparr>"

section \<open>Lemmas\<close>

lemma same_rows_iff: "same_rows s t \<longleftrightarrow> (\<exists>n. t = s\<lparr>ml_fail_after_writes := n\<rparr>)"
  by (cases s; cases t) (auto simp: same_rows_def)

lemma same_rows_refl [simp]: "same_rows s s"
  by (simp add: same_rows_def)

lemma same_rows_failpoint [simp]: "same_rows s (s\<lparr>ml_fail_after_writes := n\<rparr>)"
  by (simp add: same_rows_def)

lemma tick_same: "same_rows s (snd (tick s))"
  by (simp add: tick_def split: option.splits)

lemma tick_Ok:
  assumes "tick s = (Inr u, t)"
  obtains n where "t = s\<lparr>ml_fail_after_writes := n\<rparr>"
  using tick_same [of s] assms by (auto simp: same_rows_iff)

lemma tick_Err:
  assumes "tick s = (Inl e, t)"
  shows "e = injected_failpoint" "ml_fail_after_writes s = Some 0" "t = s\<lparr>ml_fail_after_writes := None\<rparr>"
  using assms by (auto simp: tick_def split: option.splits if_splits)

lemma tick_no_failpoint: "ml_fail_after_writes s = None \<Longrightarrow> tick s = (Inr (), s)"
  by (simp add: tick_def)

lemma transaction_Err: "transaction body s = (Inl e, t) \<Longrightarrow> same_rows s t"
  by (auto simp: transaction_def split: prod.splits sum.splits)

lemma transaction_Ok: "transaction body s = (Inr a, t) \<longleftrightarrow> body s = (Inr a, t)"
  by (auto simp: transaction_def split: prod.splits sum.splits)

text \<open>
  A projection of the state that an operation leaves alone. \<open>keeps f m\<close> composes over sequencing, so
  the frame of each operation follows from the frames of its parts.
\<close>

definition keeps :: "(memory_ledger \<Rightarrow> 'v) \<Rightarrow> 'a ledger_op \<Rightarrow> bool" where
  "keeps f m \<longleftrightarrow> (\<forall>s. f (snd (m s)) = f s)"

named_theorems keeps_intros \<open>frame rules\<close>

lemma keepsD: "keeps f m \<Longrightarrow> m s = (r, t) \<Longrightarrow> f t = f s"
  by (metis keeps_def snd_conv)

lemma keeps_bind [keeps_intros]:
  "keeps f m \<Longrightarrow> (\<And>a. keeps f (k a)) \<Longrightarrow> keeps f (st_bind m k)"
  by (auto simp: keeps_def st_bind_def split: prod.splits sum.splits) (metis snd_conv)+

lemma keeps_pure [keeps_intros]:
  "keeps f (st_lift r)" "keeps f (st_get g)" "keeps f (st_ok a)" "keeps f (st_err e)"
  by (simp_all add: keeps_def result_simps)

lemma keeps_modify [keeps_intros]: "(\<And>s. f (g s) = f s) \<Longrightarrow> keeps f (st_modify g)"
  by (simp add: keeps_def result_simps)

lemma keeps_tick: "(\<And>s n. f (s\<lparr>ml_fail_after_writes := n\<rparr>) = f s) \<Longrightarrow> keeps f tick"
  by (simp add: keeps_def tick_def split: option.splits)

lemma keeps_transaction:
  "(\<And>s n. f (s\<lparr>ml_fail_after_writes := n\<rparr>) = f s) \<Longrightarrow> keeps f m \<Longrightarrow> keeps f (transaction m)"
  by (auto simp: keeps_def transaction_def split: prod.splits sum.splits) (metis snd_conv)+

lemma bt_get_insert_fun: "bt_get (bt_insert k v m) = (bt_get m)(k \<mapsto> v)"
  by (simp add: fun_eq_iff)

lemma bt_get_remove_fun: "bt_get (bt_remove k m) = (bt_get m)(k := None)"
  by (simp add: fun_eq_iff)

lemma bt_get_open_fences:
  "bt_get (open_fences vs m) k =
     (case bt_get m k of Some f \<Rightarrow> Some f | None \<Rightarrow> if k \<in> va_id ` set vs then Some 0 else None)"
  by (induction vs arbitrary: m) (auto simp: open_fences_def bt_contains_def split: option.splits)

lemma append_only_keeps_rows:
  "append_only m k v what = (r, m') \<Longrightarrow> bt_get m j = Some w \<Longrightarrow> bt_get m' j = Some w"
  by (auto simp: append_only_def split: option.splits if_splits)

lemma append_only_Ok: "append_only m k v what = (Inr b, m') \<Longrightarrow> bt_get m' k = Some v"
  by (auto simp: append_only_def split: option.splits if_splits)

end
