(* ===== verification/Lease_Protocol.thy ===== *)
theory Lease_Protocol
  imports Ledger_Records
begin

text \<open>
  The abstract fencing protocol the lease operations implement. A view is what the ledger knows of
  writers: the lease of each variant, the attempts, and the permanent fence of each variant. Only a
  grant raises a fence; every other step is quiet. The invariants are proved here once, by rule
  induction, for every run; \<^verbatim>\<open>Memory_Leases\<close> shows that the ledger's operations are such runs.
\<close>

section \<open>Views and steps\<close>

record lease_view =
  lv_leases :: "string \<Rightarrow> active_lease option"
  lv_attempts :: "string \<Rightarrow> attempt option"
  lv_fences :: "string \<Rightarrow> u64 option"

definition fence_of :: "lease_view \<Rightarrow> string \<Rightarrow> u64" where
  "fence_of v x = (case lv_fences v x of Some f \<Rightarrow> f | None \<Rightarrow> 0)"

definition lease_agrees :: "active_lease \<Rightarrow> attempt \<Rightarrow> bool" where
  "lease_agrees l a \<longleftrightarrow> al_variant_id l = at_variant_id a \<and> al_attempt_id l = at_id a \<and> al_fence l = at_fence a
     \<and> al_runner_id l = at_runner_id a \<and> al_runner_epoch l = at_runner_epoch a
     \<and> al_workspace_nonce l = at_workspace_nonce a"

definition same_incarnation :: "attempt \<Rightarrow> attempt \<Rightarrow> bool" where
  "same_incarnation a b \<longleftrightarrow> at_id a = at_id b \<and> at_variant_id a = at_variant_id b
     \<and> at_work_package_id a = at_work_package_id b \<and> at_fence a = at_fence b
     \<and> at_runner_id a = at_runner_id b \<and> at_runner_epoch a = at_runner_epoch b
     \<and> at_workspace_id a = at_workspace_id b \<and> at_workspace_nonce a = at_workspace_nonce b"

definition same_tenure :: "active_lease \<Rightarrow> active_lease \<Rightarrow> bool" where
  "same_tenure l m \<longleftrightarrow> al_variant_id l = al_variant_id m \<and> al_attempt_id l = al_attempt_id m
     \<and> al_fence l = al_fence m \<and> al_runner_id l = al_runner_id m \<and> al_runner_epoch l = al_runner_epoch m
     \<and> al_workspace_nonce l = al_workspace_nonce m \<and> al_ttl_seconds l = al_ttl_seconds m"

definition legal_state_change :: "attempt_state \<Rightarrow> attempt_state \<Rightarrow> bool" where
  "legal_state_change s t \<longleftrightarrow> t = s \<or> attempt_transition s t = Inr t"

inductive grant_step :: "lease_view \<Rightarrow> lease_view \<Rightarrow> bool" where
  grant: "\<lbrakk>lv_leases v x = None; lv_attempts v (at_id a) = None; at_variant_id a = x;
      at_fence a = fence_of v x + 1; at_state a = AsStarting; lease_agrees l a\<rbrakk> \<Longrightarrow>
    grant_step v (v\<lparr>lv_leases := (lv_leases v)(x \<mapsto> l), lv_attempts := (lv_attempts v)(at_id a \<mapsto> a),
      lv_fences := (lv_fences v)(x \<mapsto> at_fence a)\<rparr>)"

inductive quiet_step :: "lease_view \<Rightarrow> lease_view \<Rightarrow> bool" where
  renew: "\<lbrakk>lv_leases v x = Some l; same_tenure l l'\<rbrakk> \<Longrightarrow>
    quiet_step v (v\<lparr>lv_leases := (lv_leases v)(x \<mapsto> l')\<rparr>)"
| retire: "\<lbrakk>lv_leases v x = Some l; lv_attempts v (al_attempt_id l) = Some a;
      attempt_transition (at_state a) st = Inr st; is_terminal_release_target st\<rbrakk> \<Longrightarrow>
    quiet_step v (v\<lparr>lv_leases := (lv_leases v)(x := None),
      lv_attempts := (lv_attempts v)(al_attempt_id l \<mapsto> a\<lparr>at_state := st\<rparr>)\<rparr>)"
| adjust: "\<lbrakk>lv_attempts v (at_id b) = Some a; same_incarnation a b;
      legal_state_change (at_state a) (at_state b)\<rbrakk> \<Longrightarrow>
    quiet_step v (v\<lparr>lv_attempts := (lv_attempts v)(at_id b \<mapsto> b)\<rparr>)"
| open_fence: "lv_fences v x = None \<Longrightarrow>
    quiet_step v (v\<lparr>lv_fences := (lv_fences v)(x \<mapsto> 0)\<rparr>)"

text \<open>A run, counting its grants.\<close>

inductive lease_run :: "nat \<Rightarrow> lease_view \<Rightarrow> lease_view \<Rightarrow> bool" where
  start: "lease_run 0 v v"
| granted: "lease_run n u v \<Longrightarrow> grant_step v w \<Longrightarrow> lease_run (Suc n) u w"
| quiet: "lease_run n u v \<Longrightarrow> quiet_step v w \<Longrightarrow> lease_run n u w"

lemma lease_run_trans: "lease_run m v w \<Longrightarrow> lease_run n u v \<Longrightarrow> lease_run (n + m) u w"
proof (induction rule: lease_run.induct)
  case (granted k v w x)
  then show ?case by (metis add_Suc_right lease_run.granted)
qed (auto intro: lease_run.quiet)

lemma lease_run_quiet: "quiet_step v w \<Longrightarrow> lease_run 0 v w"
  by (rule lease_run.quiet [OF lease_run.start])

lemma lease_run_grant: "grant_step v w \<Longrightarrow> lease_run 1 v w"
  using lease_run.granted [OF lease_run.start] by simp

section \<open>Invariant\<close>

definition view_empty :: lease_view where
  "view_empty = \<lparr>lv_leases = (\<lambda>_. None), lv_attempts = (\<lambda>_. None), lv_fences = (\<lambda>_. None)\<rparr>"

text \<open>What holds after at most \<open>n\<close> grants, one field per fact.\<close>

definition keys_ok :: "lease_view \<Rightarrow> bool" where
  "keys_ok v \<longleftrightarrow> (\<forall>k a. lv_attempts v k = Some a \<longrightarrow> at_id a = k)"

definition holders_ok :: "lease_view \<Rightarrow> bool" where
  "holders_ok v \<longleftrightarrow> (\<forall>x l. lv_leases v x = Some l \<longrightarrow>
     al_variant_id l = x \<and> lv_fences v x = Some (al_fence l) \<and>
     (\<exists>a. lv_attempts v (al_attempt_id l) = Some a \<and> lease_agrees l a))"

definition fences_ok :: "nat \<Rightarrow> lease_view \<Rightarrow> bool" where
  "fences_ok n v \<longleftrightarrow> (\<forall>x f. lv_fences v x = Some f \<longrightarrow> unat f \<le> n) \<and>
     (\<forall>k a. lv_attempts v k = Some a \<longrightarrow>
        0 < unat (at_fence a) \<and> unat (at_fence a) \<le> unat (fence_of v (at_variant_id a)))"

definition incarnations_ok :: "lease_view \<Rightarrow> bool" where
  "incarnations_ok v \<longleftrightarrow> (\<forall>k a j b. lv_attempts v k = Some a \<and> lv_attempts v j = Some b \<and>
     at_variant_id a = at_variant_id b \<and> at_fence a = at_fence b \<longrightarrow> k = j)"

definition lease_inv :: "nat \<Rightarrow> lease_view \<Rightarrow> bool" where
  "lease_inv n v \<longleftrightarrow> keys_ok v \<and> holders_ok v \<and> fences_ok n v \<and> incarnations_ok v"

lemma lease_invD:
  assumes "lease_inv n v"
  shows "lv_attempts v k = Some a \<Longrightarrow> at_id a = k"
    and "lv_leases v x = Some l \<Longrightarrow> al_variant_id l = x \<and> lv_fences v x = Some (al_fence l) \<and>
       (\<exists>a. lv_attempts v (al_attempt_id l) = Some a \<and> lease_agrees l a)"
    and "lv_fences v x = Some f \<Longrightarrow> unat f \<le> n"
    and "lv_attempts v k = Some a \<Longrightarrow> 0 < unat (at_fence a) \<and> unat (at_fence a) \<le> unat (fence_of v (at_variant_id a))"
    and "lv_attempts v k = Some a \<Longrightarrow> lv_attempts v j = Some b \<Longrightarrow> at_variant_id a = at_variant_id b \<Longrightarrow>
       at_fence a = at_fence b \<Longrightarrow> k = j"
  using assms unfolding lease_inv_def keys_ok_def holders_ok_def fences_ok_def incarnations_ok_def
  by blast+

lemma lease_inv_empty: "lease_inv 0 view_empty"
  by (simp add: lease_inv_def keys_ok_def holders_ok_def fences_ok_def incarnations_ok_def view_empty_def)

text \<open>A grant outbids every fence of its variant.\<close>

lemma grant_fence:
  assumes "lease_inv n v" and "n < 2 ^ 64 - 1"
  shows "unat (fence_of v x + 1) = Suc (unat (fence_of v x))"
proof -
  have "unat (fence_of v x) \<le> n"
    using lease_invD(3) [OF assms(1)] by (auto simp: fence_of_def split: option.splits)
  with assms(2) have "unat (fence_of v x) < 2 ^ 64 - 1" by simp
  then have "unat (fence_of v x) + unat (1 :: u64) < 2 ^ 64" by simp
  then show ?thesis by (subst unat_add_lem [THEN iffD1]) simp_all
qed

lemma grant_keeps_inv:
  assumes "grant_step v w" and inv: "lease_inv n v" and n: "n < 2 ^ 64 - 1"
  shows "lease_inv (Suc n) w"
  using assms(1)
proof cases
  case (grant x a l)
  note w = grant(1) and new = grant(2,3,4,5,7)
  have up: "unat (at_fence a) = Suc (unat (fence_of v x))"
    using grant_fence [OF inv n] new(4) by simp
  have f_of: "fence_of w y = (if y = x then at_fence a else fence_of v y)" for y
    by (simp add: w fence_of_def)
  have "keys_ok w" using lease_invD(1) [OF inv] by (auto simp: keys_ok_def w)
  moreover have "holders_ok w"
    unfolding holders_ok_def
  proof (intro allI impI)
    fix y m assume "lv_leases w y = Some m"
    then consider "y = x" "m = l" | "y \<noteq> x" "lv_leases v y = Some m"
      by (auto simp: w split: if_splits)
    then show "al_variant_id m = y \<and> lv_fences w y = Some (al_fence m) \<and>
      (\<exists>b. lv_attempts w (al_attempt_id m) = Some b \<and> lease_agrees m b)"
    proof cases
      case 1
      with new(3,5) show ?thesis by (auto simp: w lease_agrees_def)
    next
      case 2
      with lease_invD(2) [OF inv 2(2)] new(2) show ?thesis by (auto simp: w)
    qed
  qed
  moreover have "fences_ok (Suc n) w"
  proof -
    have "unat (fence_of v x) \<le> n"
      using lease_invD(3) [OF inv] by (auto simp: fence_of_def split: option.splits)
    then have "unat f \<le> Suc n" if "lv_fences w y = Some f" for y f
      using that up lease_invD(3) [OF inv] by (fastforce simp: w split: if_splits)
    moreover have "0 < unat (at_fence b) \<and> unat (at_fence b) \<le> unat (fence_of w (at_variant_id b))"
      if "lv_attempts w k = Some b" for k b
      using that up new(3) lease_invD(4) [OF inv, of k b] unfolding f_of by (auto simp: w split: if_splits)
    ultimately show ?thesis by (simp add: fences_ok_def)
  qed
  moreover have "incarnations_ok w"
  proof -
    have fresh: "at_fence b \<noteq> at_fence a" if "lv_attempts v k = Some b" "at_variant_id b = x" for k b
      using lease_invD(4) [OF inv that(1)] that(2) up by auto
    have "k = j" if "lv_attempts w k = Some b" "lv_attempts w j = Some c" "at_variant_id b = at_variant_id c"
      "at_fence b = at_fence c" for k j b c
      using that fresh [of k b] fresh [of j c] new(3) lease_invD(5) [OF inv, of k b j c]
      by (auto simp: w split: if_splits)
    then show ?thesis unfolding incarnations_ok_def by blast
  qed
  ultimately show ?thesis by (simp add: lease_inv_def)
qed

text \<open>
  A quiet step changes no incarnation: the identities, fences and holders of the attempts it leaves
  are the ones it found.
\<close>

lemma attempts_same_keep_inv:
  assumes inv: "lease_inv n v"
    and same: "\<And>k b. att k = Some b \<Longrightarrow> \<exists>a. lv_attempts v k = Some a \<and> same_incarnation a b"
    and total: "\<And>k. lv_attempts v k \<noteq> None \<Longrightarrow> att k \<noteq> None"
    and leases: "\<And>y m. lse y = Some m \<Longrightarrow>
       \<exists>l. lv_leases v y = Some l \<and> same_tenure l m"
  shows "lease_inv n (v\<lparr>lv_leases := lse, lv_attempts := att\<rparr>)"
proof -
  let ?w = "v\<lparr>lv_leases := lse, lv_attempts := att\<rparr>"
  have f_of: "fence_of ?w y = fence_of v y" for y by (simp add: fence_of_def)
  have "keys_ok ?w"
    using same lease_invD(1) [OF inv] by (fastforce simp: keys_ok_def same_incarnation_def)
  moreover have "holders_ok ?w"
    unfolding holders_ok_def
  proof (intro allI impI)
    fix y m assume "lv_leases ?w y = Some m"
    then obtain l where l: "lv_leases v y = Some l" "same_tenure l m" using leases by auto
    then obtain a where a: "lv_attempts v (al_attempt_id l) = Some a" "lease_agrees l a"
      and base: "al_variant_id l = y" "lv_fences v y = Some (al_fence l)"
      using lease_invD(2) [OF inv] by blast
    then obtain b where "att (al_attempt_id l) = Some b" using total by force
    moreover from this same a(1) have "same_incarnation a b" by fastforce
    ultimately show "al_variant_id m = y \<and> lv_fences ?w y = Some (al_fence m) \<and>
      (\<exists>b. lv_attempts ?w (al_attempt_id m) = Some b \<and> lease_agrees m b)"
      using a(2) base l(2) by (auto simp: lease_agrees_def same_incarnation_def same_tenure_def)
  qed
  moreover have "fences_ok n ?w"
  proof -
    have "0 < unat (at_fence b) \<and> unat (at_fence b) \<le> unat (fence_of v (at_variant_id b))"
      if "att k = Some b" for k b
    proof -
      from same [OF that] obtain a where a: "lv_attempts v k = Some a" "same_incarnation a b" by blast
      with lease_invD(4) [OF inv a(1)] show ?thesis by (simp add: same_incarnation_def)
    qed
    with lease_invD(3) [OF inv] show ?thesis by (simp add: fences_ok_def f_of)
  qed
  moreover have "incarnations_ok ?w"
    unfolding incarnations_ok_def
  proof (intro allI impI, elim conjE)
    fix k b j c
    assume asm: "lv_attempts ?w k = Some b" "lv_attempts ?w j = Some c"
      "at_variant_id b = at_variant_id c" "at_fence b = at_fence c"
    from same [of k b] same [of j c] asm obtain a d
      where "lv_attempts v k = Some a" "same_incarnation a b" "lv_attempts v j = Some d" "same_incarnation d c"
      by auto
    with asm show "k = j" using lease_invD(5) [OF inv] by (simp add: same_incarnation_def)
  qed
  ultimately show ?thesis by (simp add: lease_inv_def)
qed

lemma same_incarnation_refl [simp]: "same_incarnation a a" "same_incarnation a (a\<lparr>at_state := st\<rparr>)"
  by (simp_all add: same_incarnation_def)

lemma same_tenure_refl [simp]: "same_tenure l l"
  by (simp add: same_tenure_def)

lemma quiet_keeps_inv:
  assumes "quiet_step v w" and inv: "lease_inv n v"
  shows "lease_inv n w"
  using assms(1)
proof cases
  case (renew x l l')
  have "lease_inv n (v\<lparr>lv_leases := (lv_leases v)(x \<mapsto> l'), lv_attempts := lv_attempts v\<rparr>)"
    using renew by (intro attempts_same_keep_inv [OF inv]) (auto split: if_splits)
  with renew(1) show ?thesis by simp
next
  case (retire x l a st)
  from retire(1,3) show ?thesis
    by (auto intro!: attempts_same_keep_inv [OF inv] split: if_splits)
next
  case (adjust b a)
  have "lease_inv n (v\<lparr>lv_leases := lv_leases v, lv_attempts := (lv_attempts v)(at_id b \<mapsto> b)\<rparr>)"
    using adjust by (intro attempts_same_keep_inv [OF inv]) (auto split: if_splits)
  with adjust(1) show ?thesis by simp
next
  case (open_fence x)
  have "fence_of w y = fence_of v y" for y using open_fence by (simp add: fence_of_def)
  with inv open_fence show ?thesis
    by (auto simp: lease_inv_def keys_ok_def holders_ok_def fences_ok_def incarnations_ok_def)
qed

lemma lease_run_inv: "lease_run n u v \<Longrightarrow> lease_inv m u \<Longrightarrow> m + n < 2 ^ 64 \<Longrightarrow> lease_inv (m + n) v"
proof (induction rule: lease_run.induct)
  case (granted n u v w)
  then have "lease_inv (m + n) v" by simp
  with granted.hyps(2) granted.prems(2) show ?case using grant_keeps_inv [of v w "m + n"] by simp
qed (auto intro: quiet_keeps_inv)

section \<open>Consequences for every run\<close>

text \<open>
  The holder of a variant's lease is its newest incarnation, and no other attempt of the variant has
  its fence.
\<close>

lemma holder_is_newest:
  assumes inv: "lease_inv n v" and "lv_leases v x = Some l" and "lv_attempts v k = Some b"
    and "at_variant_id b = x"
  shows "at_fence b \<le> al_fence l" and "at_fence b = al_fence l \<Longrightarrow> k = al_attempt_id l"
proof -
  from lease_invD(2) [OF inv assms(2)] obtain a where a: "lv_attempts v (al_attempt_id l) = Some a"
    "lease_agrees l a" and f: "lv_fences v x = Some (al_fence l)" and vx: "al_variant_id l = x" by blast
  show "at_fence b \<le> al_fence l"
    using lease_invD(4) [OF inv assms(3)] assms(4) f by (simp add: fence_of_def word_le_nat_alt)
  show "k = al_attempt_id l" if "at_fence b = al_fence l"
    using lease_invD(5) [OF inv assms(3) a(1)] a(2) vx assms(4) that by (simp add: lease_agrees_def)
qed

text \<open>A fence never goes back, and an attempt never disappears or changes its incarnation.\<close>

definition incarnations_grow :: "lease_view \<Rightarrow> lease_view \<Rightarrow> bool" where
  "incarnations_grow u v \<longleftrightarrow>
     (\<forall>k a. lv_attempts u k = Some a \<longrightarrow> (\<exists>b. lv_attempts v k = Some b \<and> same_incarnation a b))"

lemma same_incarnation_trans: "same_incarnation a b \<Longrightarrow> same_incarnation b c \<Longrightarrow> same_incarnation a c"
  by (simp add: same_incarnation_def)

lemma incarnations_grow_trans: "incarnations_grow u v \<Longrightarrow> incarnations_grow v w \<Longrightarrow> incarnations_grow u w"
  unfolding incarnations_grow_def by (meson same_incarnation_trans)

lemma grant_grows: "grant_step v w \<Longrightarrow> incarnations_grow v w"
proof (induction rule: grant_step.induct)
  case (grant v x a l)
  then show ?case unfolding incarnations_grow_def by simp
qed

lemma quiet_grows: "quiet_step v w \<Longrightarrow> incarnations_grow v w"
  by (induction rule: quiet_step.induct) (simp_all add: incarnations_grow_def)

lemma lease_run_grows: "lease_run n u v \<Longrightarrow> incarnations_grow u v"
proof (induction rule: lease_run.induct)
  case (start v)
  show ?case by (simp add: incarnations_grow_def)
next
  case (granted n u v w)
  then show ?case using incarnations_grow_trans grant_grows by blast
next
  case (quiet n u v w)
  then show ?case using incarnations_grow_trans quiet_grows by blast
qed

end
