(* ===== verification/Memory_Leases.thy ===== *)
theory Memory_Leases
  imports Memory_Ledger Lease_Protocol
begin

text \<open>
  Writer leases of the in-process ledger: \<^verbatim>\<open>memory/authority.rs\<close> and \<^verbatim>\<open>memory/authority/reclaim.rs\<close>
  under \<^verbatim>\<open>crates/application/src\<close>, with the lease methods of \<^verbatim>\<open>memory/lease_transport.rs\<close>.
  Acquisition is split where the source says it is: everything fallible (\<open>acquire_prepare\<close>), then the
  map writes (\<open>acquire_commit\<close>).
\<close>

section \<open>Checks\<close>

definition check_active_lease ::
    "'x ledger_ext_scheme \<Rightarrow> active_lease_subject \<Rightarrow> memory_ledger \<Rightarrow> ledger_error + unit" where
  "check_active_lease ex subj s =
     res_bind (ok_or (bt_get (ml_leases s) (as_variant_id subj))
       (LeDomain (StaleAuthority (''no active lease for '' @ as_attempt_id subj)))) (\<lambda>l.
     res_bind (ok_or (bt_get (ml_attempts s) (al_attempt_id l)) (LeStore ''active lease has no Attempt'')) (\<lambda>a.
       check_active_lease_snapshot ex l a subj (simulation_time ex s)))"

definition txn_get_lease :: "memory_ledger \<Rightarrow> string \<Rightarrow> active_lease option" where
  "txn_get_lease s attempt =
     (case bt_get (ml_attempts s) attempt of
        None \<Rightarrow> None
      | Some stored \<Rightarrow>
          (case bt_get (ml_leases s) (at_variant_id stored) of
             Some l \<Rightarrow> if al_attempt_id l = attempt then Some l else None
           | None \<Rightarrow> None))"

definition txn_check_active_lease ::
    "'x ledger_ext_scheme \<Rightarrow> string \<Rightarrow> u64 \<Rightarrow> memory_ledger \<Rightarrow> ledger_error + unit" where
  "txn_check_active_lease ex attempt fence s =
     res_bind (incarnation_subject (bt_get (ml_attempts s) attempt) attempt fence) (\<lambda>subj.
       check_active_lease ex subj s)"

section \<open>Reclaim\<close>

text \<open>
  The first graph in key order that owns the package is the one changed; a package that cannot go
  back to Ready is left as it is, and that is not an error.
\<close>

definition requeue_package :: "string \<Rightarrow> string \<Rightarrow> unit ledger_op" where
  "requeue_package package now s =
     (case List.find (\<lambda>(k, g). position (\<lambda>p. wp_id p = package) (sg_packages g) \<noteq> None)
         (bt_entries (ml_graphs s)) of
        None \<Rightarrow> (Err (LeStore (''package '' @ package @ '' not in any graph'')), s)
      | Some (k, g) \<Rightarrow>
          let idx = the (position (\<lambda>p. wp_id p = package) (sg_packages g));
              p = sg_packages g ! idx in
          (case work_package_transition (wp_state p) WpReady of
             Inl _ \<Rightarrow> (Ok (), s)
           | Inr st \<Rightarrow>
               (Ok (), s\<lparr>ml_graphs :=
                    bt_insert k (g\<lparr>sg_packages := (sg_packages g)[idx := p\<lparr>wp_state := st\<rparr>]\<rparr>) (ml_graphs s),
                  ml_ready := bt_or_insert package now (ml_ready s)\<rparr>)))"

definition RECLAIM_OUTBOX_KIND :: string where
  "RECLAIM_OUTBOX_KIND = ''lease_reclaimed''"

definition due_leases :: "string \<Rightarrow> memory_ledger \<Rightarrow> active_lease list" where
  "due_leases now s =
     sort_key al_variant_id (filter (\<lambda>l. al_expires_at l \<le> now) (bt_values (ml_leases s)))"

text \<open>The next outbox sequence; a vector's length is a 64-bit value.\<close>

definition next_outbox_seq :: "memory_ledger \<Rightarrow> ledger_error + u64" where
  "next_outbox_seq s = ok_or (checked_add (of_nat (length (ml_outbox s))) 1) (LeStore ''outbox sequence overflow'')"

definition set_attempt_state :: "string \<Rightarrow> attempt_state \<Rightarrow> memory_ledger \<Rightarrow> memory_ledger" where
  "set_attempt_state key st s =
     (case bt_get (ml_attempts s) key of
        Some a \<Rightarrow> s\<lparr>ml_attempts := bt_insert key (a\<lparr>at_state := st\<rparr>) (ml_attempts s)\<rparr>
      | None \<Rightarrow> s)"

text \<open>
  \<open>reclaim\<close> in two parts: the checks before the first write, and the writes, of which requeueing the
  package can still refuse.
\<close>

definition reclaim_check ::
    "'x ledger_ext_scheme \<Rightarrow> active_lease \<Rightarrow> memory_ledger \<Rightarrow>
     ledger_error + attempt_state \<times> expired_lease \<times> string \<times> u64" where
  "reclaim_check ex l s =
     res_bind (ok_or (bt_get (ml_attempts s) (al_attempt_id l)) (LeStore ''lease without attempt'')) (\<lambda>a.
     if \<not> permits_expiry_reclaim (at_state a) then
       Err (LeStore (''active lease Attempt '' @ at_id a @ '' cannot expire from ''
         @ attempt_state_debug (at_state a)))
     else
       res_bind (from_domain (attempt_transition (at_state a) AsCrashed)) (\<lambda>next_state.
       let expired = \<lparr>xl_variant_id = al_variant_id l, xl_attempt_id = al_attempt_id l,
             xl_work_package_id = at_work_package_id a, xl_fence = al_fence l\<rparr> in
       res_bind (map_err LeStore (x_enc_expired ex expired)) (\<lambda>payload.
       res_bind (next_outbox_seq s) (\<lambda>seq.
         Ok (next_state, expired, payload, seq)))))"

definition reclaim_write ::
    "'x ledger_ext_scheme \<Rightarrow> active_lease \<Rightarrow> string \<Rightarrow> attempt_state \<Rightarrow> expired_lease \<Rightarrow> string \<Rightarrow> u64 \<Rightarrow>
     unit ledger_op" where
  "reclaim_write ex l now next_state expired payload seq =
     st_bind (st_modify (set_attempt_state (al_attempt_id l) next_state)) (\<lambda>_.
     st_bind (st_modify (\<lambda>s. s\<lparr>ml_leases := bt_remove (al_variant_id l) (ml_leases s)\<rparr>)) (\<lambda>_.
     st_bind (requeue_package (xl_work_package_id expired) now) (\<lambda>_.
     st_bind (st_modify (push_event ex ''lease_expired'' (al_attempt_id l) (Some (al_variant_id l)) None None)) (\<lambda>_.
       st_modify (\<lambda>s. s\<lparr>ml_outbox := ml_outbox s @
           [\<lparr>ob_seq = seq, ob_command_id = None, ob_kind = RECLAIM_OUTBOX_KIND, ob_payload = payload,
             ob_phase = CpPending, ob_delivered_at = None, ob_acked_at = None\<rparr>]\<rparr>)))))"

definition reclaim :: "'x ledger_ext_scheme \<Rightarrow> active_lease \<Rightarrow> string \<Rightarrow> expired_lease ledger_op" where
  "reclaim ex l now =
     st_bind (st_get (reclaim_check ex l)) (\<lambda>(next_state, expired, payload, seq).
     st_bind (reclaim_write ex l now next_state expired payload seq) (\<lambda>_. st_ok expired))"

definition reclaim_expired_variant ::
    "'x ledger_ext_scheme \<Rightarrow> string \<Rightarrow> string \<Rightarrow> expired_lease option ledger_op" where
  "reclaim_expired_variant ex variant now s =
     (case bt_get (ml_leases s) variant of
        None \<Rightarrow> (Ok None, s)
      | Some l \<Rightarrow>
          if now < al_expires_at l then (Ok None, s)
          else st_bind (reclaim ex l now) (\<lambda>x. st_ok (Some x)) s)"

fun reclaim_all :: "'x ledger_ext_scheme \<Rightarrow> string \<Rightarrow> active_lease list \<Rightarrow> expired_lease list ledger_op" where
  "reclaim_all ex now [] = st_ok []"
| "reclaim_all ex now (l # ls) =
     st_bind (reclaim ex l now) (\<lambda>x. st_bind (reclaim_all ex now ls) (\<lambda>xs. st_ok (x # xs)))"

definition expire_leases :: "'x ledger_ext_scheme \<Rightarrow> expired_lease list ledger_op" where
  "expire_leases ex =
     st_bind tick (\<lambda>_ s.
       let now = simulation_time ex s in reclaim_all ex now (due_leases now s) s)"

section \<open>Acquisition\<close>

definition acquire_replay ::
    "'x ledger_ext_scheme \<Rightarrow> lease_request \<Rightarrow> command_request \<Rightarrow> command_record \<Rightarrow> memory_ledger \<Rightarrow>
     ledger_error + lease_grant" where
  "acquire_replay ex req q existing s =
     res_bind (from_domain (command_matches ex q existing)) (\<lambda>_.
     res_bind (ok_or (cr_response existing) (LeStore ''lease command has no stored result'')) (\<lambda>response.
     res_bind (map_err LeStore (x_dec_grant ex response)) (\<lambda>grant.
     res_bind (ok_or (bt_get (ml_graphs s) (lq_mission_id req)) (LeStore ''lease replay graph missing'')) (\<lambda>g.
     res_bind (require_context_revision ex g (at_work_package_id (lg_attempt grant))
         (at_context_revision (lg_attempt grant)) s) (\<lambda>_.
       Ok grant)))))"

record acquire_rows =
  aq_grant :: lease_grant
  aq_graph :: stored_graph
  aq_package_id :: string
  aq_grant_json :: string
  aq_token_hash :: string
  aq_command :: command_record
  aq_outbox_item :: outbox_item

definition attempt_for :: "'x ledger_ext_scheme \<Rightarrow> lease_request \<Rightarrow> string \<Rightarrow> u64 \<Rightarrow> attempt" where
  "attempt_for ex req package fence = \<lparr>at_id = typed_id_from_seed ex ''atm'' (lq_attempt_seed req),
     at_variant_id = lq_variant_id req, at_work_package_id = package, at_fence = fence,
     at_runner_id = lq_runner_id req, at_runner_epoch = lq_runner_epoch req,
     at_workspace_id = lq_workspace_id req, at_workspace_nonce = lq_workspace_nonce req,
     at_scope_revision = lq_scope_revision req, at_context_revision = lq_context_revision req,
     at_state = AsStarting\<rparr>"

definition lease_for :: "lease_request \<Rightarrow> attempt \<Rightarrow> u64 \<Rightarrow> string \<Rightarrow> string \<Rightarrow> int \<Rightarrow> active_lease" where
  "lease_for req a fence now expires_at ttl = \<lparr>al_variant_id = lq_variant_id req, al_attempt_id = at_id a,
     al_fence = fence, al_runner_id = lq_runner_id req, al_runner_epoch = lq_runner_epoch req,
     al_workspace_nonce = lq_workspace_nonce req, al_heartbeat_at = now, al_expires_at = expires_at,
     al_ttl_seconds = ttl\<rparr>"

text \<open>\<open>unwrap_or(0) + 1\<close> on \<open>u64\<close>: the release build wraps.\<close>

definition next_fence :: "memory_ledger \<Rightarrow> string \<Rightarrow> u64" where
  "next_fence s variant = (case bt_get (ml_fences s) variant of Some f \<Rightarrow> f | None \<Rightarrow> 0) + 1"

definition lease_command :: "'x ledger_ext_scheme \<Rightarrow> command_request \<Rightarrow> string \<Rightarrow> command_record" where
  "lease_command ex q grant_json = \<lparr>cr_id = command_id ex q, cr_idempotency_key = cq_idempotency_key q,
     cr_kind = cq_kind q, cr_payload = cq_payload q, cr_payload_digest = command_digest ex q,
     cr_phase = CpApplied, cr_response = Some grant_json\<rparr>"

definition lease_graph :: "stored_graph \<Rightarrow> nat \<Rightarrow> nat \<Rightarrow> work_package_state \<Rightarrow> u64 \<Rightarrow> stored_graph" where
  "lease_graph g vidx pidx st fence =
     g\<lparr>sg_packages := (sg_packages g)[pidx := (sg_packages g ! pidx)\<lparr>wp_state := st\<rparr>],
       sg_variants := (sg_variants g)[vidx := (sg_variants g ! vidx)\<lparr>va_fence_counter := fence\<rparr>]\<rparr>"

text \<open>The rows of a grant, for the variant and the package found at the given positions.\<close>

definition acquire_rows_for ::
    "'x ledger_ext_scheme \<Rightarrow> lease_request \<Rightarrow> command_request \<Rightarrow> string \<Rightarrow> string \<Rightarrow> int \<Rightarrow> memory_ledger \<Rightarrow>
     stored_graph \<Rightarrow> nat \<Rightarrow> nat \<Rightarrow> ledger_error + acquire_rows" where
  "acquire_rows_for ex req q now expires_at ttl s g vidx pidx =
     (let p = sg_packages g ! pidx;
          fence = next_fence s (lq_variant_id req);
          a = attempt_for ex req (wp_id p) fence;
          grant = \<lparr>lg_attempt = a, lg_lease = lease_for req a fence now expires_at ttl\<rparr> in
      if bt_contains (ml_attempts s) (at_id a) then
        Err (LeDomain (Conflict (''attempt '' @ at_id a @ '' already exists'')))
      else
        res_bind (from_domain (work_package_transition (wp_state p) WpLeased)) (\<lambda>st.
        res_bind (map_err LeStore (x_enc_grant ex grant)) (\<lambda>grant_json.
        let command = lease_command ex q grant_json in
        res_bind (from_domain (record_validate ex command)) (\<lambda>_.
        res_bind (next_outbox_seq s) (\<lambda>seq.
          Ok \<lparr>aq_grant = grant, aq_graph = lease_graph g vidx pidx st fence, aq_package_id = wp_id p,
              aq_grant_json = grant_json, aq_token_hash = to_hex ex (digest_of ex grant_json),
              aq_command = command,
              aq_outbox_item = \<lparr>ob_seq = seq, ob_command_id = Some (cr_id command),
                ob_kind = ''dispatch_attempt'', ob_payload = grant_json, ob_phase = CpPending,
                ob_delivered_at = None, ob_acked_at = None\<rparr>\<rparr>)))))"

definition acquire_prepare ::
    "'x ledger_ext_scheme \<Rightarrow> lease_request \<Rightarrow> command_request \<Rightarrow> string \<Rightarrow> string \<Rightarrow> int \<Rightarrow> memory_ledger \<Rightarrow>
     ledger_error + acquire_rows" where
  "acquire_prepare ex req q now expires_at ttl s =
     res_bind (ok_or (bt_get (ml_graphs s) (lq_mission_id req)) (LeStore ''graph missing'')) (\<lambda>g.
     res_bind (ok_or (position (\<lambda>v. va_id v = lq_variant_id req) (sg_variants g)) (LeStore ''variant missing'')) (\<lambda>vidx.
     res_bind (ok_or (position (\<lambda>p. wp_id p = va_work_package_id (sg_variants g ! vidx)) (sg_packages g))
       (LeStore ''package missing'')) (\<lambda>pidx.
     let p = sg_packages g ! pidx in
     res_bind (require_context_revision ex g (wp_id p) (lq_context_revision req) s) (\<lambda>_.
     if wp_state p \<noteq> WpReady then
       Err (LeDomain (Conflict (''package '' @ wp_id p @ '' is '' @ work_package_state_debug (wp_state p)
         @ '', not ready'')))
     else if \<not> bt_contains (ml_ready s) (wp_id p) then
       Err (LeDomain (Conflict (''package '' @ wp_id p @ '' has no ready row'')))
     else
       (case bt_get (ml_leases s) (lq_variant_id req) of
          Some holder \<Rightarrow>
            Err (LeDomain (FenceError (''variant '' @ lq_variant_id req @ '' already leased to '' @ al_attempt_id holder)))
        | None \<Rightarrow> acquire_rows_for ex req q now expires_at ttl s g vidx pidx)))))"

definition acquire_commit ::
    "'x ledger_ext_scheme \<Rightarrow> lease_request \<Rightarrow> acquire_rows \<Rightarrow> memory_ledger \<Rightarrow> memory_ledger" where
  "acquire_commit ex req rows s =
     (let a = lg_attempt (aq_grant rows);
          s1 = s\<lparr>ml_fences := bt_insert (lq_variant_id req) (at_fence a) (ml_fences s),
                ml_attempts := bt_insert (at_id a) a (ml_attempts s),
                ml_leases := bt_insert (lq_variant_id req) (lg_lease (aq_grant rows)) (ml_leases s),
                ml_ready := bt_remove (aq_package_id rows) (ml_ready s),
                ml_graphs := bt_insert (mi_id (sg_mission (aq_graph rows))) (aq_graph rows) (ml_graphs s)\<rparr>;
          s2 = push_event ex ''attempt_leased'' (aq_grant_json rows) (Some (lq_variant_id req))
                 (Some (lq_idempotency_key req)) (Some (aq_token_hash rows)) s1 in
      s2\<lparr>ml_commands := bt_insert (lq_idempotency_key req) (aq_command rows) (ml_commands s2),
         ml_outbox := ml_outbox s2 @ [aq_outbox_item rows]\<rparr>)"

text \<open>Past the replay check.\<close>

definition acquire_fresh :: "'x ledger_ext_scheme \<Rightarrow> lease_request \<Rightarrow> command_request \<Rightarrow> lease_grant ledger_op" where
  "acquire_fresh ex req q =
     st_bind tick (\<lambda>_.
     st_bind (st_lift (from_domain (request_validated_ttl req))) (\<lambda>ttl.
     st_bind (st_get (lease_window ex ttl)) (\<lambda>(now, expires_at).
     st_bind (reclaim_expired_variant ex (lq_variant_id req) now) (\<lambda>_.
     st_bind (st_get (acquire_prepare ex req q now expires_at ttl)) (\<lambda>rows.
     st_bind (st_modify (acquire_commit ex req rows)) (\<lambda>_.
       st_ok (aq_grant rows)))))))"

definition acquire_lease :: "'x ledger_ext_scheme \<Rightarrow> lease_request \<Rightarrow> lease_grant ledger_op" where
  "acquire_lease ex req =
     st_bind (st_lift (from_domain (lease_stable_payload ex req))) (\<lambda>stable.
     st_bind (st_lift (from_domain (command_from_json ex (lq_idempotency_key req) ''acquire_lease'' stable))) (\<lambda>q s.
       case bt_get (ml_commands s) (lq_idempotency_key req) of
         Some existing \<Rightarrow> (acquire_replay ex req q existing s, s)
       | None \<Rightarrow> acquire_fresh ex req q s))"

section \<open>Heartbeat, release, attempt updates\<close>

definition heartbeat :: "'x ledger_ext_scheme \<Rightarrow> heartbeat_request \<Rightarrow> unit ledger_op" where
  "heartbeat ex req =
     st_bind (st_lift (from_domain (heartbeat_validated_ttl req))) (\<lambda>ttl.
     st_bind tick (\<lambda>_.
     st_bind (st_get (lease_window ex ttl)) (\<lambda>(now, expires_at) s.
       let zero = LeDomain (StaleAuthority (''heartbeat matched zero lease rows for '' @ hb_attempt_id req)) in
       case bt_get (ml_leases s) (hb_variant_id req) of
         None \<Rightarrow> (Err zero, s)
       | Some l \<Rightarrow>
           (case bt_get (ml_attempts s) (al_attempt_id l) of
              None \<Rightarrow> (Err (LeStore ''active lease has no Attempt''), s)
            | Some a \<Rightarrow>
                if \<not> permits_lease_heartbeat (at_state a) then
                  (Err (LeDomain (StaleAuthority (at_id a @ '' cannot heartbeat while ''
                     @ attempt_state_debug (at_state a)))), s)
                else if al_attempt_id l = hb_attempt_id req \<and> al_fence l = hb_fence req
                     \<and> al_runner_id l = hb_runner_id req \<and> al_runner_epoch l = hb_runner_epoch req
                     \<and> al_workspace_nonce l = hb_workspace_nonce req \<and> al_ttl_seconds l = ttl
                     \<and> al_heartbeat_at l \<le> now \<and> now < al_expires_at l then
                  (Ok (), s\<lparr>ml_leases := bt_insert (hb_variant_id req)
                     (l\<lparr>al_heartbeat_at := now, al_expires_at := expires_at\<rparr>) (ml_leases s)\<rparr>)
                else (Err zero, s)))))"

definition release_lease :: "'x ledger_ext_scheme \<Rightarrow> release_request \<Rightarrow> unit ledger_op" where
  "release_lease ex req =
     st_bind tick (\<lambda>_.
     if \<not> is_terminal_release_target (rq_final_state req) then
       st_err (LeDomain (InvalidTransition ''release'' (attempt_state_debug (rq_final_state req))))
     else (\<lambda>s.
       let now = simulation_time ex s in
       case bt_get (ml_leases s) (rq_variant_id req) of
         Some l \<Rightarrow>
           if al_attempt_id l = rq_attempt_id req then
             st_bind (st_get (\<lambda>s. ok_or (bt_get (ml_attempts s) (rq_attempt_id req))
                (LeStore ''lease without attempt''))) (\<lambda>a.
             st_bind (st_lift (from_domain (attempt_transition (at_state a) (rq_final_state req)))) (\<lambda>next_state.
             st_bind (st_modify (set_attempt_state (rq_attempt_id req) next_state)) (\<lambda>_.
             st_bind (st_modify (\<lambda>s. s\<lparr>ml_leases := bt_remove (rq_variant_id req) (ml_leases s)\<rparr>)) (\<lambda>_.
             st_bind (if rq_requeue req then requeue_package (at_work_package_id a) now else st_ok ()) (\<lambda>_.
               st_modify (push_event ex ''lease_released'' (rq_attempt_id req) (Some (rq_variant_id req))
                 None None)))))) s
           else
             (Err (LeDomain (StaleAuthority (''lease held by '' @ al_attempt_id l @ '', not ''
                @ rq_attempt_id req))), s)
       | None \<Rightarrow>
           let stale = LeDomain (StaleAuthority (''no active lease for '' @ rq_attempt_id req)) in
           (case bt_get (ml_attempts s) (rq_attempt_id req) of
              Some a \<Rightarrow> if at_state a = rq_final_state req then (Ok (), s) else (Err stale, s)
            | None \<Rightarrow> (Err stale, s))))"

definition put_attempt :: "attempt \<Rightarrow> unit ledger_op" where
  "put_attempt a =
     st_bind tick (\<lambda>_ s.
       case bt_get (ml_attempts s) (at_id a) of
         None \<Rightarrow> (Err (LeDomain (Conflict (''attempt '' @ at_id a
                   @ '' does not exist; attempts are created by acquire_lease''))), s)
       | Some existing \<Rightarrow>
           if at_variant_id existing \<noteq> at_variant_id a \<or> at_work_package_id existing \<noteq> at_work_package_id a
              \<or> at_fence existing \<noteq> at_fence a \<or> at_runner_id existing \<noteq> at_runner_id a
              \<or> at_runner_epoch existing \<noteq> at_runner_epoch a \<or> at_workspace_id existing \<noteq> at_workspace_id a
              \<or> at_workspace_nonce existing \<noteq> at_workspace_nonce a then
             (Err (LeDomain (Conflict (''attempt '' @ at_id a @ '' identity columns are immutable''))), s)
           else
             (case (if at_state existing \<noteq> at_state a
                    then from_domain (attempt_transition (at_state existing) (at_state a))
                    else Ok (at_state a)) of
                Inl e \<Rightarrow> (Err e, s)
              | Inr _ \<Rightarrow> (Ok (), s\<lparr>ml_attempts := bt_insert (at_id a) a (ml_attempts s)\<rparr>)))"

section \<open>Refinement of the fencing protocol\<close>

definition lease_view_of :: "memory_ledger \<Rightarrow> lease_view" where
  "lease_view_of s = \<lparr>lv_leases = bt_get (ml_leases s), lv_attempts = bt_get (ml_attempts s),
     lv_fences = bt_get (ml_fences s)\<rparr>"

lemma lease_view_simps [simp]:
  "lv_leases (lease_view_of s) = bt_get (ml_leases s)" "lv_attempts (lease_view_of s) = bt_get (ml_attempts s)"
  "lv_fences (lease_view_of s) = bt_get (ml_fences s)"
  by (simp_all add: lease_view_of_def)

lemma lease_view_updates [simp]:
  "lease_view_of (s\<lparr>ml_fail_after_writes := n\<rparr>) = lease_view_of s"
  "lease_view_of (s\<lparr>ml_outbox := ob\<rparr>) = lease_view_of s"
  "lease_view_of (s\<lparr>ml_graphs := gs\<rparr>) = lease_view_of s"
  "lease_view_of (s\<lparr>ml_ready := rd\<rparr>) = lease_view_of s"
  "lease_view_of (s\<lparr>ml_commands := cs\<rparr>) = lease_view_of s"
  "lease_view_of (s\<lparr>ml_context_capsules := cx\<rparr>) = lease_view_of s"
  "lease_view_of (s\<lparr>ml_events := es\<rparr>) = lease_view_of s"
  by (simp_all add: lease_view_of_def)

lemma lease_view_same_rows: "same_rows s t \<Longrightarrow> lease_view_of t = lease_view_of s"
  by (auto simp: same_rows_iff)

lemma lease_view_push_event [simp]: "lease_view_of (push_event ex k b st c h s) = lease_view_of s"
  by (simp add: lease_view_of_def push_event_def Let_def)

lemma keeps_view_tick [keeps_intros]: "keeps lease_view_of tick"
  by (rule keeps_tick) simp

lemma keeps_view_requeue [keeps_intros]: "keeps lease_view_of (requeue_package p now)"
  by (simp add: keeps_def requeue_package_def lease_view_of_def Let_def split: option.splits sum.splits)

text \<open>Every operation is a protocol run with at most one grant.\<close>

definition refines_protocol :: "'a ledger_op \<Rightarrow> bool" where
  "refines_protocol m \<longleftrightarrow> (\<forall>s n. lease_inv n (lease_view_of s) \<longrightarrow>
     (\<exists>k \<le> 1. lease_run k (lease_view_of s) (lease_view_of (snd (m s)))))"

lemma refines_keeps: "keeps lease_view_of m \<Longrightarrow> refines_protocol m"
  unfolding refines_protocol_def keeps_def using lease_run.start by fastforce

lemma reclaim_view:
  assumes "reclaim ex l now s = (r, t)"
  shows "t = s \<and> \<not> is_ok r \<or>
    (\<exists>a. bt_get (ml_attempts s) (al_attempt_id l) = Some a \<and> attempt_transition (at_state a) AsCrashed = Inr AsCrashed \<and>
       lease_view_of t = (lease_view_of s)\<lparr>lv_leases := (bt_get (ml_leases s))(al_variant_id l := None),
         lv_attempts := (bt_get (ml_attempts s))(al_attempt_id l \<mapsto> a\<lparr>at_state := AsCrashed\<rparr>)\<rparr>)"
proof (cases "reclaim_check ex l s")
  case (Inl e)
  with assms show ?thesis by (auto simp: reclaim_def result_simps)
next
  case (Inr q)
  obtain st x p sq where q: "q = (st, x, p, sq)" by (cases q) auto
  from Inr q obtain a where a: "bt_get (ml_attempts s) (al_attempt_id l) = Some a"
    and tr: "attempt_transition (at_state a) AsCrashed = Inr st"
    by (auto simp: reclaim_check_def res_bind_Ok_iff Let_def split: if_splits)
  then have st: "st = AsCrashed" using attempt_machine.target by blast
  let ?u = "(set_attempt_state (al_attempt_id l) AsCrashed s)\<lparr>ml_leases := bt_remove (al_variant_id l) (ml_leases s)\<rparr>"
  have "lease_view_of t = lease_view_of ?u"
  proof -
    obtain r' where "reclaim_write ex l now st x p sq s = (r', t)"
      using assms Inr q by (auto simp: reclaim_def result_simps split: prod.splits sum.splits)
    then have "st_bind (requeue_package (xl_work_package_id x) now) (\<lambda>_.
        st_bind (st_modify (push_event ex ''lease_expired'' (al_attempt_id l) (Some (al_variant_id l)) None None)) (\<lambda>_.
          st_modify (\<lambda>s. s\<lparr>ml_outbox := ml_outbox s @
           [\<lparr>ob_seq = sq, ob_command_id = None, ob_kind = RECLAIM_OUTBOX_KIND, ob_payload = p,
             ob_phase = CpPending, ob_delivered_at = None, ob_acked_at = None\<rparr>]\<rparr>))) ?u = (r', t)"
      using a st by (simp add: reclaim_write_def st_bind_def [of "st_modify f" for f] st_modify_def
          set_attempt_state_def)
    then show ?thesis
      by (rule keepsD [rotated]) (intro keeps_intros; simp)
  qed
  then show ?thesis
    using a tr st by (auto simp: set_attempt_state_def lease_view_of_def fun_eq_iff)
qed

lemma reclaim_quiet:
  assumes "reclaim ex l now s = (r, t)" and "bt_get (ml_leases s) (al_variant_id l) = Some l"
  shows "lease_run 0 (lease_view_of s) (lease_view_of t)"
    and "bt_get (ml_leases t) = bt_get (ml_leases s)
      \<or> bt_get (ml_leases t) = (bt_get (ml_leases s))(al_variant_id l := None)"
proof -
  from reclaim_view [OF assms(1)] show "lease_run 0 (lease_view_of s) (lease_view_of t)"
  proof (elim disjE exE conjE)
    fix a
    assume a: "bt_get (ml_attempts s) (al_attempt_id l) = Some a"
      "attempt_transition (at_state a) AsCrashed = Inr AsCrashed"
      and t: "lease_view_of t = (lease_view_of s)\<lparr>lv_leases := (bt_get (ml_leases s))(al_variant_id l := None),
         lv_attempts := (bt_get (ml_attempts s))(al_attempt_id l \<mapsto> a\<lparr>at_state := AsCrashed\<rparr>)\<rparr>"
    have "quiet_step (lease_view_of s) (lease_view_of t)"
      using quiet_step.retire [of "lease_view_of s" "al_variant_id l" l a AsCrashed] a assms(2)
      by (simp add: t is_terminal_release_target_def)
    then show ?thesis by (rule lease_run_quiet)
  qed (simp add: lease_run.start)
  from reclaim_view [OF assms(1)] show "bt_get (ml_leases t) = bt_get (ml_leases s)
      \<or> bt_get (ml_leases t) = (bt_get (ml_leases s))(al_variant_id l := None)"
    by (metis lease_view.select_convs(1) lease_view.simps(4) lease_view_simps(1) lease_view.update_convs(1,2) lease_view.surjective)
qed

lemma reclaim_all_quiet:
  assumes "reclaim_all ex now ls s = (r, t)" and "distinct (map al_variant_id ls)"
    and "\<forall>l \<in> set ls. bt_get (ml_leases s) (al_variant_id l) = Some l"
  shows "lease_run 0 (lease_view_of s) (lease_view_of t)"
  using assms
proof (induction ls arbitrary: s r)
  case (Cons l ls)
  from Cons.prems(1) show ?case
    unfolding reclaim_all.simps
  proof (cases rule: st_bind_cases)
    case (err e)
    with Cons.prems(3) show ?thesis using reclaim_quiet(1) by fastforce
  next
    case (ok x u)
    have run: "lease_run 0 (lease_view_of s) (lease_view_of u)"
      using reclaim_quiet(1) [OF ok(1)] Cons.prems(3) by simp
    have rest: "\<forall>m \<in> set ls. bt_get (ml_leases u) (al_variant_id m) = Some m"
      using reclaim_quiet(2) [OF ok(1)] Cons.prems(2,3) by (auto simp: image_iff)
    obtain r' where "reclaim_all ex now ls u = (r', t)"
      using ok(2) by (auto simp: st_bind_def st_ok_def split: prod.splits sum.splits)
    from Cons.IH [OF this _ rest] Cons.prems(2) have "lease_run 0 (lease_view_of u) (lease_view_of t)" by simp
    from lease_run_trans [OF this run] show ?thesis by simp
  qed
qed (simp add: st_ok_def lease_run.start)

lemma due_leases_iff:
  "l \<in> set (due_leases now s) \<longleftrightarrow> (\<exists>x. bt_get (ml_leases s) x = Some l) \<and> al_expires_at l \<le> now"
  by (auto simp: due_leases_def bt_values_iff)

lemma distinct_due_leases:
  assumes "holders_ok (lease_view_of s)"
  shows "distinct (map al_variant_id (due_leases now s))"
proof -
  have keys: "map al_variant_id (bt_values (ml_leases s)) = map fst (bt_entries (ml_leases s))"
    using assms by (auto simp: holders_ok_def bt_values_def bt_entry_iff)
  have "distinct (map al_variant_id (filter P (bt_values (ml_leases s))))" for P
    using distinct_bt_keys [of "ml_leases s"] unfolding keys [symmetric] by (rule distinct_map_filter)
  then show ?thesis
    by (simp add: due_leases_def distinct_map inj_on_def)
qed

lemma refines_expire: "refines_protocol (expire_leases ex)"
  unfolding refines_protocol_def
proof (intro allI impI)
  fix s n assume inv: "lease_inv n (lease_view_of s)"
  obtain r t where run: "expire_leases ex s = (r, t)" by fastforce
  then have "lease_run 0 (lease_view_of s) (lease_view_of t)"
    unfolding expire_leases_def
  proof (cases rule: st_bind_cases)
    case (err e)
    show ?thesis using tick_Err(3) [OF err(1)] by (simp add: lease_run.start)
  next
    case (ok a u)
    then obtain m where u: "u = s\<lparr>ml_fail_after_writes := m\<rparr>" by (auto elim: tick_Ok)
    have holders: "holders_ok (lease_view_of u)" using inv by (simp add: u lease_inv_def)
    have "\<forall>l \<in> set (due_leases (simulation_time ex u) u). bt_get (ml_leases u) (al_variant_id l) = Some l"
      using holders by (fastforce simp: due_leases_iff holders_ok_def)
    from reclaim_all_quiet [OF _ distinct_due_leases [OF holders] this] ok(2)
    have "lease_run 0 (lease_view_of u) (lease_view_of t)" by (simp add: Let_def)
    then show ?thesis by (simp add: u)
  qed
  with run show "\<exists>k \<le> 1. lease_run k (lease_view_of s) (lease_view_of (snd (expire_leases ex s)))" by auto
qed

lemma reclaim_expired_variant_quiet:
  assumes "reclaim_expired_variant ex x now s = (r, t)" and "lease_inv n (lease_view_of s)"
  shows "lease_run 0 (lease_view_of s) (lease_view_of t)"
proof (cases "bt_get (ml_leases s) x")
  case (Some l)
  then have key: "al_variant_id l = x" using lease_invD(2) [OF assms(2)] by simp
  show ?thesis
  proof (cases "now < al_expires_at l")
    case False
    then obtain r' where "reclaim ex l now s = (r', t)"
      using assms(1) Some
      by (auto simp: reclaim_expired_variant_def st_bind_def st_ok_def split: prod.splits sum.splits)
    with Some key show ?thesis using reclaim_quiet(1) by blast
  qed (use assms(1) Some in \<open>auto simp: reclaim_expired_variant_def intro: lease_run.start\<close>)
qed (use assms(1) in \<open>auto simp: reclaim_expired_variant_def intro: lease_run.start\<close>)

text \<open>What a successful preparation has established.\<close>

lemma acquire_prepareE:
  assumes "acquire_prepare ex req q now e ttl s = Inr rows"
  obtains g vidx pidx a where "bt_get (ml_graphs s) (lq_mission_id req) = Some g"
    "position (\<lambda>v. va_id v = lq_variant_id req) (sg_variants g) = Some vidx"
    "position (\<lambda>p. wp_id p = va_work_package_id (sg_variants g ! vidx)) (sg_packages g) = Some pidx"
    "require_context_revision ex g (wp_id (sg_packages g ! pidx)) (lq_context_revision req) s = Inr ()"
    "wp_state (sg_packages g ! pidx) = WpReady" "bt_contains (ml_ready s) (wp_id (sg_packages g ! pidx))"
    "bt_get (ml_leases s) (lq_variant_id req) = None" "bt_get (ml_attempts s) (at_id a) = None"
    "a = attempt_for ex req (wp_id (sg_packages g ! pidx)) (next_fence s (lq_variant_id req))"
    "aq_grant rows = \<lparr>lg_attempt = a, lg_lease = lease_for req a (at_fence a) now e ttl\<rparr>"
    "aq_graph rows = lease_graph g vidx pidx WpLeased (at_fence a)"
    "aq_package_id rows = wp_id (sg_packages g ! pidx)"
    "x_enc_grant ex (aq_grant rows) = Inr (aq_grant_json rows)"
    "aq_command rows = lease_command ex q (aq_grant_json rows)"
    "record_validate ex (aq_command rows) = Inr ()"
    "ob_command_id (aq_outbox_item rows) = Some (command_id ex q)"
    "ob_payload (aq_outbox_item rows) = aq_grant_json rows"
proof -
  from assms obtain g vidx pidx where base:
    "bt_get (ml_graphs s) (lq_mission_id req) = Some g"
    "position (\<lambda>v. va_id v = lq_variant_id req) (sg_variants g) = Some vidx"
    "position (\<lambda>p. wp_id p = va_work_package_id (sg_variants g ! vidx)) (sg_packages g) = Some pidx"
    "require_context_revision ex g (wp_id (sg_packages g ! pidx)) (lq_context_revision req) s = Inr ()"
    "wp_state (sg_packages g ! pidx) = WpReady" "bt_contains (ml_ready s) (wp_id (sg_packages g ! pidx))"
    "bt_get (ml_leases s) (lq_variant_id req) = None"
    and rows: "acquire_rows_for ex req q now e ttl s g vidx pidx = Inr rows"
    by (auto simp: acquire_prepare_def res_bind_Ok_iff Let_def split: if_splits option.splits)
  from rows obtain st where st: "work_package_transition (wp_state (sg_packages g ! pidx)) WpLeased = Inr st"
    by (auto simp: acquire_rows_for_def res_bind_Ok_iff Let_def split: if_splits)
  then have "st = WpLeased" using work_package_machine.target by blast
  with that [OF base] rows st show thesis
    by (fastforce simp: acquire_rows_for_def res_bind_Ok_iff Let_def bt_contains_def attempt_for_def
        lease_command_def split: if_splits)
qed

lemma lease_view_commit:
  "lease_view_of (acquire_commit ex req rows s) =
     (lease_view_of s)\<lparr>lv_leases := (bt_get (ml_leases s))(lq_variant_id req \<mapsto> lg_lease (aq_grant rows)),
       lv_attempts := (bt_get (ml_attempts s))(at_id (lg_attempt (aq_grant rows)) \<mapsto> lg_attempt (aq_grant rows)),
       lv_fences := (bt_get (ml_fences s))(lq_variant_id req \<mapsto> at_fence (lg_attempt (aq_grant rows)))\<rparr>"
  by (simp add: acquire_commit_def Let_def) (simp add: lease_view_of_def fun_eq_iff)

lemma acquire_commit_grants:
  assumes "acquire_prepare ex req q now e ttl s = Inr rows"
  shows "grant_step (lease_view_of s) (lease_view_of (acquire_commit ex req rows s))"
  using assms
proof (rule acquire_prepareE)
  fix g vidx pidx a
  assume free: "bt_get (ml_leases s) (lq_variant_id req) = None" "bt_get (ml_attempts s) (at_id a) = None"
    and a: "a = attempt_for ex req (wp_id (sg_packages g ! pidx)) (next_fence s (lq_variant_id req))"
    and grant: "aq_grant rows = \<lparr>lg_attempt = a, lg_lease = lease_for req a (at_fence a) now e ttl\<rparr>"
  let ?l = "lease_for req a (at_fence a) now e ttl"
  have "lease_agrees ?l a" by (simp add: a lease_agrees_def lease_for_def attempt_for_def)
  moreover have "at_fence a = fence_of (lease_view_of s) (lq_variant_id req) + 1" "at_state a = AsStarting"
    "at_variant_id a = lq_variant_id req"
    by (simp_all add: a attempt_for_def next_fence_def fence_of_def)
  ultimately show ?thesis
    using free grant_step.grant [of "lease_view_of s" "lq_variant_id req" a ?l]
    by (simp add: lease_view_commit grant)
qed

text \<open>How an acquisition ends: refused or replayed, refused after a reclaim, or granted.\<close>

lemma acquire_lease_cases:
  assumes "acquire_lease ex req s = (r, t)"
  obtains (unchanged) "same_rows s t"
    | (reclaimed) u now r' where "same_rows s u" "reclaim_expired_variant ex (lq_variant_id req) now u = (r', t)" "\<not> is_ok r"
    | (granted) u now x w q e ttl rows where "same_rows s u"
        "reclaim_expired_variant ex (lq_variant_id req) now u = (Inr x, w)"
        "acquire_prepare ex req q now e ttl w = Inr rows" "t = acquire_commit ex req rows w" "r = Inr (aq_grant rows)"
        "lease_window ex ttl u = Inr (now, e)" "ttl = lq_ttl_seconds req"
        "bt_get (ml_commands s) (lq_idempotency_key req) = None"
        "(\<exists>stable. lease_stable_payload ex req = Inr stable \<and>
           command_from_json ex (lq_idempotency_key req) ''acquire_lease'' stable = Inr q)"
proof -
  consider (refuse) "t = s" | (replay) "t = s"
    | (fresh) stable q where "lease_stable_payload ex req = Inr stable"
      "command_from_json ex (lq_idempotency_key req) ''acquire_lease'' stable = Inr q"
      "bt_get (ml_commands s) (lq_idempotency_key req) = None"
      "acquire_fresh ex req q s = (r, t)"
    using assms by (auto simp: acquire_lease_def st_bind_def [of "st_lift x" for x] st_lift_def
        split: sum.splits option.splits)
  then show thesis
  proof cases
    case (fresh stable q)
    from fresh(4) show thesis
      unfolding acquire_fresh_def
    proof (cases rule: st_bind_cases)
      case (err e)
      then show thesis using unchanged tick_Err(3) by fastforce
    next
      case (ok a u)
      then have su: "same_rows s u" by (auto elim: tick_Ok)
      from ok(2) consider "t = u" "\<not> is_ok r"
        | ttl now e where "request_validated_ttl req = Inr ttl" "lease_window ex ttl u = Inr (now, e)"
          "st_bind (reclaim_expired_variant ex (lq_variant_id req) now) (\<lambda>_.
           st_bind (st_get (acquire_prepare ex req q now e ttl)) (\<lambda>rows.
           st_bind (st_modify (acquire_commit ex req rows)) (\<lambda>_.
             st_ok (aq_grant rows)))) u = (r, t)"
        by (auto simp: st_bind_def [of "st_lift x" for x] st_bind_def [of "st_get x" for x] st_lift_def st_get_def
            split: sum.splits prod.splits)
      then show thesis
      proof cases
        case 1
        with su unchanged show thesis by blast
      next
        case (2 ttl now e)
        have ttl: "ttl = lq_ttl_seconds req"
          using 2(1) by (simp add: request_validated_ttl_def validate_lease_ttl_iff)
        from 2(3) show thesis
        proof (cases rule: st_bind_cases)
          case (err e')
          with su reclaimed show thesis by fastforce
        next
          case (ok x w)
          show thesis
          proof (cases "acquire_prepare ex req q now e ttl w")
            case (Inl e')
            with ok have "t = w" "\<not> is_ok r" by (auto simp: result_simps)
            with su ok(1) reclaimed show thesis by blast
          next
            case (Inr rows)
            with ok have "t = acquire_commit ex req rows w" "r = Inr (aq_grant rows)"
              by (auto simp: result_simps)
            with granted [OF su ok(1) Inr _ _ 2(2) ttl fresh(3)] fresh(1,2) show thesis by blast
          qed
        qed
      qed
    qed
  qed (use unchanged in simp_all)
qed

lemma heartbeat_cases:
  assumes "heartbeat ex req s = (r, t)"
  obtains (unchanged) "same_rows s t" "\<not> is_ok r"
    | (renewed) m l a now e where
        "t = s\<lparr>ml_fail_after_writes := m, ml_leases := bt_insert (hb_variant_id req)
           (l\<lparr>al_heartbeat_at := now, al_expires_at := e\<rparr>) (ml_leases s)\<rparr>"
        "bt_get (ml_leases s) (hb_variant_id req) = Some l" "bt_get (ml_attempts s) (al_attempt_id l) = Some a"
        "permits_lease_heartbeat (at_state a)" "lease_window ex (hb_ttl_seconds req) s = Inr (now, e)"
        "al_attempt_id l = hb_attempt_id req" "al_fence l = hb_fence req" "al_runner_id l = hb_runner_id req"
        "al_runner_epoch l = hb_runner_epoch req" "al_workspace_nonce l = hb_workspace_nonce req"
        "al_ttl_seconds l = hb_ttl_seconds req" "al_heartbeat_at l \<le> now" "now < al_expires_at l" "r = Inr ()"
proof (cases "heartbeat_validated_ttl req")
  case (Inl e)
  with assms unchanged show thesis by (auto simp: heartbeat_def result_simps)
next
  case (Inr ttl)
  then have ttl: "ttl = hb_ttl_seconds req" by (simp add: heartbeat_validated_ttl_def validate_lease_ttl_iff)
  obtain r0 u where tick: "tick s = (r0, u)" by fastforce
  then obtain m where u: "u = s\<lparr>ml_fail_after_writes := m\<rparr>"
    using tick_same [of s] by (auto simp: same_rows_iff)
  have window: "lease_window ex ttl u = lease_window ex ttl s"
    by (simp add: u lease_window_def simulation_time_def cong: if_cong)
  show thesis
  proof (cases r0)
    case (Inl e)
    with assms Inr tick u unchanged show thesis by (auto simp: heartbeat_def result_simps)
  next
    case (Inr un)
    show thesis
    proof (cases "lease_window ex ttl s")
      case (Inl e)
      with assms \<open>heartbeat_validated_ttl req = Inr ttl\<close> tick u Inr window unchanged show thesis
        by (auto simp: heartbeat_def result_simps)
    next
      case (Inr w)
      obtain now e where w: "w = (now, e)" by (cases w)
      define fits where "fits l \<longleftrightarrow> al_attempt_id l = hb_attempt_id req \<and> al_fence l = hb_fence req
        \<and> al_runner_id l = hb_runner_id req \<and> al_runner_epoch l = hb_runner_epoch req
        \<and> al_workspace_nonce l = hb_workspace_nonce req \<and> al_ttl_seconds l = ttl
        \<and> al_heartbeat_at l \<le> now \<and> now < al_expires_at l" for l :: active_lease
      show thesis
      proof (cases "\<exists>l a. bt_get (ml_leases s) (hb_variant_id req) = Some l \<and>
          bt_get (ml_attempts s) (al_attempt_id l) = Some a \<and> permits_lease_heartbeat (at_state a) \<and> fits l")
        case True
        then obtain l a where la: "bt_get (ml_leases s) (hb_variant_id req) = Some l"
          "bt_get (ml_attempts s) (al_attempt_id l) = Some a" "permits_lease_heartbeat (at_state a)" "fits l" by blast
        then have "r = Inr () \<and> t = u\<lparr>ml_leases := bt_insert (hb_variant_id req)
            (l\<lparr>al_heartbeat_at := now, al_expires_at := e\<rparr>) (ml_leases s)\<rparr>"
          using assms \<open>heartbeat_validated_ttl req = Inr ttl\<close> tick u \<open>r0 = Inr un\<close> window Inr w
          by (auto simp: heartbeat_def result_simps Let_def fits_def)
        with la u ttl Inr w show thesis
          using renewed [where m = m and l = l and now = now and e = e and a = a] by (simp add: fits_def)
      next
        case False
        then have "t = u \<and> \<not> is_ok r"
          using assms \<open>heartbeat_validated_ttl req = Inr ttl\<close> tick u \<open>r0 = Inr un\<close> window Inr w
          by (auto simp: heartbeat_def result_simps Let_def fits_def split: option.splits if_splits)
        with u unchanged show thesis by simp
      qed
    qed
  qed
qed

lemma refines_acquire: "refines_protocol (acquire_lease ex req)"
  unfolding refines_protocol_def
proof (intro allI impI)
  fix s n assume inv: "lease_inv n (lease_view_of s)"
  obtain r t where run: "acquire_lease ex req s = (r, t)" by fastforce
  have "\<exists>k \<le> 1. lease_run k (lease_view_of s) (lease_view_of t)"
    using run
  proof (cases rule: acquire_lease_cases)
    case unchanged
    then show ?thesis using lease_view_same_rows lease_run.start by fastforce
  next
    case (reclaimed u now)
    then have "lease_run 0 (lease_view_of s) (lease_view_of t)"
      using reclaim_expired_variant_quiet [OF reclaimed(2)] inv lease_view_same_rows [OF reclaimed(1)] by simp
    then show ?thesis by auto
  next
    case (granted u now x w q e ttl rows)
    then have "lease_run 0 (lease_view_of s) (lease_view_of w)"
      using reclaim_expired_variant_quiet [OF granted(2)] inv lease_view_same_rows [OF granted(1)] by simp
    from lease_run_trans [OF lease_run_grant [OF acquire_commit_grants [OF granted(3)]] this]
    show ?thesis using granted(4) by auto
  qed
  with run show "\<exists>k \<le> 1. lease_run k (lease_view_of s) (lease_view_of (snd (acquire_lease ex req s)))" by simp
qed

lemma refines_heartbeat: "refines_protocol (heartbeat ex req)"
  unfolding refines_protocol_def
proof (intro allI impI)
  fix s n
  obtain r t where run: "heartbeat ex req s = (r, t)" by fastforce
  have "lease_run 0 (lease_view_of s) (lease_view_of t)"
    using run
  proof (cases rule: heartbeat_cases)
    case unchanged
    then show ?thesis using lease_view_same_rows lease_run.start by fastforce
  next
    case (renewed m l a now e)
    have "quiet_step (lease_view_of s) (lease_view_of t)"
      using quiet_step.renew [of "lease_view_of s" "hb_variant_id req" l "l\<lparr>al_heartbeat_at := now, al_expires_at := e\<rparr>"]
        renewed by (simp add: same_tenure_def lease_view_of_def bt_get_insert_fun)
    then show ?thesis by (rule lease_run_quiet)
  qed
  with run show "\<exists>k \<le> 1. lease_run k (lease_view_of s) (lease_view_of (snd (heartbeat ex req s)))" by auto
qed

lemma release_cases:
  assumes "release_lease ex req s = (r, t)"
  obtains (unchanged) "same_rows s t"
    | (released) l a where "bt_get (ml_leases s) (rq_variant_id req) = Some l" "al_attempt_id l = rq_attempt_id req"
        "bt_get (ml_attempts s) (rq_attempt_id req) = Some a"
        "attempt_transition (at_state a) (rq_final_state req) = Inr (rq_final_state req)"
        "is_terminal_release_target (rq_final_state req)"
        "lease_view_of t = (lease_view_of s)\<lparr>lv_leases := (bt_get (ml_leases s))(rq_variant_id req := None),
           lv_attempts := (bt_get (ml_attempts s))(rq_attempt_id req \<mapsto> a\<lparr>at_state := rq_final_state req\<rparr>)\<rparr>"
  using assms unfolding release_lease_def
proof (cases rule: st_bind_cases)
  case (err e)
  then show thesis using unchanged tick_Err(3) by fastforce
next
  case (ok un u)
  then obtain m where u: "u = s\<lparr>ml_fail_after_writes := m\<rparr>" by (auto elim: tick_Ok)
  show thesis
  proof (cases "is_terminal_release_target (rq_final_state req) \<and>
      (\<exists>l a. bt_get (ml_leases s) (rq_variant_id req) = Some l \<and> al_attempt_id l = rq_attempt_id req \<and>
        bt_get (ml_attempts s) (rq_attempt_id req) = Some a \<and> is_ok (attempt_transition (at_state a) (rq_final_state req)))")
    case False
    then have "t = u"
      using ok(2) by (auto simp: u result_simps is_ok_def ok_or_def Let_def split: if_splits option.splits sum.splits)
    with u unchanged show thesis by simp
  next
    case True
    then obtain l a st where l: "bt_get (ml_leases s) (rq_variant_id req) = Some l" "al_attempt_id l = rq_attempt_id req"
      and a: "bt_get (ml_attempts s) (rq_attempt_id req) = Some a"
      and tr: "attempt_transition (at_state a) (rq_final_state req) = Inr st"
      and fin: "is_terminal_release_target (rq_final_state req)"
      by (auto simp: is_ok_iff)
    then have st: "st = rq_final_state req" using attempt_machine.target by blast
    let ?w = "(set_attempt_state (rq_attempt_id req) st u)\<lparr>ml_leases := bt_remove (rq_variant_id req) (ml_leases u)\<rparr>"
    have "st_bind (if rq_requeue req then requeue_package (at_work_package_id a) (simulation_time ex u) else st_ok ())
        (\<lambda>_. st_modify (push_event ex ''lease_released'' (rq_attempt_id req) (Some (rq_variant_id req)) None None)) ?w = (r, t)"
      using ok(2) l a tr fin
      by (simp add: u Let_def st_bind_def [of "st_get f" for f] st_bind_def [of "st_lift f" for f]
          st_bind_def [of "st_modify f" for f] st_get_def st_lift_def st_modify_def set_attempt_state_def
          cong: if_cong)
    then have "lease_view_of t = lease_view_of ?w"
      by (rule keepsD [rotated]) (intro keeps_intros; simp add: keeps_intros)
    then have "lease_view_of t = (lease_view_of s)\<lparr>lv_leases := (bt_get (ml_leases s))(rq_variant_id req := None),
           lv_attempts := (bt_get (ml_attempts s))(rq_attempt_id req \<mapsto> a\<lparr>at_state := rq_final_state req\<rparr>)\<rparr>"
      using a by (simp add: u st set_attempt_state_def lease_view_of_def bt_get_insert_fun bt_get_remove_fun)
    with l a tr st fin released show thesis by simp
  qed
qed

lemma refines_release: "refines_protocol (release_lease ex req)"
  unfolding refines_protocol_def
proof (intro allI impI)
  fix s n
  obtain r t where run: "release_lease ex req s = (r, t)" by fastforce
  then have "lease_run 0 (lease_view_of s) (lease_view_of t)"
  proof (cases rule: release_cases)
    case unchanged
    then show ?thesis using lease_view_same_rows lease_run.start by fastforce
  next
    case (released l a)
    have "quiet_step (lease_view_of s) (lease_view_of t)"
      using quiet_step.retire [of "lease_view_of s" "rq_variant_id req" l a "rq_final_state req"] released by simp
    then show ?thesis by (rule lease_run_quiet)
  qed
  with run show "\<exists>k \<le> 1. lease_run k (lease_view_of s) (lease_view_of (snd (release_lease ex req s)))" by auto
qed

lemma put_attempt_cases:
  assumes "put_attempt b s = (r, t)"
  obtains (unchanged) "same_rows s t" "\<not> is_ok r"
    | (stored) m a where "bt_get (ml_attempts s) (at_id b) = Some a"
        "at_variant_id a = at_variant_id b" "at_work_package_id a = at_work_package_id b" "at_fence a = at_fence b"
        "at_runner_id a = at_runner_id b" "at_runner_epoch a = at_runner_epoch b"
        "at_workspace_id a = at_workspace_id b" "at_workspace_nonce a = at_workspace_nonce b"
        "legal_state_change (at_state a) (at_state b)" "r = Inr ()"
        "t = s\<lparr>ml_fail_after_writes := m, ml_attempts := bt_insert (at_id b) b (ml_attempts s)\<rparr>"
  using assms unfolding put_attempt_def
proof (cases rule: st_bind_cases)
  case (err e)
  then show thesis using unchanged tick_Err(3) by fastforce
next
  case (ok un u)
  then obtain m where u: "u = s\<lparr>ml_fail_after_writes := m\<rparr>" by (auto elim: tick_Ok)
  have legal: "legal_state_change x y" if "attempt_transition x y = Inr z" for x y z
    using that attempt_machine.target [OF that] by (simp add: legal_state_change_def)
  have self: "legal_state_change x x" for x by (simp add: legal_state_change_def)
  show thesis
  proof (cases "bt_get (ml_attempts s) (at_id b)")
    case None
    with ok(2) u have "t = u" "\<not> is_ok r" by auto
    with u unchanged show thesis by simp
  next
    case (Some a)
    let ?same = "at_variant_id a = at_variant_id b \<and> at_work_package_id a = at_work_package_id b \<and>
      at_fence a = at_fence b \<and> at_runner_id a = at_runner_id b \<and> at_runner_epoch a = at_runner_epoch b \<and>
      at_workspace_id a = at_workspace_id b \<and> at_workspace_nonce a = at_workspace_nonce b"
    show thesis
    proof (cases "?same \<and> (at_state a = at_state b \<or> is_ok (attempt_transition (at_state a) (at_state b)))")
      case True
      then have "legal_state_change (at_state a) (at_state b)" using legal self by (auto simp: is_ok_iff)
      moreover have "r = Inr () \<and> t = u\<lparr>ml_attempts := bt_insert (at_id b) b (ml_attempts s)\<rparr>"
      proof (cases "at_state a = at_state b")
        case False
        then obtain st where "attempt_transition (at_state a) (at_state b) = Inr st"
          using True by (auto simp: is_ok_iff)
        with False True ok(2) Some show ?thesis by (simp add: u)
      qed (use True ok(2) Some in \<open>simp add: u\<close>)
      ultimately show thesis using stored [OF Some] True u by blast
    next
      case False
      then have "t = u \<and> \<not> is_ok r"
        using ok(2) Some by (auto simp: u is_ok_def split: if_splits sum.splits)
      with u unchanged show thesis by simp
    qed
  qed
qed

lemma refines_put_attempt: "refines_protocol (put_attempt b)"
  unfolding refines_protocol_def
proof (intro allI impI)
  fix s n assume inv: "lease_inv n (lease_view_of s)"
  obtain r t where run: "put_attempt b s = (r, t)" by fastforce
  then have "lease_run 0 (lease_view_of s) (lease_view_of t)"
  proof (cases rule: put_attempt_cases)
    case unchanged
    then show ?thesis using lease_view_same_rows lease_run.start by fastforce
  next
    case (stored m a)
    have "at_id a = at_id b" using lease_invD(1) [OF inv] stored(1) by simp
    then have "quiet_step (lease_view_of s) (lease_view_of t)"
      using quiet_step.adjust [of "lease_view_of s" b a] stored
      by (simp add: same_incarnation_def lease_view_of_def bt_get_insert_fun)
    then show ?thesis by (rule lease_run_quiet)
  qed
  with run show "\<exists>k \<le> 1. lease_run k (lease_view_of s) (lease_view_of (snd (put_attempt b s)))" by auto
qed

end
