(* ===== verification/Memory_Commands.thy ===== *)
theory Memory_Commands
  imports Memory_Leases
begin

text \<open>
  Command admission, exact replay and offline settlement of the in-process ledger, with the coding
  admission of a submitted command: \<^verbatim>\<open>crates/application/src/memory/commands.rs\<close>.
\<close>

section \<open>Commands\<close>

definition pending_record :: "'x ledger_ext_scheme \<Rightarrow> command_request \<Rightarrow> command_record" where
  "pending_record ex q = \<lparr>cr_id = command_id ex q, cr_idempotency_key = cq_idempotency_key q,
     cr_kind = cq_kind q, cr_payload = cq_payload q, cr_payload_digest = command_digest ex q,
     cr_phase = CpPending, cr_response = None\<rparr>"

definition record_command :: "'x ledger_ext_scheme \<Rightarrow> command_request \<Rightarrow> command_record ledger_op" where
  "record_command ex q =
     st_bind (st_lift (from_domain (command_validate ex q))) (\<lambda>_.
     st_bind tick (\<lambda>_ s.
       case bt_get (ml_commands s) (cq_idempotency_key q) of
         Some existing \<Rightarrow>
           (case from_domain (command_matches ex q existing) of
              Inl e \<Rightarrow> (Err e, s)
            | Inr _ \<Rightarrow> (Ok existing, s))
       | None \<Rightarrow>
           (case from_domain (record_validate ex (pending_record ex q)) of
              Inl e \<Rightarrow> (Err e, s)
            | Inr _ \<Rightarrow> (Ok (pending_record ex q),
                s\<lparr>ml_commands := bt_insert (cq_idempotency_key q) (pending_record ex q) (ml_commands s)\<rparr>))))"

definition get_command :: "'x ledger_ext_scheme \<Rightarrow> string \<Rightarrow> memory_ledger \<Rightarrow> ledger_error + command_record option" where
  "get_command ex key s =
     (case bt_get (ml_commands s) key of
        None \<Rightarrow> Ok None
      | Some r \<Rightarrow> res_bind (from_domain (record_validate ex r)) (\<lambda>_. Ok (Some r)))"

definition get_command_by_id ::
    "'x ledger_ext_scheme \<Rightarrow> string \<Rightarrow> memory_ledger \<Rightarrow> ledger_error + command_record option" where
  "get_command_by_id ex cid s =
     (case filter (\<lambda>r. cr_id r = cid) (bt_values (ml_commands s)) of
        [] \<Rightarrow> Ok None
      | [r] \<Rightarrow> res_bind (from_domain (record_validate ex r)) (\<lambda>_. Ok (Some r))
      | _ \<Rightarrow> Err (LeStore (''multiple commands have durable id '' @ cid)))"

definition outbox_enqueue ::
    "'x ledger_ext_scheme \<Rightarrow> string option \<Rightarrow> string \<Rightarrow> string \<Rightarrow> u64 ledger_op" where
  "outbox_enqueue ex command kind payload =
     st_bind (st_get (\<lambda>s.
       case command of
         None \<Rightarrow> Ok ()
       | Some cid \<Rightarrow>
           res_bind (get_command_by_id ex cid s) (\<lambda>found.
             case found of
               Some _ \<Rightarrow> Ok ()
             | None \<Rightarrow> Err (LeDomain (Conflict (''outbox command '' @ cid @ '' does not exist'')))))) (\<lambda>_.
     st_bind tick (\<lambda>_ s.
       let seq = of_nat (length (ml_outbox s)) + 1 in
       (Ok seq, s\<lparr>ml_outbox := ml_outbox s @
          [\<lparr>ob_seq = seq, ob_command_id = command, ob_kind = kind, ob_payload = payload,
            ob_phase = CpPending, ob_delivered_at = None, ob_acked_at = None\<rparr>]\<rparr>)))"

definition set_command_phase ::
    "'x ledger_ext_scheme \<Rightarrow> string \<Rightarrow> command_phase \<Rightarrow> string option \<Rightarrow> unit ledger_op" where
  "set_command_phase ex key phase response =
     st_bind (st_get (\<lambda>s. ok_or (bt_get (ml_commands s) key) (LeStore (''unknown command key '' @ key)))) (\<lambda>r.
     let r' = r\<lparr>cr_phase := phase, cr_response := (case response of Some x \<Rightarrow> Some x | None \<Rightarrow> cr_response r)\<rparr> in
     st_bind (st_lift (from_domain (record_validate ex r'))) (\<lambda>_.
     st_bind tick (\<lambda>_.
       st_modify (\<lambda>s. s\<lparr>ml_commands := bt_insert key r' (ml_commands s)\<rparr>))))"

section \<open>Coding admission\<close>

text \<open>Issuing a nonce touches no other map, so the whole view is read after it.\<close>

definition issue_coding_nonce :: "string \<Rightarrow> string \<Rightarrow> unit ledger_op" where
  "issue_coding_nonce key digest s =
     (if bt_contains (ml_authority_nonces s) key then (Err (LeStore ''nonce already issued''), s)
      else (Ok (), s\<lparr>ml_authority_nonces := bt_insert key (digest, False) (ml_authority_nonces s)\<rparr>))"

definition nonce_row_state :: "bool \<Rightarrow> nonce_state" where
  "nonce_row_state consumed = (if consumed then NsConsumed else NsIssued)"

text \<open>The sum of the reservations is a \<open>u64\<close> sum.\<close>

definition admission_view ::
    "run_coding_payload \<Rightarrow> memory_ledger \<Rightarrow> coding_admission_view" where
  "admission_view p s =
     \<lparr>av_authority_epoch = (case ml_authority s of Some a \<Rightarrow> na_authority_epoch a | None \<Rightarrow> 1),
      av_used_quota = sum_list (bt_values (ml_budget_reservations s)),
      av_existing_reservation = map_option (\<lambda>amount. (rc_quota_reservation p, amount))
        (bt_get (ml_budget_reservations s) (rc_quota_reservation p)),
      av_nonce = map_option (\<lambda>(digest, consumed). (digest, nonce_row_state consumed))
        (bt_get (ml_authority_nonces s) (rc_launch_nonce p))\<rparr>"

definition issue_on_first_insert :: "string \<Rightarrow> string \<Rightarrow> bool \<Rightarrow> memory_ledger \<Rightarrow> memory_ledger" where
  "issue_on_first_insert nonce digest existed s =
     (if \<not> existed \<and> \<not> bt_contains (ml_authority_nonces s) nonce
      then s\<lparr>ml_authority_nonces := bt_insert nonce (digest, False) (ml_authority_nonces s)\<rparr>
      else s)"

definition admit_run_coding :: "'x ledger_ext_scheme \<Rightarrow> command_request \<Rightarrow> bool \<Rightarrow> unit ledger_op" where
  "admit_run_coding ex q existed =
     (if cq_kind q \<noteq> RUN_CODING_KIND then st_ok ()
      else
        st_bind (st_lift (from_domain (run_coding_parse ex (cq_payload q)))) (\<lambda>p.
        let digest = to_hex ex (command_digest ex q) in
        st_bind (st_modify (issue_on_first_insert (rc_launch_nonce p) digest existed)) (\<lambda>_ s.
          case from_domain (plan_run_coding_admission ex q existed (admission_view p s)) of
            Inl e \<Rightarrow> (Err e, s)
          | Inr None \<Rightarrow> (Ok (), s)
          | Inr (Some plan) \<Rightarrow>
              (case bt_get (ml_authority_nonces s) (ap_consume_nonce plan) of
                 None \<Rightarrow> (Err (LeStore ''run_coding launch nonce is absent''), s)
               | Some row \<Rightarrow>
                   if fst row \<noteq> digest \<or> snd row then
                     (Err (LeStore ''run_coding launch nonce is not issued for this request''), s)
                   else
                     (Ok (), s\<lparr>ml_authority_nonces :=
                          bt_insert (ap_consume_nonce plan) (fst row, True) (ml_authority_nonces s),
                        ml_budget_reservations := bt_insert (fst (ap_reservation plan)) (snd (ap_reservation plan))
                          (ml_budget_reservations s)\<rparr>)))))"

section \<open>Submission\<close>

definition submitted_events :: "string \<Rightarrow> memory_ledger \<Rightarrow> ledger_event list" where
  "submitted_events cid s =
     filter (\<lambda>e. le_kind e = ''command_submitted'' \<and> le_body e = cid \<and> le_correlation_id e = Some cid) (ml_events s)"

definition dispatch_ok :: "outbox_item list \<Rightarrow> string \<Rightarrow> bool" where
  "dispatch_ok rows dispatch \<longleftrightarrow>
     length rows = 1 \<and> ob_kind (rows ! 0) = ''command_dispatch'' \<and> ob_payload (rows ! 0) = dispatch"

definition submit_replay_check :: "string \<Rightarrow> string \<Rightarrow> memory_ledger \<Rightarrow> ledger_error + unit" where
  "submit_replay_check cid dispatch s =
     (if \<not> dispatch_ok (outbox_for_command s cid) dispatch then
        Err (LeStore ''public command has incomplete or conflicting outbox truth'')
      else if length (submitted_events cid s) \<noteq> 1 then
        Err (LeStore ''public command has incomplete or conflicting event truth'')
      else Ok ())"

definition submit_body :: "'x ledger_ext_scheme \<Rightarrow> command_request \<Rightarrow> command_record ledger_op" where
  "submit_body ex q =
     st_bind (st_get (\<lambda>s. Ok (bt_contains (ml_commands s) (cq_idempotency_key q)))) (\<lambda>existed.
     st_bind (record_command ex q) (\<lambda>r.
     st_bind (st_lift (map_err LeStore (x_enc_request ex q))) (\<lambda>dispatch.
     st_bind (if existed then st_get (submit_replay_check (cr_id r) dispatch)
              else st_bind (outbox_enqueue ex (Some (cr_id r)) ''command_dispatch'' dispatch) (\<lambda>_.
                   st_bind tick (\<lambda>_.
                     st_modify (push_event ex ''command_submitted'' (cr_id r) (Some (cr_id r)) (Some (cr_id r)) None))))
       (\<lambda>_.
     st_bind (admit_run_coding ex q existed) (\<lambda>_. st_ok r)))))"

definition submit_command :: "'x ledger_ext_scheme \<Rightarrow> command_request \<Rightarrow> command_record ledger_op" where
  "submit_command ex q = transaction (submit_body ex q)"

section \<open>Offline settlement\<close>

definition reconciled_events :: "string \<Rightarrow> memory_ledger \<Rightarrow> ledger_event list" where
  "reconciled_events cid s =
     filter (\<lambda>e. le_kind e = COMMAND_RECONCILED_EVENT \<and> le_correlation_id e = Some cid) (ml_events s)"

record reconcile_plan =
  rp_record :: command_record
  rp_expected :: command_record
  rp_resolution :: offline_resolution
  rp_row :: outbox_item

definition reconcile_check :: "'x ledger_ext_scheme \<Rightarrow> string \<Rightarrow> memory_ledger \<Rightarrow> ledger_error + reconcile_plan" where
  "reconcile_check ex cid s =
     res_bind (get_command_by_id ex cid s) (\<lambda>found.
     res_bind (ok_or found (LeStore (''unknown command '' @ cid))) (\<lambda>r.
     res_bind (from_domain (command_from_json ex (cr_idempotency_key r) (cr_kind r) (cr_payload r))) (\<lambda>q.
     res_bind (from_domain (command_matches ex q r)) (\<lambda>_.
     res_bind (map_err LeStore (x_enc_request ex q)) (\<lambda>dispatch.
     if \<not> dispatch_ok (outbox_for_command s cid) dispatch then
       Err (LeStore ''command has incomplete or conflicting dispatch truth'')
     else if length (submitted_events cid s) \<noteq> 1 then
       Err (LeStore ''command has incomplete or conflicting submitted audit truth'')
     else
       res_bind (from_domain (offline_worker_resolution ex q)) (\<lambda>res.
       res_bind (from_domain (resolved_record ex res r)) (\<lambda>expected.
         Ok \<lparr>rp_record = r, rp_expected = expected, rp_resolution = res,
             rp_row = outbox_for_command s cid ! 0\<rparr>)))))))"

text \<open>The row the plan found is the only one of this command, so it is addressed by the command.\<close>

definition reconcile_write :: "'x ledger_ext_scheme \<Rightarrow> string \<Rightarrow> string \<Rightarrow> reconcile_plan \<Rightarrow> command_record ledger_op" where
  "reconcile_write ex cid now plan =
     (let res = rp_resolution plan in
      st_bind tick (\<lambda>_.
      st_bind (st_modify (\<lambda>s. s\<lparr>ml_commands :=
          bt_insert (cr_idempotency_key (rp_record plan)) (rp_expected plan) (ml_commands s)\<rparr>)) (\<lambda>_.
      st_bind tick (\<lambda>_.
      st_bind (st_modify (\<lambda>s. s\<lparr>ml_outbox := map (\<lambda>i. if ob_command_id i = Some cid
          then i\<lparr>ob_phase := or_phase res, ob_acked_at := Some now\<rparr> else i) (ml_outbox s)\<rparr>)) (\<lambda>_.
      st_bind tick (\<lambda>_.
      st_bind (st_modify (push_event ex COMMAND_RECONCILED_EVENT (or_response res) (Some cid) (Some cid) None)) (\<lambda>_.
        st_ok (rp_expected plan))))))))"

definition reconcile_body :: "'x ledger_ext_scheme \<Rightarrow> string \<Rightarrow> string \<Rightarrow> command_record ledger_op" where
  "reconcile_body ex cid now =
     st_bind (st_get (reconcile_check ex cid)) (\<lambda>plan s.
       let r = rp_record plan; row = rp_row plan; res = rp_resolution plan; recon = reconciled_events cid s in
       if cr_phase r \<noteq> CpPending then
         (if r \<noteq> rp_expected plan \<or> ob_phase row \<noteq> or_phase res \<or> ob_delivered_at row \<noteq> None
             \<or> ob_acked_at row = None \<or> length recon \<noteq> 1 \<or> le_body (recon ! 0) \<noteq> or_response res then
            (Err (LeStore ''command has conflicting reconciled truth''), s)
          else (Ok r, s))
       else if ob_phase row \<noteq> CpPending \<or> ob_delivered_at row \<noteq> None \<or> ob_acked_at row \<noteq> None \<or> recon \<noteq> [] then
         (Err (LeStore ''pending command has conflicting worker truth''), s)
       else reconcile_write ex cid now plan s)"

definition reconcile_offline_command ::
    "'x ledger_ext_scheme \<Rightarrow> string \<Rightarrow> string \<Rightarrow> command_record ledger_op" where
  "reconcile_offline_command ex cid now = transaction (reconcile_body ex cid now)"

end
