(* ===== verification/Graph_Delta.thy ===== *)
theory Graph_Delta
  imports Memory_Commands
begin

text \<open>
  Plans and graph deltas: \<^verbatim>\<open>materializer.rs\<close>, \<^verbatim>\<open>graph_delta.rs\<close>, and their transactions in
  \<^verbatim>\<open>memory/materialization.rs\<close> and \<^verbatim>\<open>memory/mod.rs\<close>, under \<^verbatim>\<open>crates/application/src\<close>. The codecs of
  the stored results, of a delta and of a canonical plan are fields of \<open>graph_ext\<close>.
\<close>

section \<open>Deltas\<close>

datatype graph_delta_failure =
    GfConversation conversation_refusal | GfCodingTask coding_task_refusal | GfStore string
  | GfUnsupportedSchema string | GfInvalidId string | GfInvalidTransition string string
  | GfInvalidLeaseTtl int | GfStaleAuthority string | GfFence string | GfIdempotency string
  | GfEncoding string | GfConflict string | GfUnknownState string

text \<open>A panic never reaches \<open>from_error\<close>; it is mapped to the store error to keep the function total.\<close>

fun failure_from_error :: "ledger_error \<Rightarrow> graph_delta_failure" where
  "failure_from_error (LeConversation r) = GfConversation r"
| "failure_from_error (LeCodingTask r) = GfCodingTask r"
| "failure_from_error (LeStore m) = GfStore m"
| "failure_from_error (LeUnsupportedSchema d) = GfUnsupportedSchema d"
| "failure_from_error (LeDomain (InvalidId m)) = GfInvalidId m"
| "failure_from_error (LeDomain (InvalidTransition f t)) = GfInvalidTransition f t"
| "failure_from_error (LeDomain (InvalidLeaseTtl n)) = GfInvalidLeaseTtl n"
| "failure_from_error (LeDomain (StaleAuthority m)) = GfStaleAuthority m"
| "failure_from_error (LeDomain (FenceError m)) = GfFence m"
| "failure_from_error (LeDomain (Idempotency m)) = GfIdempotency m"
| "failure_from_error (LeDomain (Encoding m)) = GfEncoding m"
| "failure_from_error (LeDomain (Conflict m)) = GfConflict m"
| "failure_from_error (LeDomain (UnknownState m)) = GfUnknownState m"
| "failure_from_error LePanic = GfStore []"

fun failure_into_error :: "graph_delta_failure \<Rightarrow> ledger_error" where
  "failure_into_error (GfConversation r) = LeConversation r"
| "failure_into_error (GfCodingTask r) = LeCodingTask r"
| "failure_into_error (GfStore m) = LeStore m"
| "failure_into_error (GfUnsupportedSchema d) = LeUnsupportedSchema d"
| "failure_into_error (GfInvalidId m) = LeDomain (InvalidId m)"
| "failure_into_error (GfInvalidTransition f t) = LeDomain (InvalidTransition f t)"
| "failure_into_error (GfInvalidLeaseTtl n) = LeDomain (InvalidLeaseTtl n)"
| "failure_into_error (GfStaleAuthority m) = LeDomain (StaleAuthority m)"
| "failure_into_error (GfFence m) = LeDomain (FenceError m)"
| "failure_into_error (GfIdempotency m) = LeDomain (Idempotency m)"
| "failure_into_error (GfEncoding m) = LeDomain (Encoding m)"
| "failure_into_error (GfConflict m) = LeDomain (Conflict m)"
| "failure_into_error (GfUnknownState m) = LeDomain (UnknownState m)"

datatype delta_result = DrApplied stored_graph | DrFailed graph_delta_failure

datatype graph_op =
    SetPackageState string work_package_state work_package_state
  | BumpFence string u64 u64

record graph_delta =
  gd_parent :: digest
  gd_ops :: "graph_op list"

record canonical_package =
  cn_title :: string
  cn_task_class :: task_class

record canonical_plan =
  cl_seed :: string
  cl_title :: string
  cl_objective :: string
  cl_packages :: "canonical_package list"

record graph_ext = ledger_ext +
  x_enc_delta_result :: "delta_result \<Rightarrow> string + string"
  x_dec_delta_result :: "string \<Rightarrow> string + delta_result"
  x_enc_delta :: "graph_delta \<Rightarrow> string + string"
  x_enc_materialized :: "stored_graph \<Rightarrow> string + string"
  x_dec_materialized :: "string \<Rightarrow> string + stored_graph"
  x_enc_graph :: "stored_graph \<Rightarrow> string + string"
  x_enc_plan :: "canonical_plan \<Rightarrow> string + string"

definition delta_result_applied :: "'x graph_ext_scheme \<Rightarrow> stored_graph \<Rightarrow> ledger_error + string" where
  "delta_result_applied ex g = map_err LeStore (x_enc_delta_result ex (DrApplied g))"

definition delta_result_failed :: "'x graph_ext_scheme \<Rightarrow> ledger_error \<Rightarrow> ledger_error + string" where
  "delta_result_failed ex e = map_err LeStore (x_enc_delta_result ex (DrFailed (failure_from_error e)))"

definition delta_result_decode :: "'x graph_ext_scheme \<Rightarrow> string \<Rightarrow> ledger_error + delta_result" where
  "delta_result_decode ex v = map_err LeStore (x_dec_delta_result ex v)"

definition delta_digest :: "'x graph_ext_scheme \<Rightarrow> graph_delta \<Rightarrow> domain_error + digest" where
  "delta_digest ex d = of_json ex (x_enc_delta ex) d"

definition graph_digest :: "'x graph_ext_scheme \<Rightarrow> stored_graph \<Rightarrow> digest" where
  "graph_digest ex g =
     (let nl = [char_of (10 :: nat)] in
      digest_of ex
        (mi_id (sg_mission g) @ nl @ to_hex ex (pr_canonical_hash (sg_plan g)) @ nl
         @ concat (map (\<lambda>p. wp_id p @ '':'' @ work_package_state_debug (wp_state p) @ nl) (sg_packages g))
         @ concat (map (\<lambda>v. va_id v @ '':'' @ show_u (va_fence_counter v) @ nl) (sg_variants g))))"

definition apply_op :: "stored_graph \<Rightarrow> graph_op \<Rightarrow> ledger_error + stored_graph" where
  "apply_op g gop =
     (case gop of
        SetPackageState pid frm to \<Rightarrow>
          res_bind (ok_or (position (\<lambda>p. wp_id p = pid) (sg_packages g)) (LeStore ''package missing'')) (\<lambda>i.
          let p = sg_packages g ! i in
          if wp_state p \<noteq> frm then
            Err (LeDomain (Conflict (''package '' @ pid @ '' is '' @ work_package_state_debug (wp_state p)
              @ '' not '' @ work_package_state_debug frm)))
          else
            res_bind (from_domain (work_package_transition (wp_state p) to)) (\<lambda>st.
              Ok (g\<lparr>sg_packages := (sg_packages g)[i := p\<lparr>wp_state := st\<rparr>]\<rparr>)))
      | BumpFence vid frm to \<Rightarrow>
          if to \<noteq> saturating_add frm 1 then
            Err (LeDomain (FenceError (show_u frm @ '' -> '' @ show_u to)))
          else
            res_bind (ok_or (position (\<lambda>v. va_id v = vid) (sg_variants g)) (LeStore ''variant missing'')) (\<lambda>i.
            let v = sg_variants g ! i in
            if va_fence_counter v \<noteq> frm then
              Err (LeDomain (FenceError (''variant fence is '' @ show_u (va_fence_counter v) @ '' not '' @ show_u frm)))
            else Ok (g\<lparr>sg_variants := (sg_variants g)[i := v\<lparr>va_fence_counter := to\<rparr>]\<rparr>)))"

fun apply_ops :: "stored_graph \<Rightarrow> graph_op list \<Rightarrow> ledger_error + stored_graph" where
  "apply_ops g [] = Ok g"
| "apply_ops g (gop # gops) = res_bind (apply_op g gop) (\<lambda>g'. apply_ops g' gops)"

fun op_present :: "stored_graph \<Rightarrow> graph_op \<Rightarrow> bool" where
  "op_present g (SetPackageState pid frm to) = list_ex (\<lambda>p. wp_id p = pid \<and> wp_state p = to) (sg_packages g)"
| "op_present g (BumpFence vid frm to) = list_ex (\<lambda>v. va_id v = vid \<and> va_fence_counter v = to) (sg_variants g)"

definition already_applied :: "stored_graph \<Rightarrow> graph_delta \<Rightarrow> bool" where
  "already_applied g d = list_all (op_present g) (gd_ops d)"

definition evaluate_graph_delta ::
    "'x graph_ext_scheme \<Rightarrow> stored_graph \<Rightarrow> graph_delta \<Rightarrow> ledger_error + stored_graph" where
  "evaluate_graph_delta ex g d =
     (if already_applied g d then Ok g
      else if graph_digest ex g \<noteq> gd_parent d then Err (LeDomain (Conflict ''parent digest mismatch''))
      else apply_ops g (gd_ops d))"

section \<open>The delta command\<close>

text \<open>\<open>get_mut\<close> on the command row, with the error of the source when it is absent.\<close>

definition settle_command :: "string \<Rightarrow> string \<Rightarrow> command_phase \<Rightarrow> string \<Rightarrow> unit ledger_op" where
  "settle_command missing key phase response s =
     (case bt_get (ml_commands s) key of
        None \<Rightarrow> (Err (LeStore missing), s)
      | Some r \<Rightarrow> (Ok (), s\<lparr>ml_commands :=
          bt_insert key (r\<lparr>cr_phase := phase, cr_response := Some response\<rparr>) (ml_commands s)\<rparr>))"

definition delta_replay ::
    "'x graph_ext_scheme \<Rightarrow> string \<Rightarrow> command_record \<Rightarrow> ledger_error + (ledger_error + stored_graph)" where
  "delta_replay ex mission r =
     (if cr_phase r = CpFailed then
        res_bind (ok_or (cr_response r) (LeStore ''failed delta command has no stored result'')) (\<lambda>response.
        res_bind (delta_result_decode ex response) (\<lambda>res.
          case res of
            DrFailed e \<Rightarrow> Ok (Err (failure_into_error e))
          | DrApplied _ \<Rightarrow> Err (LeStore ''failed delta command stores an applied result'')))
      else
        res_bind (ok_or (cr_response r) (LeStore ''applied delta command has no stored result'')) (\<lambda>response.
        res_bind (delta_result_decode ex response) (\<lambda>res.
          case res of
            DrApplied g \<Rightarrow>
              if mi_id (sg_mission g) = mission then Ok (Ok g)
              else Err (LeStore ''applied delta result belongs to another mission'')
          | DrFailed _ \<Rightarrow> Err (LeStore ''applied delta command stores a failed result''))))"

definition delta_fresh ::
    "'x graph_ext_scheme \<Rightarrow> command_request \<Rightarrow> string \<Rightarrow> graph_delta \<Rightarrow> (ledger_error + stored_graph) ledger_op" where
  "delta_fresh ex q mission d s =
     (case res_bind (ok_or (get_graph s mission) (LeStore ''graph missing'')) (\<lambda>g. evaluate_graph_delta ex g d) of
        Inl e \<Rightarrow>
          st_bind (st_lift (delta_result_failed ex e)) (\<lambda>response.
          st_bind tick (\<lambda>_.
          st_bind (settle_command ''delta command missing'' (cq_idempotency_key q) CpFailed response) (\<lambda>_.
          st_bind tick (\<lambda>_. st_ok (Err e))))) s
      | Inr next_graph \<Rightarrow>
          st_bind (st_lift (delta_result_applied ex next_graph)) (\<lambda>response.
          st_bind (st_lift (from_domain (delta_digest ex d))) (\<lambda>dig.
          st_bind tick (\<lambda>_.
          st_bind (st_modify (\<lambda>s. s\<lparr>ml_graphs := bt_insert mission next_graph (ml_graphs s)\<rparr>)) (\<lambda>_.
          st_bind tick (\<lambda>_.
          st_bind (st_modify (push_event ex ''graph_delta'' (to_hex ex dig) None None None)) (\<lambda>_.
          st_bind tick (\<lambda>_.
          st_bind (settle_command ''delta command missing'' (cq_idempotency_key q) CpApplied response) (\<lambda>_.
          st_bind tick (\<lambda>_. st_ok (Ok next_graph)))))))))) s)"

definition delta_body ::
    "'x graph_ext_scheme \<Rightarrow> command_request \<Rightarrow> string \<Rightarrow> graph_delta \<Rightarrow> (ledger_error + stored_graph) ledger_op" where
  "delta_body ex q mission d =
     st_bind (record_command ex q) (\<lambda>r.
       if cr_phase r \<in> {CpApplied, CpVerified, CpFailed} then st_lift (delta_replay ex mission r)
       else delta_fresh ex q mission d)"

text \<open>The closing \<open>tick\<close> comes after the commit: it can refuse although the rows stay.\<close>

definition apply_graph_delta_command ::
    "'x graph_ext_scheme \<Rightarrow> command_request \<Rightarrow> string \<Rightarrow> graph_delta \<Rightarrow> stored_graph ledger_op" where
  "apply_graph_delta_command ex q mission d =
     st_bind (transaction (delta_body ex q mission d)) (\<lambda>outcome.
     st_bind tick (\<lambda>_. st_lift outcome))"

definition apply_graph_delta :: "'x graph_ext_scheme \<Rightarrow> string \<Rightarrow> graph_delta \<Rightarrow> stored_graph ledger_op" where
  "apply_graph_delta ex mission d =
     st_bind (st_lift (from_domain (delta_digest ex d))) (\<lambda>dig.
     st_bind (st_lift (from_domain (command_new ex (x_enc_delta ex) (''delta:'' @ to_hex ex dig)
         ''apply_graph_delta'' d))) (\<lambda>q.
       apply_graph_delta_command ex q mission d))"

section \<open>Materialization\<close>

record plan_input =
  pi_title :: string
  pi_objective :: string
  pi_packages :: "(string \<times> task_class) list"

definition materialized_applied :: "'x graph_ext_scheme \<Rightarrow> stored_graph \<Rightarrow> ledger_error + string" where
  "materialized_applied ex g = map_err LeStore (x_enc_materialized ex g)"

definition materialized_decode :: "'x graph_ext_scheme \<Rightarrow> string \<Rightarrow> ledger_error + stored_graph" where
  "materialized_decode ex value =
     res_bind (map_err LeStore (x_dec_materialized ex value)) (\<lambda>g.
     res_bind (map_err LeStore (x_enc_materialized ex g)) (\<lambda>canonical.
     if canonical \<noteq> value then Err (LeStore ''materialization result is not canonical'') else Ok g))"

definition materialized_graph_for ::
    "'x graph_ext_scheme \<Rightarrow> stored_graph \<Rightarrow> stored_graph \<Rightarrow> ledger_error + stored_graph" where
  "materialized_graph_for ex g expected =
     res_bind (map_err LeStore (x_enc_graph ex g)) (\<lambda>stored.
     res_bind (map_err LeStore (x_enc_graph ex expected)) (\<lambda>wanted.
     if stored \<noteq> wanted then Err (LeStore ''materialization result does not match command graph'')
     else Ok g))"

definition canonical :: "string \<Rightarrow> plan_input \<Rightarrow> canonical_plan" where
  "canonical seed inp = \<lparr>cl_seed = seed, cl_title = pi_title inp, cl_objective = pi_objective inp,
     cl_packages = map (\<lambda>(t, c). \<lparr>cn_title = t, cn_task_class = c\<rparr>) (pi_packages inp)\<rparr>"

definition package_seed :: "string \<Rightarrow> nat \<Rightarrow> string" where
  "package_seed seed idx = seed @ '':wp:'' @ show_nat idx"

definition built_package :: "'x hash_ext_scheme \<Rightarrow> string \<Rightarrow> nat \<times> string \<times> task_class \<Rightarrow> work_package" where
  "built_package ex seed = (\<lambda>(idx, title, cls).
     \<lparr>wp_id = typed_id_from_seed ex ''wpk'' (package_seed seed idx),
      wp_mission_id = typed_id_from_seed ex ''mis'' seed,
      wp_plan_revision_id = typed_id_from_seed ex ''pln'' seed, wp_task_class = cls, wp_title = title,
      wp_state = WpReady\<rparr>)"

definition built_variant :: "'x hash_ext_scheme \<Rightarrow> string \<Rightarrow> nat \<Rightarrow> variant" where
  "built_variant ex seed idx =
     \<lparr>va_id = typed_id_from_seed ex ''var'' (package_seed seed idx),
      va_selection_group_id = typed_id_from_seed ex ''sel'' (package_seed seed idx),
      va_work_package_id = typed_id_from_seed ex ''wpk'' (package_seed seed idx), va_fence_counter = 0\<rparr>"

definition build_graph :: "'x hash_ext_scheme \<Rightarrow> string \<Rightarrow> plan_input \<Rightarrow> digest \<Rightarrow> stored_graph" where
  "build_graph ex seed inp canonical_hash =
     \<lparr>sg_mission = \<lparr>mi_id = typed_id_from_seed ex ''mis'' seed, mi_organization_id = typed_id_from_seed ex ''org'' seed,
        mi_repository_id = typed_id_from_seed ex ''rep'' seed, mi_title = pi_title inp,
        mi_objective = pi_objective inp, mi_acceptance_contract_id = typed_id_from_seed ex ''acc'' seed,
        mi_state = MsActive\<rparr>,
      sg_plan = \<lparr>pr_id = typed_id_from_seed ex ''pln'' seed, pr_mission_id = typed_id_from_seed ex ''mis'' seed,
        pr_canonical_hash = canonical_hash\<rparr>,
      sg_packages = map (built_package ex seed) (List.enumerate 0 (pi_packages inp)),
      sg_variants = map (built_variant ex seed) [0 ..< length (pi_packages inp)]\<rparr>"

fun open_fences_ticked :: "variant list \<Rightarrow> unit ledger_op" where
  "open_fences_ticked [] = st_ok ()"
| "open_fences_ticked (v # vs) =
     st_bind tick (\<lambda>_.
     st_bind (st_modify (\<lambda>s. s\<lparr>ml_fences := bt_or_insert (va_id v) 0 (ml_fences s)\<rparr>)) (\<lambda>_.
       open_fences_ticked vs))"

fun open_ready_ticked :: "string \<Rightarrow> work_package list \<Rightarrow> unit ledger_op" where
  "open_ready_ticked now [] = st_ok ()"
| "open_ready_ticked now (p # ps) =
     st_bind (if wp_state p = WpReady then
                st_bind tick (\<lambda>_. st_modify (\<lambda>s. s\<lparr>ml_ready := bt_or_insert (wp_id p) now (ml_ready s)\<rparr>))
              else st_ok ()) (\<lambda>_.
       open_ready_ticked now ps)"

definition materialize_replay ::
    "'x graph_ext_scheme \<Rightarrow> stored_graph \<Rightarrow> command_record \<Rightarrow> memory_ledger \<Rightarrow> ledger_error + stored_graph" where
  "materialize_replay ex g r s =
     res_bind (ok_or (cr_response r) (LeStore ''applied materialization command has no stored result'')) (\<lambda>response.
     res_bind (materialized_decode ex response) (\<lambda>stored.
     res_bind (materialized_graph_for ex stored g) (\<lambda>g'.
     res_bind (require_initial_contexts ex g' s) (\<lambda>_. Ok g'))))"

definition materialize_write ::
    "'x graph_ext_scheme \<Rightarrow> command_request \<Rightarrow> stored_graph \<Rightarrow> string \<Rightarrow> string \<Rightarrow> unit ledger_op" where
  "materialize_write ex q g now response =
     (let key = mi_id (sg_mission g) in
      st_bind tick (\<lambda>_.
      st_bind (st_modify (\<lambda>s. s\<lparr>ml_graphs := bt_insert key g (ml_graphs s)\<rparr>)) (\<lambda>_.
      st_bind tick (\<lambda>_.
      st_bind (insert_initial_contexts ex g now) (\<lambda>_.
      st_bind (open_fences_ticked (sg_variants g)) (\<lambda>_.
      st_bind (open_ready_ticked now (sg_packages g)) (\<lambda>_.
      st_bind tick (\<lambda>_.
      st_bind (st_modify (push_event ex ''graph_materialized'' key (Some key) (Some (cq_idempotency_key q)) None)) (\<lambda>_.
      st_bind tick (\<lambda>_.
      st_bind (settle_command ''materialization command missing'' (cq_idempotency_key q) CpApplied response) (\<lambda>_.
        tick)))))))))))"

definition materialize_body ::
    "'x graph_ext_scheme \<Rightarrow> command_request \<Rightarrow> stored_graph \<Rightarrow> string \<Rightarrow> stored_graph ledger_op" where
  "materialize_body ex q g now =
     st_bind (record_command ex q) (\<lambda>r.
       if cr_phase r \<in> {CpApplied, CpVerified} then st_get (materialize_replay ex g r)
       else if cr_phase r \<in> {CpFailed, CpUnknown} then
         st_err (LeStore (''materialization command is '' @ command_phase_as_str (cr_phase r)))
       else if cr_response r \<noteq> None then
         st_err (LeStore ''pending materialization command has a stored result'')
       else
         st_bind (st_get (\<lambda>s.
           if bt_contains (ml_graphs s) (mi_id (sg_mission g)) then
             Err (LeDomain (Conflict (''graph '' @ mi_id (sg_mission g) @ '' already materialized'')))
           else materialized_applied ex g)) (\<lambda>response.
         st_bind (materialize_write ex q g now response) (\<lambda>_. st_ok g)))"

definition materialize_plan_command ::
    "'x graph_ext_scheme \<Rightarrow> command_request \<Rightarrow> stored_graph \<Rightarrow> string \<Rightarrow> stored_graph ledger_op" where
  "materialize_plan_command ex q g now =
     st_bind (transaction (materialize_body ex q g now)) (\<lambda>outcome.
     st_bind tick (\<lambda>_. st_ok outcome))"

definition materialize_plan :: "'x graph_ext_scheme \<Rightarrow> string \<Rightarrow> plan_input \<Rightarrow> string \<Rightarrow> stored_graph ledger_op" where
  "materialize_plan ex seed inp now =
     st_bind (st_lift (from_domain (command_new ex (x_enc_plan ex) (''materialize:'' @ seed)
         ''materialize_plan'' (canonical seed inp)))) (\<lambda>q.
       materialize_plan_command ex q (build_graph ex seed inp (digest_of ex (cq_payload q))) now)"

end
