(* ===== verification/Memory_Effects.thy ===== *)
theory Memory_Effects
  imports Memory_Leases "HOL-Library.Product_Lexorder"
begin

text \<open>
  Effect intents and receipts of the in-process ledger,
  \<^verbatim>\<open>crates/application/src/memory/effects.rs\<close>: an intent is one row per provider and logical key, moves
  only along the effect state machine, and receipts are append-only.
\<close>

definition effect_key :: "string \<Rightarrow> string \<Rightarrow> string" where
  "effect_key provider logical_key = provider @ [char_of (31 :: nat)] @ logical_key"

definition record_effect_intent ::
    "'x ledger_ext_scheme \<Rightarrow> effect_intent \<Rightarrow> (effect_intent \<times> bool) ledger_op" where
  "record_effect_intent ex i =
     st_bind tick (\<lambda>_.
     if ei_state i \<noteq> EfProposed then
       st_err (LeDomain (Conflict (''effect intent '' @ ei_id i @ '' must be recorded as PROPOSED, not ''
         @ effect_as_str (ei_state i))))
     else
       st_bind (st_lift (from_domain (payload_digest ex (x_enc_effect ex) i))) (\<lambda>hash s.
         let normalized = i\<lparr>ei_payload_hash := hash, ei_unknown_retries := 0\<rparr>;
             key = effect_key (ei_provider i) (ei_logical_effect_key i) in
         case bt_get (ml_effect_keys s) key of
           Some eid \<Rightarrow>
             (case bt_get (ml_effect_intents s) eid of
                None \<Rightarrow> (Err (LeStore (''effect key '' @ key @ '' has no row'')), s)
              | Some existing \<Rightarrow>
                  if ei_payload_hash existing \<noteq> ei_payload_hash normalized then
                    (Err (LeDomain (Idempotency (''effect '' @ ei_provider i @ '':'' @ ei_logical_effect_key i
                       @ '' exists with a different identity''))), s)
                  else (Ok (existing, False), s))
         | None \<Rightarrow>
             if bt_contains (ml_effect_intents s) (ei_id i) then
               (Err (LeDomain (Conflict (''effect intent id '' @ ei_id i
                  @ '' already used by another logical key''))), s)
             else
               (Ok (normalized, True),
                push_event ex ''effect_intent_recorded'' (ei_id normalized) (Some (ei_attempt_id normalized)) None None
                  (s\<lparr>ml_effect_keys := bt_insert key (ei_id i) (ml_effect_keys s),
                     ml_effect_intents := bt_insert (ei_id i) normalized (ml_effect_intents s)\<rparr>))))"

definition get_effect_intent :: "memory_ledger \<Rightarrow> string \<Rightarrow> string \<Rightarrow> effect_intent option" where
  "get_effect_intent s provider logical_key =
     Option.bind (bt_get (ml_effect_keys s) (effect_key provider logical_key)) (bt_get (ml_effect_intents s))"

text \<open>\<open>unknown_retries += 1\<close> on \<open>u32\<close>: the release build wraps.\<close>

definition transition_effect :: "'x ledger_ext_scheme \<Rightarrow> string \<Rightarrow> effect_state \<Rightarrow> effect_intent ledger_op" where
  "transition_effect ex eid to =
     st_bind tick (\<lambda>_.
     st_bind (st_get (\<lambda>s. ok_or (bt_get (ml_effect_intents s) eid) (LeStore (''unknown effect intent '' @ eid)))) (\<lambda>existing.
     st_bind (st_lift (from_domain (effect_transition (ei_state existing) to))) (\<lambda>nxt.
     let updated = existing\<lparr>ei_state := nxt, ei_unknown_retries :=
           (if ei_state existing = EfOutcomeUnknown \<and> nxt = EfDispatching
            then ei_unknown_retries existing + 1 else ei_unknown_retries existing)\<rparr> in
     st_bind (st_modify (\<lambda>s. s\<lparr>ml_effect_intents := bt_insert eid updated (ml_effect_intents s)\<rparr>)) (\<lambda>_.
     st_bind (st_modify (push_event ex ''effect_transition''
         (eid @ '':'' @ effect_as_str (ei_state existing) @ ''->'' @ effect_as_str nxt)
         (Some (ei_attempt_id updated)) None None)) (\<lambda>_.
       st_ok updated)))))"

definition record_effect_receipt :: "'x ledger_ext_scheme \<Rightarrow> effect_receipt \<Rightarrow> bool ledger_op" where
  "record_effect_receipt ex rc =
     st_bind tick (\<lambda>_ s.
       case List.find (\<lambda>row. er_id row = er_id rc) (ml_effect_receipts s) of
         Some existing \<Rightarrow>
           if existing = rc then (Ok False, s)
           else (Err (LeDomain (Conflict (''effect receipt '' @ er_id rc @ '' differs from the stored row''))), s)
       | None \<Rightarrow>
           (Ok True, push_event ex ''effect_receipt_recorded'' (er_id rc) (Some (er_effect_intent_id rc)) None None
             (s\<lparr>ml_effect_receipts := ml_effect_receipts s @ [rc]\<rparr>)))"

definition effect_receipts :: "memory_ledger \<Rightarrow> string \<Rightarrow> effect_receipt list" where
  "effect_receipts s intent = filter (\<lambda>row. er_effect_intent_id row = intent) (ml_effect_receipts s)"

definition unresolved_effects :: "memory_ledger \<Rightarrow> effect_intent list" where
  "unresolved_effects s =
     sort_key (\<lambda>r. (ei_created_at r, ei_id r))
       (filter (\<lambda>r. is_unresolved (ei_state r)) (bt_values (ml_effect_intents s)))"

section \<open>Invariant\<close>

text \<open>
  Every key row points at the intent of that provider and key, every intent is stored under its own
  identity and its stored hash is the digest of its identity payload.
\<close>

definition effects_inv :: "'x ledger_ext_scheme \<Rightarrow> memory_ledger \<Rightarrow> bool" where
  "effects_inv ex s \<longleftrightarrow>
     (\<forall>k eid. bt_get (ml_effect_keys s) k = Some eid \<longrightarrow>
        (\<exists>i. bt_get (ml_effect_intents s) eid = Some i \<and> k = effect_key (ei_provider i) (ei_logical_effect_key i))) \<and>
     (\<forall>eid i. bt_get (ml_effect_intents s) eid = Some i \<longrightarrow> ei_id i = eid \<and>
        payload_digest ex (x_enc_effect ex) i = Inr (ei_payload_hash i) \<and>
        bt_get (ml_effect_keys s) (effect_key (ei_provider i) (ei_logical_effect_key i)) = Some eid)"

definition effect_rows ::
    "memory_ledger \<Rightarrow> (string, string) btree_map \<times> (string, effect_intent) btree_map" where
  "effect_rows s = (ml_effect_keys s, ml_effect_intents s)"

lemma effects_inv_rows: "effect_rows t = effect_rows s \<Longrightarrow> effects_inv ex t = effects_inv ex s"
  by (simp add: effects_inv_def effect_rows_def)

lemma effect_rows_same: "same_rows s t \<Longrightarrow> effect_rows t = effect_rows s"
  by (auto simp: same_rows_iff effect_rows_def)

lemma effect_rows_push_event [simp]: "effect_rows (push_event ex k b st c h s) = effect_rows s"
  by (simp add: effect_rows_def push_event_def Let_def)

lemma payload_digest_normal [simp]:
  "payload_digest ex enc (i\<lparr>ei_payload_hash := h, ei_unknown_retries := n\<rparr>) = payload_digest ex enc i"
  "payload_digest ex enc (i\<lparr>ei_state := st, ei_unknown_retries := n\<rparr>) = payload_digest ex enc i"
  by (simp_all add: payload_digest_def stable_payload_digest_def effect_stable_payload_def intent_identity_def)

lemma record_effect_intent_cases:
  assumes "record_effect_intent ex i s = (r, t)"
  obtains (refused) "same_rows s t" "\<not> is_ok r"
    | (existing) j where "same_rows s t" "r = Inr (j, False)"
        "get_effect_intent s (ei_provider i) (ei_logical_effect_key i) = Some j"
        "payload_digest ex (x_enc_effect ex) i = Inr (ei_payload_hash j)"
    | (added) hash where "payload_digest ex (x_enc_effect ex) i = Inr hash" "ei_state i = EfProposed"
        "bt_get (ml_effect_keys s) (effect_key (ei_provider i) (ei_logical_effect_key i)) = None"
        "bt_get (ml_effect_intents s) (ei_id i) = None"
        "r = Inr (i\<lparr>ei_payload_hash := hash, ei_unknown_retries := 0\<rparr>, True)"
        "effect_rows t = (bt_insert (effect_key (ei_provider i) (ei_logical_effect_key i)) (ei_id i) (ml_effect_keys s),
           bt_insert (ei_id i) (i\<lparr>ei_payload_hash := hash, ei_unknown_retries := 0\<rparr>) (ml_effect_intents s))"
  using assms unfolding record_effect_intent_def
proof (cases rule: st_bind_cases)
  case (err e)
  then show thesis using refused tick_Err(3) by fastforce
next
  case (ok un u)
  then obtain m where u: "u = s\<lparr>ml_fail_after_writes := m\<rparr>" by (auto elim: tick_Ok)
  let ?key = "effect_key (ei_provider i) (ei_logical_effect_key i)"
  show thesis
  proof (cases "ei_state i = EfProposed \<and> is_ok (payload_digest ex (x_enc_effect ex) i)")
    case False
    with ok(2) have "t = u" "\<not> is_ok r" by (auto simp: result_simps is_ok_def split: if_splits sum.splits)
    with u refused show thesis by simp
  next
    case True
    then obtain hash where hash: "payload_digest ex (x_enc_effect ex) i = Inr hash" "ei_state i = EfProposed"
      by (auto simp: is_ok_iff)
    show thesis
    proof (cases "bt_get (ml_effect_keys s) ?key")
      case (Some eid)
      show thesis
      proof (cases "\<exists>j. bt_get (ml_effect_intents s) eid = Some j \<and> ei_payload_hash j = hash")
        case True
        then obtain j where j: "bt_get (ml_effect_intents s) eid = Some j" "ei_payload_hash j = hash" by blast
        with ok(2) hash Some have "t = u" "r = Inr (j, False)" by (simp_all add: u result_simps Let_def)
        with j u hash Some show thesis by (intro existing) (auto simp: get_effect_intent_def)
      next
        case False
        with ok(2) hash Some have "t = u" "\<not> is_ok r"
          by (auto simp: u result_simps Let_def split: option.splits if_splits)
        with u refused show thesis by simp
      qed
    next
      case None
      show thesis
      proof (cases "bt_get (ml_effect_intents s) (ei_id i)")
        case (Some x)
        with ok(2) hash None have "t = u" "\<not> is_ok r" by (auto simp: u result_simps Let_def bt_contains_def)
        with u refused show thesis by simp
      next
        case none: None
        with ok(2) hash None have "r = Inr (i\<lparr>ei_payload_hash := hash, ei_unknown_retries := 0\<rparr>, True)"
          "effect_rows t = (bt_insert ?key (ei_id i) (ml_effect_keys s),
             bt_insert (ei_id i) (i\<lparr>ei_payload_hash := hash, ei_unknown_retries := 0\<rparr>) (ml_effect_intents s))"
          by (auto simp: u result_simps Let_def bt_contains_def) (auto simp: effect_rows_def push_event_def Let_def)
        with hash None none show thesis by (intro added)
      qed
    qed
  qed
qed

lemma effects_inv_record:
  assumes "effects_inv ex s"
  shows "effects_inv ex (snd (record_effect_intent ex i s))"
proof -
  obtain r t where run: "record_effect_intent ex i s = (r, t)" by fastforce
  then have "effects_inv ex t"
  proof (cases rule: record_effect_intent_cases)
    case (added hash)
    have new: "bt_get (ml_effect_keys t) k = (if k = effect_key (ei_provider i) (ei_logical_effect_key i)
        then Some (ei_id i) else bt_get (ml_effect_keys s) k)"
      "bt_get (ml_effect_intents t) e = (if e = ei_id i
        then Some (i\<lparr>ei_payload_hash := hash, ei_unknown_retries := 0\<rparr>) else bt_get (ml_effect_intents s) e)" for k e
      using added(6) by (simp_all add: effect_rows_def)
    show ?thesis
      unfolding effects_inv_def
    proof (intro conjI allI impI)
      fix k eid assume "bt_get (ml_effect_keys t) k = Some eid"
      then show "\<exists>j. bt_get (ml_effect_intents t) eid = Some j \<and> k = effect_key (ei_provider j) (ei_logical_effect_key j)"
        using assms added(4) unfolding effects_inv_def new by (fastforce split: if_splits)
    next
      fix eid j assume j: "bt_get (ml_effect_intents t) eid = Some j"
      show "ei_id j = eid" using j assms unfolding effects_inv_def new by (auto split: if_splits)
      show "payload_digest ex (x_enc_effect ex) j = Inr (ei_payload_hash j)"
        using j assms added(1) unfolding effects_inv_def new by (auto split: if_splits)
      show "bt_get (ml_effect_keys t) (effect_key (ei_provider j) (ei_logical_effect_key j)) = Some eid"
        using j assms added(3) unfolding effects_inv_def new by (fastforce split: if_splits)
    qed
  qed (use assms effects_inv_rows effect_rows_same in blast)+
  with run show ?thesis by simp
qed

lemma transition_effect_cases:
  assumes "transition_effect ex eid to s = (r, t)"
  obtains (refused) "same_rows s t" "\<not> is_ok r"
    | (moved) i n where "bt_get (ml_effect_intents s) eid = Some i" "effect_transition (ei_state i) to = Inr to"
        "r = Inr (i\<lparr>ei_state := to, ei_unknown_retries := n\<rparr>)"
        "effect_rows t = (ml_effect_keys s, bt_insert eid (i\<lparr>ei_state := to, ei_unknown_retries := n\<rparr>) (ml_effect_intents s))"
        "n = (if ei_state i = EfOutcomeUnknown \<and> to = EfDispatching then ei_unknown_retries i + 1 else ei_unknown_retries i)"
  using assms unfolding transition_effect_def
proof (cases rule: st_bind_cases)
  case (err e)
  then show thesis using refused tick_Err(3) by fastforce
next
  case (ok un u)
  then obtain m where u: "u = s\<lparr>ml_fail_after_writes := m\<rparr>" by (auto elim: tick_Ok)
  show thesis
  proof (cases "\<exists>i. bt_get (ml_effect_intents s) eid = Some i \<and> is_ok (effect_transition (ei_state i) to)")
    case False
    with ok(2) have "t = u" "\<not> is_ok r"
      by (auto simp: u result_simps ok_or_def is_ok_def split: option.splits sum.splits)
    with u refused show thesis by simp
  next
    case True
    then obtain i nxt where i: "bt_get (ml_effect_intents s) eid = Some i" "effect_transition (ei_state i) to = Inr nxt"
      by (auto simp: is_ok_iff)
    then have "nxt = to" using effect_machine.target by blast
    define n where "n = (if ei_state i = EfOutcomeUnknown \<and> to = EfDispatching
      then ei_unknown_retries i + 1 else ei_unknown_retries i)"
    have "r = Inr (i\<lparr>ei_state := to, ei_unknown_retries := n\<rparr>)"
      "effect_rows t = (ml_effect_keys s, bt_insert eid (i\<lparr>ei_state := to, ei_unknown_retries := n\<rparr>) (ml_effect_intents s))"
      using ok(2) i \<open>nxt = to\<close>
      by (auto simp: u result_simps Let_def n_def effect_rows_def push_event_def)
    with i \<open>nxt = to\<close> n_def show thesis by (intro moved) simp_all
  qed
qed

lemma effects_inv_transition:
  assumes "effects_inv ex s"
  shows "effects_inv ex (snd (transition_effect ex eid to s))"
proof -
  obtain r t where run: "transition_effect ex eid to s = (r, t)" by fastforce
  then have "effects_inv ex t"
  proof (cases rule: transition_effect_cases)
    case (moved i n)
    have new: "ml_effect_keys t = ml_effect_keys s"
      "bt_get (ml_effect_intents t) e = (if e = eid
        then Some (i\<lparr>ei_state := to, ei_unknown_retries := n\<rparr>) else bt_get (ml_effect_intents s) e)" for e
      using moved(4) by (simp_all add: effect_rows_def)
    have i: "ei_id i = eid" "payload_digest ex (x_enc_effect ex) i = Inr (ei_payload_hash i)"
      "bt_get (ml_effect_keys s) (effect_key (ei_provider i) (ei_logical_effect_key i)) = Some eid"
      using assms moved(1) unfolding effects_inv_def by blast+
    show ?thesis
      unfolding effects_inv_def
    proof (intro conjI allI impI)
      fix k e assume "bt_get (ml_effect_keys t) k = Some e"
      then obtain j where "bt_get (ml_effect_intents s) e = Some j" "k = effect_key (ei_provider j) (ei_logical_effect_key j)"
        using assms unfolding effects_inv_def new by blast
      with moved(1) show "\<exists>j. bt_get (ml_effect_intents t) e = Some j \<and> k = effect_key (ei_provider j) (ei_logical_effect_key j)"
        by (auto simp: new)
    next
      fix e j assume j: "bt_get (ml_effect_intents t) e = Some j"
      show "ei_id j = e" using j i assms unfolding effects_inv_def new by (auto split: if_splits)
      show "payload_digest ex (x_enc_effect ex) j = Inr (ei_payload_hash j)"
        using j i assms unfolding effects_inv_def new by (auto split: if_splits)
      show "bt_get (ml_effect_keys t) (effect_key (ei_provider j) (ei_logical_effect_key j)) = Some e"
        using j i assms unfolding effects_inv_def new by (auto split: if_splits)
    qed
  qed (use assms effects_inv_rows effect_rows_same in blast)
  with run show ?thesis by simp
qed

end
