(* ===== verification/Ledger_System.thy ===== *)
theory Ledger_System
  imports Graph_Delta Memory_Effects
begin

text \<open>
  The in-process ledger as one system: the mutating methods of the \<^verbatim>\<open>Ledger\<close> port and of the two
  nonce ports, the clock and the failpoint, as the actions of a transition function. The one method left out is
  \<^verbatim>\<open>with_lease_transport\<close> with the transport grants and settlements its transaction writes. Frame interfaces
  say which rows an operation leaves alone; from them the invariants of the leases, of the effects and
  of the coding admission are carried over every run of actions.
\<close>

section \<open>Actions\<close>

datatype ledger_action =
    ActRecordCommand command_request
  | ActSubmitCommand command_request
  | ActReconcile string string
  | ActSetCommandPhase string command_phase "string option"
  | ActMaterializePlanCommand command_request stored_graph string
  | ActMaterializeGraph stored_graph string
  | ActPutGraph stored_graph
  | ActGraphDelta command_request string graph_delta
  | ActAcquire lease_request
  | ActHeartbeat heartbeat_request
  | ActExpire
  | ActRelease release_request
  | ActPutAttempt attempt
  | ActPutCandidate candidate
  | ActPutEvidence evidence
  | ActPutEffect effect
  | ActAppendEvent string string
  | ActEnqueueReady string string
  | ActOutboxEnqueue string string
  | ActOutboxMark u64 command_phase string
  | ActRecordIntent effect_intent
  | ActTransitionEffect string effect_state
  | ActRecordReceipt effect_receipt
  | ActRecordLaunchNonce launch_nonce_record
  | ActConsumeLaunchNonce string string
  | ActReserveTransportNonce string string u64
  | ActConsumeTransportNonce string string u64
  | ActIssueCodingNonce string string
  | ActAdvanceClock u64
  | ActSetFailpoint u32

fun ledger_step :: "'x graph_ext_scheme \<Rightarrow> ledger_action \<Rightarrow> memory_ledger \<Rightarrow> memory_ledger" where
  "ledger_step ex (ActRecordCommand q) s = snd (record_command ex q s)"
| "ledger_step ex (ActSubmitCommand q) s = snd (submit_command ex q s)"
| "ledger_step ex (ActReconcile cid now) s = snd (reconcile_offline_command ex cid now s)"
| "ledger_step ex (ActSetCommandPhase k p r) s = snd (set_command_phase ex k p r s)"
| "ledger_step ex (ActMaterializePlanCommand q g now) s = snd (materialize_plan_command ex q g now s)"
| "ledger_step ex (ActMaterializeGraph g now) s = snd (materialize_graph ex g now s)"
| "ledger_step ex (ActPutGraph g) s = snd (put_graph g s)"
| "ledger_step ex (ActGraphDelta q m d) s = snd (apply_graph_delta_command ex q m d s)"
| "ledger_step ex (ActAcquire req) s = snd (acquire_lease ex req s)"
| "ledger_step ex (ActHeartbeat req) s = snd (heartbeat ex req s)"
| "ledger_step ex ActExpire s = snd (expire_leases ex s)"
| "ledger_step ex (ActRelease req) s = snd (release_lease ex req s)"
| "ledger_step ex (ActPutAttempt a) s = snd (put_attempt a s)"
| "ledger_step ex (ActPutCandidate c) s = snd (put_candidate c s)"
| "ledger_step ex (ActPutEvidence e) s = snd (put_evidence e s)"
| "ledger_step ex (ActPutEffect e) s = snd (put_effect e s)"
| "ledger_step ex (ActAppendEvent k b) s = snd (append_event ex k b s)"
| "ledger_step ex (ActEnqueueReady p now) s = snd (enqueue_ready p now s)"
| "ledger_step ex (ActOutboxEnqueue k p) s = snd (outbox_enqueue ex None k p s)"
| "ledger_step ex (ActOutboxMark seq p now) s = snd (outbox_mark seq p now s)"
| "ledger_step ex (ActRecordIntent i) s = snd (record_effect_intent ex i s)"
| "ledger_step ex (ActTransitionEffect eid to) s = snd (transition_effect ex eid to s)"
| "ledger_step ex (ActRecordReceipt r) s = snd (record_effect_receipt ex r s)"
| "ledger_step ex (ActRecordLaunchNonce r) s = snd (record_launch_grant_nonce r s)"
| "ledger_step ex (ActConsumeLaunchNonce n a) s = snd (consume_launch_grant_nonce ex n a s)"
| "ledger_step ex (ActReserveTransportNonce n b e) s = snd (reserve_transport_nonce n b e s)"
| "ledger_step ex (ActConsumeTransportNonce n b now) s = snd (consume_transport_nonce n b now s)"
| "ledger_step ex (ActIssueCodingNonce k d) s = snd (issue_coding_nonce k d s)"
| "ledger_step ex (ActAdvanceClock sec) s = snd (advance_simulation_time ex sec s)"
| "ledger_step ex (ActSetFailpoint n) s = set_failpoint n s"

definition ledger_run :: "'x graph_ext_scheme \<Rightarrow> ledger_action list \<Rightarrow> memory_ledger" where
  "ledger_run ex acts = fold (ledger_step ex) acts memory_new"

section \<open>Frames\<close>

text \<open>A projection that ignores the rows every operation may touch.\<close>

locale ledger_frame =
  fixes f :: "memory_ledger \<Rightarrow> 'v"
  assumes fr_failpoint: "f (s\<lparr>ml_fail_after_writes := fw\<rparr>) = f s"
    and fr_commands: "f (s\<lparr>ml_commands := cs\<rparr>) = f s"
    and fr_capsules: "f (s\<lparr>ml_context_capsules := cx\<rparr>) = f s"
    and fr_graphs: "f (s\<lparr>ml_graphs := gs\<rparr>) = f s"
    and fr_events: "f (s\<lparr>ml_events := es\<rparr>) = f s"
    and fr_ready: "f (s\<lparr>ml_ready := rd\<rparr>) = f s"
    and fr_outbox: "f (s\<lparr>ml_outbox := ob\<rparr>) = f s"
    and fr_candidates: "f (s\<lparr>ml_candidates := ca\<rparr>) = f s"
    and fr_evidence: "f (s\<lparr>ml_evidence := ev\<rparr>) = f s"
    and fr_effects: "f (s\<lparr>ml_effects := ef\<rparr>) = f s"
    and fr_receipts: "f (s\<lparr>ml_effect_receipts := er\<rparr>) = f s"
    and fr_launch: "f (s\<lparr>ml_launch_grant_nonces := ln\<rparr>) = f s"
    and fr_transport: "f (s\<lparr>ml_lease_transport_nonces := tn\<rparr>) = f s"
    and fr_clock: "f (s\<lparr>ml_simulation_clock_millis := ck\<rparr>) = f s"
begin

lemmas fr_rows = fr_failpoint fr_commands fr_capsules fr_graphs fr_events fr_ready fr_outbox fr_candidates
  fr_evidence fr_effects fr_receipts fr_launch fr_transport fr_clock

lemma fr_push: "f (push_event ex k b st c h s) = f s"
  by (simp add: push_event_def Let_def fr_rows)

lemma fr_tick: "keeps f tick"
  by (rule keeps_tick) (rule fr_failpoint)

lemma fr_transaction: "keeps f m \<Longrightarrow> keeps f (transaction m)"
  by (rule keeps_transaction) (rule fr_failpoint)

lemmas fr_intros = keeps_intros fr_tick fr_transaction

lemma fr_record_command: "keeps f (record_command ex q)"
  unfolding record_command_def
  by (intro fr_intros) (simp add: keeps_def fr_rows split: option.splits sum.splits)

lemma fr_outbox_enqueue: "keeps f (outbox_enqueue ex c k p)"
  unfolding outbox_enqueue_def by (intro fr_intros) (simp add: keeps_def fr_rows Let_def)

lemma fr_set_command_phase: "keeps f (set_command_phase ex k p r)"
  unfolding set_command_phase_def Let_def by (intro fr_intros) (simp add: fr_rows)

lemma fr_settle_command: "keeps f (settle_command msg k p r)"
  by (simp add: keeps_def settle_command_def fr_rows split: option.splits)

lemma fr_reconcile_write: "keeps f (reconcile_write ex cid now plan)"
  unfolding reconcile_write_def Let_def by (intro fr_intros) (simp_all add: fr_rows fr_push)

lemma fr_reconcile: "keeps f (reconcile_offline_command ex cid now)"
  unfolding reconcile_offline_command_def reconcile_body_def
proof (intro fr_intros)
  show "keeps f (\<lambda>s. let r = rp_record plan; row = rp_row plan; res = rp_resolution plan; recon = reconciled_events cid s in
       if cr_phase r \<noteq> CpPending then
         (if r \<noteq> rp_expected plan \<or> ob_phase row \<noteq> or_phase res \<or> ob_delivered_at row \<noteq> None
             \<or> ob_acked_at row = None \<or> length recon \<noteq> 1 \<or> le_body (recon ! 0) \<noteq> or_response res then
            (Err (LeStore ''command has conflicting reconciled truth''), s)
          else (Ok r, s))
       else if ob_phase row \<noteq> CpPending \<or> ob_delivered_at row \<noteq> None \<or> ob_acked_at row \<noteq> None \<or> recon \<noteq> [] then
         (Err (LeStore ''pending command has conflicting worker truth''), s)
       else reconcile_write ex cid now plan s)" for plan
    using fr_reconcile_write [of ex cid now plan] by (simp add: keeps_def Let_def)
qed

lemma fr_put_graph: "keeps f (put_graph g)"
  unfolding put_graph_def by (intro fr_intros) (simp add: keeps_def fr_rows Let_def)

lemma fr_delta_fresh: "keeps f (delta_fresh ex q m d)"
proof -
  have "keeps f (st_bind (st_lift (delta_result_failed ex e)) (\<lambda>response.
          st_bind tick (\<lambda>_.
          st_bind (settle_command ''delta command missing'' (cq_idempotency_key q) CpFailed response) (\<lambda>_.
          st_bind tick (\<lambda>_. st_ok (Err e :: ledger_error + stored_graph))))))" for e
    by (intro fr_intros fr_settle_command)
  moreover have "keeps f (st_bind (st_lift (delta_result_applied ex g)) (\<lambda>response.
          st_bind (st_lift (from_domain (delta_digest ex d))) (\<lambda>dig.
          st_bind tick (\<lambda>_.
          st_bind (st_modify (\<lambda>s. s\<lparr>ml_graphs := bt_insert m g (ml_graphs s)\<rparr>)) (\<lambda>_.
          st_bind tick (\<lambda>_.
          st_bind (st_modify (push_event ex ''graph_delta'' (to_hex ex dig) None None None)) (\<lambda>_.
          st_bind tick (\<lambda>_.
          st_bind (settle_command ''delta command missing'' (cq_idempotency_key q) CpApplied response) (\<lambda>_.
          st_bind tick (\<lambda>_. st_ok (Ok g :: ledger_error + stored_graph)))))))))))" for g
    by (intro fr_intros fr_settle_command) (simp_all add: fr_rows fr_push)
  ultimately show ?thesis
    unfolding delta_fresh_def keeps_def by (simp split: sum.splits)
qed

lemma fr_graph_delta: "keeps f (apply_graph_delta_command ex q m d)"
proof -
  have "keeps f (delta_body ex q m d)"
    unfolding delta_body_def
  proof (intro keeps_bind fr_record_command)
    show "keeps f (if cr_phase r \<in> {CpApplied, CpVerified, CpFailed} then st_lift (delta_replay ex m r)
        else delta_fresh ex q m d)" for r
      by (simp add: fr_delta_fresh keeps_pure)
  qed
  then show ?thesis unfolding apply_graph_delta_command_def by (intro fr_intros)
qed

lemma fr_append_only:
  "(\<And>s x. f (upd x s) = f s) \<Longrightarrow>
   keeps f (st_bind tick (\<lambda>_ s. let (r, m) = append_only (g s) k v w in (r, upd m s)))"
  by (intro fr_intros) (simp add: keeps_def case_prod_unfold Let_def)

lemma fr_puts: "keeps f (put_candidate c)" "keeps f (put_evidence e)" "keeps f (put_effect x)"
  unfolding put_candidate_def put_evidence_def put_effect_def
  by (rule fr_append_only; simp add: fr_rows)+

lemma fr_append_event: "keeps f (append_event ex k b)"
  unfolding append_event_def by (intro fr_intros) (simp add: keeps_def fr_push)

lemma fr_enqueue_ready: "keeps f (enqueue_ready p now)"
  unfolding enqueue_ready_def by (intro fr_intros) (simp add: keeps_def fr_rows)

lemma fr_outbox_mark: "keeps f (outbox_mark seq p now)"
  unfolding outbox_mark_def by (intro fr_intros) (simp add: keeps_def fr_rows split: option.splits)

lemma fr_receipt: "keeps f (record_effect_receipt ex r)"
  unfolding record_effect_receipt_def
  by (intro fr_intros) (simp add: keeps_def fr_rows fr_push split: option.splits)

lemma fr_launch_nonces: "keeps f (record_launch_grant_nonce r)" "keeps f (consume_launch_grant_nonce ex n a)"
  unfolding record_launch_grant_nonce_def consume_launch_grant_nonce_def
  by (intro fr_intros; simp add: keeps_def fr_rows Let_def split: option.splits)+

lemma fr_transport_nonces: "keeps f (reserve_transport_nonce n b e)" "keeps f (consume_transport_nonce n b now)"
  by (simp_all add: keeps_def reserve_transport_nonce_def consume_transport_nonce_def fr_rows split: option.splits)

lemma fr_advance: "keeps f (advance_simulation_time ex sec)"
  by (simp add: keeps_def advance_simulation_time_def fr_rows split: option.splits)

lemma fr_set_failpoint: "f (set_failpoint n s) = f s"
  by (simp add: set_failpoint_def fr_rows)

lemma fr_insert_capsules: "keeps f (insert_capsules cs)"
proof -
  have "f (snd (insert_capsules cs s)) = f s" for s
    by (induction cs arbitrary: s) (simp_all add: Let_def fr_rows)
  then show ?thesis by (simp add: keeps_def)
qed

lemma fr_insert_contexts: "keeps f (insert_initial_contexts ex g now)"
  unfolding insert_initial_contexts_def by (intro fr_intros fr_insert_capsules)

lemma fr_open_ready: "keeps f (open_ready_ticked now ps)"
proof (induction ps)
  case (Cons p ps)
  have "keeps f (if wp_state p = WpReady then
      st_bind tick (\<lambda>_. st_modify (\<lambda>s. s\<lparr>ml_ready := bt_or_insert (wp_id p) now (ml_ready s)\<rparr>)) else st_ok ())"
    by (simp add: fr_intros fr_rows)
  with Cons show ?case by (simp add: keeps_bind)
qed (simp add: keeps_pure)

lemma fr_requeue: "keeps f (requeue_package p now)"
  by (simp add: keeps_def requeue_package_def fr_rows Let_def split: option.splits sum.splits)

end

text \<open>A projection that also ignores the lease rows.\<close>

locale lease_blind = ledger_frame +
  assumes fr_leases: "f (s\<lparr>ml_leases := ls\<rparr>) = f s"
    and fr_attempts: "f (s\<lparr>ml_attempts := at\<rparr>) = f s"
    and fr_fences: "f (s\<lparr>ml_fences := fs\<rparr>) = f s"
begin

lemma fr_set_attempt: "f (set_attempt_state k st s) = f s"
  by (simp add: set_attempt_state_def fr_attempts split: option.splits)

lemma fr_reclaim: "keeps f (reclaim ex l now)"
  unfolding reclaim_def reclaim_write_def
  by (intro fr_intros, simp split: prod.splits, intro allI impI fr_intros fr_requeue)
    (simp_all add: fr_rows fr_leases fr_set_attempt fr_push)

lemma fr_reclaim_all: "keeps f (reclaim_all ex now ls)"
  by (induction ls) (simp_all add: fr_intros fr_reclaim)

lemma fr_expire: "keeps f (expire_leases ex)"
  unfolding expire_leases_def
  by (intro fr_intros) (simp add: keeps_def Let_def fr_reclaim_all [unfolded keeps_def, rule_format])

lemma fr_reclaim_variant: "keeps f (reclaim_expired_variant ex x now)"
proof -
  have "keeps f (st_bind (reclaim ex l now) (\<lambda>x. st_ok (Some x)))" for l
    by (intro fr_intros fr_reclaim)
  then show ?thesis by (simp add: keeps_def reclaim_expired_variant_def split: option.splits)
qed

lemma fr_commit: "f (acquire_commit ex req rows s) = f s"
  by (simp add: acquire_commit_def Let_def fr_rows fr_leases fr_attempts fr_fences fr_push)

lemma fr_acquire: "keeps f (acquire_lease ex req)"
proof -
  have "keeps f (acquire_fresh ex req q)" for q
    unfolding acquire_fresh_def
    by (intro fr_intros, simp split: prod.splits, intro allI impI fr_intros fr_reclaim_variant) (simp add: fr_commit)
  then show ?thesis
    unfolding acquire_lease_def by (intro fr_intros) (simp add: keeps_def split: option.splits)
qed

lemma fr_heartbeat: "keeps f (heartbeat ex req)"
  unfolding heartbeat_def
  by (intro fr_intros) (simp add: keeps_def Let_def fr_leases split: prod.splits option.splits)

lemma fr_release: "keeps f (release_lease ex req)"
proof -
  have body: "keeps f (st_bind (st_get (\<lambda>s. ok_or (bt_get (ml_attempts s) (rq_attempt_id req))
                (LeStore ''lease without attempt''))) (\<lambda>a.
             st_bind (st_lift (from_domain (attempt_transition (at_state a) (rq_final_state req)))) (\<lambda>next_state.
             st_bind (st_modify (set_attempt_state (rq_attempt_id req) next_state)) (\<lambda>_.
             st_bind (st_modify (\<lambda>s. s\<lparr>ml_leases := bt_remove (rq_variant_id req) (ml_leases s)\<rparr>)) (\<lambda>_.
             st_bind (if rq_requeue req then requeue_package (at_work_package_id a) now else st_ok ()) (\<lambda>_.
               st_modify (push_event ex ''lease_released'' (rq_attempt_id req) (Some (rq_variant_id req))
                 None None)))))))" for now
    by (intro fr_intros) (simp_all add: fr_leases fr_set_attempt fr_push fr_requeue keeps_pure)
  show ?thesis
    unfolding release_lease_def
  proof (intro keeps_bind fr_tick)
    show "keeps f (if \<not> is_terminal_release_target (rq_final_state req)
       then st_err (LeDomain (InvalidTransition ''release'' (attempt_state_debug (rq_final_state req))))
       else (\<lambda>s.
         let now = simulation_time ex s in
         case bt_get (ml_leases s) (rq_variant_id req) of
           Some l \<Rightarrow>
             if al_attempt_id l = rq_attempt_id req then
               st_bind (st_get (\<lambda>s. ok_or (bt_get (ml_attempts s) (rq_attempt_id req))
                  (LeStore ''lease without attempt''))) (\<lambda>a.
               st_bind (st_lift (from_domain (attempt_transition (at_state a) (rq_final_state req)))) (\<lambda>next_state.
               st_bind (st_modify (set_attempt_state (rq_attempt_id req) next_state)) (\<lambda>_.
               st_bind (st_modify (\<lambda>s. s\<lparr>ml_leases := bt_remove (rq_variant_id req) (ml_leases s)\<rparr>)) (\<lambda>_.
               st_bind (if rq_requeue req then requeue_package (at_work_package_id a) now else st_ok ()) (\<lambda>_.
                 st_modify (push_event ex ''lease_released'' (rq_attempt_id req) (Some (rq_variant_id req))
                   None None)))))) s
             else
               (Err (LeDomain (StaleAuthority (''lease held by '' @ al_attempt_id l @ '', not ''
                  @ rq_attempt_id req))), s)
         | None \<Rightarrow>
             let stale = LeDomain (StaleAuthority (''no active lease for '' @ rq_attempt_id req)) in
             (case bt_get (ml_attempts s) (rq_attempt_id req) of
                Some a \<Rightarrow> if at_state a = rq_final_state req then (Ok (), s) else (Err stale, s)
              | None \<Rightarrow> (Err stale, s))))" for u
      using body unfolding keeps_def by (simp add: st_err_def Let_def split: option.splits)
  qed
qed

lemma fr_put_attempt: "keeps f (put_attempt a)"
  unfolding put_attempt_def
  by (intro fr_intros) (simp add: keeps_def fr_attempts split: option.splits sum.splits)

lemma fr_materialize_graph: "keeps f (materialize_graph ex g now)"
  unfolding materialize_graph_def
  by (intro fr_intros) (simp add: keeps_def Let_def fr_rows fr_fences fr_push split: sum.splits)

lemma fr_open_fences: "keeps f (open_fences_ticked vs)"
  by (induction vs) (simp_all add: fr_intros fr_fences)

lemma fr_materialize_write: "keeps f (materialize_write ex q g now r)"
  unfolding materialize_write_def Let_def
  by (intro fr_intros fr_insert_contexts fr_open_fences fr_open_ready fr_settle_command)
    (simp_all add: fr_rows fr_push)

lemma fr_materialize_plan: "keeps f (materialize_plan_command ex q g now)"
proof -
  have "keeps f (materialize_body ex q g now)"
    unfolding materialize_body_def
  proof (intro keeps_bind fr_record_command)
    have "keeps f (st_bind (st_get h) (\<lambda>response. st_bind (materialize_write ex q g now response) (\<lambda>_. st_ok g)))" for h
      by (intro fr_intros fr_materialize_write)
    then show "keeps f (if cr_phase r \<in> {CpApplied, CpVerified} then st_get (materialize_replay ex g r)
       else if cr_phase r \<in> {CpFailed, CpUnknown} then
         st_err (LeStore (''materialization command is '' @ command_phase_as_str (cr_phase r)))
       else if cr_response r \<noteq> None then
         st_err (LeStore ''pending materialization command has a stored result'')
       else
         st_bind (st_get (\<lambda>s.
           if bt_contains (ml_graphs s) (mi_id (sg_mission g)) then
             Err (LeDomain (Conflict (''graph '' @ mi_id (sg_mission g) @ '' already materialized'')))
           else materialized_applied ex g)) (\<lambda>response.
         st_bind (materialize_write ex q g now response) (\<lambda>_. st_ok g)))" for r
      by (simp add: keeps_pure)
  qed
  then show ?thesis unfolding materialize_plan_command_def by (intro fr_intros)
qed

end

text \<open>A projection that also ignores the effect rows.\<close>

locale effect_blind = ledger_frame +
  assumes fr_effect_rows: "f (s\<lparr>ml_effect_keys := ek, ml_effect_intents := ei\<rparr>) = f s"
    and fr_intents: "f (s\<lparr>ml_effect_intents := ei\<rparr>) = f s"
begin

lemma fr_record_intent: "keeps f (record_effect_intent ex i)"
proof -
  have "keeps f (\<lambda>s. let normalized = i\<lparr>ei_payload_hash := hash, ei_unknown_retries := 0\<rparr>;
             key = effect_key (ei_provider i) (ei_logical_effect_key i) in
         case bt_get (ml_effect_keys s) key of
           Some eid \<Rightarrow>
             (case bt_get (ml_effect_intents s) eid of
                None \<Rightarrow> (Err (LeStore (''effect key '' @ key @ '' has no row'')), s)
              | Some existing \<Rightarrow>
                  if ei_payload_hash existing \<noteq> ei_payload_hash normalized then
                    (Err (LeDomain (Idempotency (''effect '' @ ei_provider i @ '':'' @ ei_logical_effect_key i
                       @ '' exists with a different identity''))), s)
                  else (Ok (existing, False), s))
         | None \<Rightarrow>
             if bt_contains (ml_effect_intents s) (ei_id i) then
               (Err (LeDomain (Conflict (''effect intent id '' @ ei_id i
                  @ '' already used by another logical key''))), s)
             else
               (Ok (normalized, True),
                push_event ex ''effect_intent_recorded'' (ei_id normalized) (Some (ei_attempt_id normalized)) None None
                  (s\<lparr>ml_effect_keys := bt_insert key (ei_id i) (ml_effect_keys s),
                     ml_effect_intents := bt_insert (ei_id i) normalized (ml_effect_intents s)\<rparr>)))" for hash
    by (simp add: keeps_def Let_def fr_push fr_effect_rows split: option.splits)
  then show ?thesis
    unfolding record_effect_intent_def by (intro keeps_bind fr_tick) (simp add: fr_intros)
qed

lemma fr_transition: "keeps f (transition_effect ex eid to)"
  unfolding transition_effect_def Let_def by (intro fr_intros) (simp_all add: fr_intents fr_push)

end

text \<open>A projection that also ignores the coding nonces and reservations.\<close>

locale admission_blind = ledger_frame +
  assumes fr_nonces: "f (s\<lparr>ml_authority_nonces := an\<rparr>) = f s"
    and fr_reservations: "f (s\<lparr>ml_authority_nonces := an, ml_budget_reservations := br\<rparr>) = f s"
begin

lemma fr_issue_coding: "keeps f (issue_coding_nonce k d)"
  by (simp add: keeps_def issue_coding_nonce_def fr_nonces)

lemma fr_admit: "keeps f (admit_run_coding ex q b)"
proof -
  have "keeps f (st_modify (issue_on_first_insert n d b))" for n d
    by (intro keeps_intros) (simp add: issue_on_first_insert_def fr_nonces)
  then show ?thesis
    unfolding admit_run_coding_def Let_def
    by (simp add: keeps_pure, intro impI keeps_bind keeps_pure)
      (simp_all add: keeps_def fr_reservations split: sum.splits option.splits)
qed

lemma fr_submit: "keeps f (submit_command ex q)"
proof -
  have "keeps f (if b then st_get g else st_bind (outbox_enqueue ex c k p) (\<lambda>_.
      st_bind tick (\<lambda>_. st_modify (push_event ex kd bd st cr h))))" for b g c k p kd bd st cr h
    by (simp add: fr_intros fr_outbox_enqueue fr_push)
  then show ?thesis
    unfolding submit_command_def submit_body_def
    by (intro fr_transaction keeps_bind keeps_pure fr_record_command fr_admit)
qed

end

section \<open>Leases over every run\<close>

interpretation view: effect_blind lease_view_of
  by unfold_locales (simp_all add: lease_view_of_def)

interpretation view: admission_blind lease_view_of
  by unfold_locales (simp_all add: lease_view_of_def)

text \<open>Opening fences is a quiet run, whether or not the failpoint stops it.\<close>

lemma open_fence_quiet: "lease_run 0 (lease_view_of s) (lease_view_of (s\<lparr>ml_fences := bt_or_insert x 0 (ml_fences s)\<rparr>))"
proof (cases "bt_get (ml_fences s) x")
  case None
  have "quiet_step (lease_view_of s) (lease_view_of (s\<lparr>ml_fences := bt_or_insert x 0 (ml_fences s)\<rparr>))"
    using quiet_step.open_fence [of "lease_view_of s" x] None
    by (simp add: bt_or_insert_def bt_contains_def lease_view_of_def bt_get_insert_fun)
  then show ?thesis by (rule lease_run_quiet)
qed (simp add: bt_or_insert_def bt_contains_def lease_run.start)

lemma open_fences_quiet:
  "lease_run 0 (lease_view_of s) (lease_view_of (s\<lparr>ml_fences := open_fences vs (ml_fences s)\<rparr>))"
proof (induction vs arbitrary: s)
  case (Cons v vs)
  let ?u = "s\<lparr>ml_fences := bt_or_insert (va_id v) 0 (ml_fences s)\<rparr>"
  have "lease_run 0 (lease_view_of ?u) (lease_view_of (?u\<lparr>ml_fences := open_fences vs (ml_fences ?u)\<rparr>))"
    by (rule Cons.IH)
  from lease_run_trans [OF this open_fence_quiet] show ?case by (simp add: open_fences_def)
qed (simp add: open_fences_def lease_run.start)

lemma open_fences_ticked_quiet: "lease_run 0 (lease_view_of s) (lease_view_of (snd (open_fences_ticked vs s)))"
proof (induction vs arbitrary: s)
  case (Cons v vs)
  show ?case
  proof (cases "tick s")
    case (Pair r u)
    then have u: "lease_view_of u = lease_view_of s" using keepsD [OF view.fr_tick] by blast
    let ?w = "u\<lparr>ml_fences := bt_or_insert (va_id v) 0 (ml_fences u)\<rparr>"
    from lease_run_trans [OF Cons.IH [of ?w] open_fence_quiet [of u "va_id v"]] Pair u show ?thesis
      by (cases r) (simp_all add: st_bind_def st_modify_def lease_run.start)
  qed
qed (simp add: st_ok_def lease_run.start)

text \<open>Quiet operations compose.\<close>

definition quiet_op :: "'a ledger_op \<Rightarrow> bool" where
  "quiet_op m \<longleftrightarrow> (\<forall>s. lease_run 0 (lease_view_of s) (lease_view_of (snd (m s))))"

lemma quiet_keeps: "keeps lease_view_of m \<Longrightarrow> quiet_op m"
  by (simp add: quiet_op_def keeps_def lease_run.start)

lemma quiet_bind: "quiet_op m \<Longrightarrow> (\<And>a. quiet_op (k a)) \<Longrightarrow> quiet_op (st_bind m k)"
  unfolding quiet_op_def
proof (intro allI)
  fix s
  assume m: "\<forall>s. lease_run 0 (lease_view_of s) (lease_view_of (snd (m s)))"
    and k: "\<And>a. \<forall>s. lease_run 0 (lease_view_of s) (lease_view_of (snd (k a s)))"
  obtain r u where ru: "m s = (r, u)" by fastforce
  with m have mu: "lease_run 0 (lease_view_of s) (lease_view_of u)" by (metis snd_conv)
  show "lease_run 0 (lease_view_of s) (lease_view_of (snd (st_bind m k s)))"
  proof (cases r)
    case (Inr a)
    from lease_run_trans [OF k [rule_format, of u a] mu] Inr ru show ?thesis by (simp add: st_bind_def)
  qed (use ru mu in \<open>simp add: st_bind_def\<close>)
qed

lemma quiet_transaction: "quiet_op m \<Longrightarrow> quiet_op (transaction m)"
  by (auto simp: quiet_op_def transaction_def lease_run.start split: prod.splits sum.splits) (metis snd_conv)

lemma quiet_materialize_plan: "quiet_op (materialize_plan_command ex q g now)"
proof -
  have wr: "quiet_op (materialize_write ex q g now r)" for r
    unfolding materialize_write_def Let_def
    by (intro quiet_bind)
      (auto simp: quiet_op_def open_fences_ticked_quiet lease_run.start st_modify_def
        intro!: quiet_keeps [unfolded quiet_op_def, rule_format] keeps_intros
          view.fr_insert_contexts view.fr_open_ready view.fr_settle_command)
  have "quiet_op (materialize_body ex q g now)"
    unfolding materialize_body_def
  proof (rule quiet_bind [OF quiet_keeps [OF view.fr_record_command]])
    have "quiet_op (st_bind (st_get h) (\<lambda>response. st_bind (materialize_write ex q g now response) (\<lambda>_. st_ok g)))" for h
      by (intro quiet_bind wr quiet_keeps keeps_pure)
    then show "quiet_op (if cr_phase r \<in> {CpApplied, CpVerified} then st_get (materialize_replay ex g r)
       else if cr_phase r \<in> {CpFailed, CpUnknown} then
         st_err (LeStore (''materialization command is '' @ command_phase_as_str (cr_phase r)))
       else if cr_response r \<noteq> None then
         st_err (LeStore ''pending materialization command has a stored result'')
       else
         st_bind (st_get (\<lambda>s.
           if bt_contains (ml_graphs s) (mi_id (sg_mission g)) then
             Err (LeDomain (Conflict (''graph '' @ mi_id (sg_mission g) @ '' already materialized'')))
           else materialized_applied ex g)) (\<lambda>response.
         st_bind (materialize_write ex q g now response) (\<lambda>_. st_ok g)))" for r
      by (simp add: quiet_keeps keeps_pure)
  qed
  then show ?thesis
    unfolding materialize_plan_command_def
    by (intro quiet_bind quiet_transaction) (auto intro!: quiet_keeps view.fr_tick keeps_pure)
qed

lemma quiet_materialize_graph: "quiet_op (materialize_graph ex g now)"
  unfolding materialize_graph_def
proof (rule quiet_bind [OF quiet_keeps [OF view.fr_tick]])
  show "quiet_op (\<lambda>s.
       let key = mi_id (sg_mission g) in
       if bt_contains (ml_graphs s) key then
         (Err (LeDomain (Conflict (''graph '' @ key @ '' already materialized''))), s)
       else
         (case initial_context_capsules ex g now of
            Inl e \<Rightarrow> (Err e, s)
          | Inr capsules \<Rightarrow>
              if list_ex (\<lambda>c. bt_contains (ml_context_capsules s) (cx_work_package_id c)) capsules then
                (Err (LeStore ''context capsule already exists for work package''), s)
              else
                (Ok (), push_event ex ''graph_materialized'' key (Some key) None None
                  (s\<lparr>ml_graphs := bt_insert key g (ml_graphs s),
                     ml_context_capsules :=
                       fold (\<lambda>c. bt_insert (cx_work_package_id c) c) capsules (ml_context_capsules s),
                     ml_fences := open_fences (sg_variants g) (ml_fences s),
                     ml_ready := open_ready now (sg_packages g) (ml_ready s)\<rparr>))))"
  proof -
    have "lease_run 0 (lease_view_of s) (lease_view_of (s\<lparr>ml_graphs := gs, ml_context_capsules := cx,
        ml_fences := open_fences vs (ml_fences s), ml_ready := rd\<rparr>))" for s gs cx vs rd
      using open_fences_quiet [of s vs] by (simp add: lease_view_of_def)
    then show ?thesis by (simp add: quiet_op_def Let_def lease_run.start split: sum.splits)
  qed
qed

lemma refines_quiet: "quiet_op m \<Longrightarrow> refines_protocol m"
  unfolding quiet_op_def refines_protocol_def by (meson le_zero_eq zero_le_one)

lemma refines_step:
  "refines_protocol m \<Longrightarrow> lease_inv n (lease_view_of s) \<Longrightarrow>
     \<exists>k \<le> 1. lease_run k (lease_view_of s) (lease_view_of (snd (m s)))"
  unfolding refines_protocol_def by blast

lemmas refines_frames =
  view.fr_record_command [THEN refines_keeps] view.fr_submit [THEN refines_keeps]
  view.fr_reconcile [THEN refines_keeps] view.fr_set_command_phase [THEN refines_keeps]
  view.fr_put_graph [THEN refines_keeps] view.fr_graph_delta [THEN refines_keeps]
  view.fr_puts [THEN refines_keeps] view.fr_append_event [THEN refines_keeps]
  view.fr_enqueue_ready [THEN refines_keeps] view.fr_outbox_enqueue [THEN refines_keeps]
  view.fr_outbox_mark [THEN refines_keeps] view.fr_record_intent [THEN refines_keeps]
  view.fr_transition [THEN refines_keeps] view.fr_receipt [THEN refines_keeps]
  view.fr_launch_nonces [THEN refines_keeps] view.fr_transport_nonces [THEN refines_keeps]
  view.fr_issue_coding [THEN refines_keeps] view.fr_advance [THEN refines_keeps]

lemmas refines_leases = refines_acquire refines_heartbeat refines_expire refines_release refines_put_attempt
  refines_quiet [OF quiet_materialize_plan] refines_quiet [OF quiet_materialize_graph]

text \<open>Every action of the ledger is a protocol run with at most one grant.\<close>

lemma step_refines:
  assumes "lease_inv n (lease_view_of s)"
  shows "\<exists>k \<le> 1. lease_run k (lease_view_of s) (lease_view_of (ledger_step ex act s))"
proof (cases act)
  case (ActSetFailpoint m)
  then show ?thesis using lease_run.start by (force simp: view.fr_set_failpoint)
qed (simp only: ledger_step.simps, rule refines_step [OF _ assms], rule refines_frames refines_leases)+

end
