(* ===== verification/Ledger_Runs.thy ===== *)
theory Ledger_Runs
  imports Ledger_System
begin

text \<open>
  What holds of the in-process ledger after any sequence of actions from a new one: the fencing
  invariant, the invariant and the history of the effect intents, the coding quota with its single-use
  launch nonces, and the append-only rows.
\<close>

section \<open>Fencing\<close>

lemma ledger_run_simps [simp]:
  "ledger_run ex [] = memory_new"
  "ledger_run ex (acts @ [act]) = ledger_step ex act (ledger_run ex acts)"
  by (simp_all add: ledger_run_def)

lemma ledger_run_append: "ledger_run ex (acts @ later) = fold (ledger_step ex) later (ledger_run ex acts)"
  by (simp add: ledger_run_def)

lemma lease_view_new: "lease_view_of memory_new = view_empty"
  by (simp add: lease_view_of_def memory_new_def view_empty_def fun_eq_iff)

lemma fold_refines:
  assumes "lease_inv n (lease_view_of s)" and "n + length acts < 2 ^ 64"
  shows "\<exists>k \<le> length acts. lease_run k (lease_view_of s) (lease_view_of (fold (ledger_step ex) acts s))"
  using assms(2)
proof (induction acts rule: rev_induct)
  case Nil
  show ?case using lease_run.start by auto
next
  case (snoc act acts)
  let ?t = "fold (ledger_step ex) acts s"
  from snoc obtain k where k: "k \<le> length acts" "lease_run k (lease_view_of s) (lease_view_of ?t)" by auto
  have "n + k < 2 ^ 64" using k(1) snoc.prems by simp
  with lease_run_inv [OF k(2) assms(1)] have "lease_inv (n + k) (lease_view_of ?t)" by blast
  from step_refines [OF this, of ex act] obtain j where
    j: "j \<le> 1" "lease_run j (lease_view_of ?t) (lease_view_of (ledger_step ex act ?t))" by blast
  have "lease_run (k + j) (lease_view_of s) (lease_view_of (fold (ledger_step ex) (acts @ [act]) s))"
    using lease_run_trans [OF j(2) k(2)] by simp
  moreover have "k + j \<le> length (acts @ [act])" using k(1) j(1) by simp
  ultimately show ?case by blast
qed

lemma run_refines:
  "length acts < 2 ^ 64 \<Longrightarrow>
     \<exists>k \<le> length acts. lease_run k view_empty (lease_view_of (ledger_run ex acts))"
  using fold_refines [of 0 memory_new acts ex] by (simp add: ledger_run_def lease_view_new lease_inv_empty)

lemma lease_inv_mono: "lease_inv m v \<Longrightarrow> m \<le> n \<Longrightarrow> lease_inv n v"
  unfolding lease_inv_def fences_ok_def by (meson order_trans)

lemma run_lease_inv:
  assumes "length acts < 2 ^ 64"
  shows "lease_inv (length acts) (lease_view_of (ledger_run ex acts))"
proof -
  from run_refines [OF assms] obtain k where k: "k \<le> length acts"
    "lease_run k view_empty (lease_view_of (ledger_run ex acts))" by blast
  have "0 + k < 2 ^ 64" using k(1) assms by simp
  from lease_run_inv [OF k(2) lease_inv_empty this] have "lease_inv k (lease_view_of (ledger_run ex acts))" by simp
  with k(1) lease_inv_mono show ?thesis by blast
qed

text \<open>A fence outbid once stays outbid: neither later actions nor time bring an old writer back.\<close>

lemma fence_of_grows:
  assumes "lease_run k u v" and "lease_inv n u" and "n + k < 2 ^ 64"
  shows "fence_of u x \<le> fence_of v x"
  using assms
proof (induction rule: lease_run.induct)
  case (granted k u v w)
  have le: "fence_of u x \<le> fence_of v x" using granted by simp
  have inv: "lease_inv (n + k) v" using lease_run_inv [OF granted.hyps(1) granted.prems(1)] granted.prems(2) by simp
  from granted.hyps(2) show ?case
  proof cases
    case (grant y a l)
    have "n + k < 2 ^ 64 - 1" using granted.prems(2) by simp
    from grant_fence [OF inv this, of y] have "fence_of v y \<le> fence_of v y + 1" by (simp add: word_le_nat_alt)
    with le grant show ?thesis by (cases "x = y") (auto simp: fence_of_def)
  qed
next
  case (quiet k u v w)
  have le: "fence_of u x \<le> fence_of v x" using quiet by simp
  from quiet.hyps(2) have "fence_of w x = fence_of v x" by cases (auto simp: fence_of_def)
  with le show ?case by simp
qed simp

section \<open>Effects\<close>

interpretation effs: lease_blind effect_rows
  by unfold_locales (simp_all add: effect_rows_def)

interpretation effs: admission_blind effect_rows
  by unfold_locales (simp_all add: effect_rows_def)

lemmas effect_frames =
  effs.fr_record_command effs.fr_submit effs.fr_reconcile effs.fr_set_command_phase effs.fr_materialize_plan
  effs.fr_materialize_graph effs.fr_put_graph effs.fr_graph_delta effs.fr_acquire effs.fr_heartbeat effs.fr_expire
  effs.fr_release effs.fr_put_attempt effs.fr_puts effs.fr_append_event effs.fr_enqueue_ready
  effs.fr_outbox_enqueue effs.fr_outbox_mark effs.fr_receipt effs.fr_launch_nonces effs.fr_transport_nonces
  effs.fr_issue_coding effs.fr_advance

lemma frame_step: "keeps f m \<Longrightarrow> f (snd (m s)) = f s"
  by (simp add: keeps_def)

lemma step_effect_rows:
  assumes "\<forall>i. act \<noteq> ActRecordIntent i" and "\<forall>eid to. act \<noteq> ActTransitionEffect eid to"
  shows "effect_rows (ledger_step ex act s) = effect_rows s"
proof (cases act)
  case (ActRecordIntent i)
  with assms(1) show ?thesis by blast
next
  case (ActTransitionEffect eid to)
  with assms(2) show ?thesis by blast
next
  case (ActSetFailpoint n)
  then show ?thesis by (simp add: effs.fr_set_failpoint)
qed (simp only: ledger_step.simps, rule frame_step, rule effect_frames)+

lemma step_effects_inv:
  assumes "effects_inv ex s"
  shows "effects_inv ex (ledger_step ex act s)"
proof (cases "(\<exists>i. act = ActRecordIntent i) \<or> (\<exists>eid to. act = ActTransitionEffect eid to)")
  case True
  with assms show ?thesis by (auto simp: effects_inv_record effects_inv_transition)
next
  case False
  with step_effect_rows [of act ex s] effects_inv_rows assms show ?thesis by blast
qed

interpretation effect_system: invariant_system "ledger_step ex" "effects_inv ex" for ex
  by unfold_locales (rule step_effects_inv)

lemma effects_inv_new: "effects_inv ex memory_new"
  by (simp add: effects_inv_def memory_new_def)

lemma run_effects_inv: "effects_inv ex (ledger_run ex acts)"
  unfolding ledger_run_def by (rule effect_system.run_inv [OF effects_inv_new])

text \<open>
  The moves a run of actions made on one intent: the targets of its successful transitions, in order.
\<close>

fun effect_move :: "'x graph_ext_scheme \<Rightarrow> string \<Rightarrow> memory_ledger \<Rightarrow> ledger_action \<Rightarrow> effect_state list" where
  "effect_move ex eid s (ActTransitionEffect e to) =
     (if e = eid \<and> is_ok (fst (transition_effect ex e to s)) then [to] else [])"
| "effect_move ex eid s _ = []"

fun effect_moves_from ::
    "'x graph_ext_scheme \<Rightarrow> string \<Rightarrow> memory_ledger \<Rightarrow> ledger_action list \<Rightarrow> effect_state list" where
  "effect_moves_from ex eid s [] = []"
| "effect_moves_from ex eid s (act # acts) =
     effect_move ex eid s act @ effect_moves_from ex eid (ledger_step ex act s) acts"

definition effect_moves :: "'x graph_ext_scheme \<Rightarrow> string \<Rightarrow> ledger_action list \<Rightarrow> effect_state list" where
  "effect_moves ex eid acts = effect_moves_from ex eid memory_new acts"

lemma effect_moves_from_snoc:
  "effect_moves_from ex eid s (acts @ [act]) =
     effect_moves_from ex eid s acts @ effect_move ex eid (fold (ledger_step ex) acts s) act"
  by (induction acts arbitrary: s) simp_all

lemma effect_moves_snoc:
  "effect_moves ex eid (acts @ [act]) = effect_moves ex eid acts @ effect_move ex eid (ledger_run ex acts) act"
  by (simp add: effect_moves_def effect_moves_from_snoc ledger_run_def)

text \<open>How one action acts on one intent row.\<close>

lemma step_intent:
  "(bt_get (ml_effect_intents (ledger_step ex act s)) eid = bt_get (ml_effect_intents s) eid \<and>
      effect_move ex eid s act = []) \<or>
   (bt_get (ml_effect_intents s) eid = None \<and> effect_move ex eid s act = [] \<and>
      (\<exists>i. bt_get (ml_effect_intents (ledger_step ex act s)) eid = Some i \<and> ei_state i = EfProposed)) \<or>
   (\<exists>i to n. bt_get (ml_effect_intents s) eid = Some i \<and> effect_move ex eid s act = [to] \<and>
      effect_transition (ei_state i) to = Inr to \<and>
      bt_get (ml_effect_intents (ledger_step ex act s)) eid = Some (i\<lparr>ei_state := to, ei_unknown_retries := n\<rparr>))"
proof -
  consider (rec) i where "act = ActRecordIntent i" | (tr) e to where "act = ActTransitionEffect e to"
    | (other) "\<forall>i. act \<noteq> ActRecordIntent i" "\<forall>e to. act \<noteq> ActTransitionEffect e to" by blast
  then show ?thesis
  proof cases
    case rec
    obtain r t where run: "record_effect_intent ex i s = (r, t)" by fastforce
    with rec have t: "ledger_step ex act s = t" by simp
    from run show ?thesis
    proof (cases rule: record_effect_intent_cases)
      case (added hash)
      then have "bt_get (ml_effect_intents t) eid = (if eid = ei_id i
          then Some (i\<lparr>ei_payload_hash := hash, ei_unknown_retries := 0\<rparr>) else bt_get (ml_effect_intents s) eid)"
        by (simp add: effect_rows_def)
      with added(2,4) rec t show ?thesis by (cases "eid = ei_id i") simp_all
    qed (use rec t in \<open>auto simp: same_rows_iff\<close>)
  next
    case tr
    obtain r t where run: "transition_effect ex e to s = (r, t)" by fastforce
    with tr have t: "ledger_step ex act s = t" by simp
    from run show ?thesis
    proof (cases rule: transition_effect_cases)
      case refused
      with tr t run show ?thesis by (auto simp: same_rows_iff)
    next
      case (moved i n)
      then have "bt_get (ml_effect_intents t) eid = (if eid = e
          then Some (i\<lparr>ei_state := to, ei_unknown_retries := n\<rparr>) else bt_get (ml_effect_intents s) eid)"
        by (simp add: effect_rows_def)
      with moved(1-3) tr t run show ?thesis by (cases "eid = e") auto
    qed
  next
    case other
    have "effect_move ex eid s act = []" using other(2) by (cases act) auto
    moreover have "ml_effect_intents (ledger_step ex act s) = ml_effect_intents s"
      using step_effect_rows [OF other, of ex s] by (simp add: effect_rows_def)
    ultimately show ?thesis by simp
  qed
qed

lemma run_intent_path:
  "(bt_get (ml_effect_intents (ledger_run ex acts)) eid = None \<longrightarrow> effect_moves ex eid acts = []) \<and>
   (\<forall>i. bt_get (ml_effect_intents (ledger_run ex acts)) eid = Some i \<longrightarrow>
      run_path effect_transition EfProposed (effect_moves ex eid acts) = Inr (ei_state i))"
proof (induction acts rule: rev_induct)
  case Nil
  show ?case by (simp add: effect_moves_def memory_new_def)
next
  case (snoc act acts)
  from step_intent [where ex = ex and act = act and s = "ledger_run ex acts" and eid = eid]
  consider (same) "bt_get (ml_effect_intents (ledger_run ex (acts @ [act]))) eid = bt_get (ml_effect_intents (ledger_run ex acts)) eid"
      "effect_move ex eid (ledger_run ex acts) act = []"
    | (new) i where "bt_get (ml_effect_intents (ledger_run ex acts)) eid = None" "effect_move ex eid (ledger_run ex acts) act = []"
      "bt_get (ml_effect_intents (ledger_run ex (acts @ [act]))) eid = Some i" "ei_state i = EfProposed"
    | (moved) i to n where "bt_get (ml_effect_intents (ledger_run ex acts)) eid = Some i"
      "effect_move ex eid (ledger_run ex acts) act = [to]" "effect_transition (ei_state i) to = Inr to"
      "bt_get (ml_effect_intents (ledger_run ex (acts @ [act]))) eid = Some (i\<lparr>ei_state := to, ei_unknown_retries := n\<rparr>)"
    by auto
  then show ?case
  proof cases
    case same
    with snoc.IH show ?thesis by (simp add: effect_moves_snoc)
  next
    case new
    with snoc.IH show ?thesis by (simp add: effect_moves_snoc)
  next
    case moved
    with snoc.IH show ?thesis by (simp add: effect_moves_snoc effect_machine.path_snoc)
  qed
qed

section \<open>Coding quota and launch nonces\<close>

definition admission_rows ::
    "memory_ledger \<Rightarrow> (string, string \<times> bool) btree_map \<times> (string, u64) btree_map" where
  "admission_rows s = (ml_authority_nonces s, ml_budget_reservations s)"

interpretation adm: lease_blind admission_rows
  by unfold_locales (simp_all add: admission_rows_def)

interpretation adm: effect_blind admission_rows
  by unfold_locales (simp_all add: admission_rows_def)

lemmas admission_frames =
  adm.fr_record_command adm.fr_reconcile adm.fr_set_command_phase adm.fr_materialize_plan
  adm.fr_materialize_graph adm.fr_put_graph adm.fr_graph_delta adm.fr_acquire adm.fr_heartbeat adm.fr_expire
  adm.fr_release adm.fr_put_attempt adm.fr_puts adm.fr_append_event adm.fr_enqueue_ready
  adm.fr_outbox_enqueue adm.fr_outbox_mark adm.fr_record_intent adm.fr_transition adm.fr_receipt
  adm.fr_launch_nonces adm.fr_transport_nonces adm.fr_advance

text \<open>A successful admission of a new command issues its nonce if needed, spends it and reserves.\<close>

inductive admits :: "memory_ledger \<Rightarrow> memory_ledger \<Rightarrow> bool" for s t where
  admitted: "\<lbrakk>bt_get (ml_authority_nonces s) nonce = None \<or> bt_get (ml_authority_nonces s) nonce = Some (digest, False);
      bt_get (ml_budget_reservations s) rid = None;
      units \<le> saturating_sub MAX_CODING_QUOTA_UNITS (sum_list (bt_values (ml_budget_reservations s)));
      admission_rows t = (bt_insert nonce (digest, True) (ml_authority_nonces s),
        bt_insert rid units (ml_budget_reservations s))\<rbrakk> \<Longrightarrow> admits s t"

lemma admit_cases:
  assumes "admit_run_coding ex q existed s = (Inr u, t)"
  shows "admission_rows t = admission_rows s \<or> admits s t"
proof (cases "cq_kind q = RUN_CODING_KIND")
  case False
  with assms show ?thesis by (simp add: admit_run_coding_def result_simps)
next
  case True
  from assms True obtain p where p: "run_coding_parse ex (cq_payload q) = Inr p"
    by (auto simp: admit_run_coding_def Let_def elim!: st_bind_cases) (auto simp: result_simps split: sum.splits)
  let ?d = "to_hex ex (command_digest ex q)"
  let ?w = "issue_on_first_insert (rc_launch_nonce p) ?d existed s"
  from assms True p have body: "(case from_domain (plan_run_coding_admission ex q existed (admission_view p ?w)) of
            Inl e \<Rightarrow> (Err e, ?w)
          | Inr None \<Rightarrow> (Ok (), ?w)
          | Inr (Some plan) \<Rightarrow>
              (case bt_get (ml_authority_nonces ?w) (ap_consume_nonce plan) of
                 None \<Rightarrow> (Err (LeStore ''run_coding launch nonce is absent''), ?w)
               | Some row \<Rightarrow>
                   if fst row \<noteq> ?d \<or> snd row then
                     (Err (LeStore ''run_coding launch nonce is not issued for this request''), ?w)
                   else
                     (Ok (), ?w\<lparr>ml_authority_nonces :=
                          bt_insert (ap_consume_nonce plan) (fst row, True) (ml_authority_nonces ?w),
                        ml_budget_reservations := bt_insert (fst (ap_reservation plan)) (snd (ap_reservation plan))
                          (ml_budget_reservations ?w)\<rparr>))) = (Inr u, t)"
    by (simp add: admit_run_coding_def Let_def result_simps)
  show ?thesis
  proof (cases "plan_run_coding_admission ex q existed (admission_view p ?w)")
    case (Inl e)
    with body show ?thesis by simp
  next
    case (Inr o')
    show ?thesis
    proof (cases o')
      case None
      with Inr True p have "existed"
        by (auto simp: plan_run_coding_admission_def Let_def split: if_splits option.splits nonce_state.splits)
      with body Inr None show ?thesis by (simp add: issue_on_first_insert_def)
    next
      case (Some plan)
      with Inr have "plan_run_coding_admission ex q existed (admission_view p ?w) = Inr (Some plan)" by simp
      then show ?thesis
      proof (rule plan_run_coding_Some)
        fix p' assume h: "\<not> existed" "run_coding_parse ex (cq_payload q) = Inr p'"
          "av_existing_reservation (admission_view p ?w) = None"
          "rc_quota_units p' \<le> saturating_sub MAX_CODING_QUOTA_UNITS (av_used_quota (admission_view p ?w))"
          "av_nonce (admission_view p ?w) = Some (?d, NsIssued)"
          "plan = \<lparr>ap_consume_nonce = rc_launch_nonce p', ap_reservation = (rc_quota_reservation p', rc_quota_units p')\<rparr>"
        with p have p': "p' = p" by simp
        have res: "ml_budget_reservations ?w = ml_budget_reservations s" by (simp add: issue_on_first_insert_def)
        from h(5) have row: "bt_get (ml_authority_nonces ?w) (rc_launch_nonce p) = Some (?d, False)"
          by (auto simp: admission_view_def nonce_row_state_def split: if_splits)
        with h(1) have old: "bt_get (ml_authority_nonces s) (rc_launch_nonce p) = None
            \<or> bt_get (ml_authority_nonces s) (rc_launch_nonce p) = Some (?d, False)"
          by (cases "bt_get (ml_authority_nonces s) (rc_launch_nonce p)")
            (auto simp: issue_on_first_insert_def bt_contains_def split: if_splits)
        from body Inr Some h(6) p' row have
          "admission_rows t = (bt_insert (rc_launch_nonce p) (?d, True) (ml_authority_nonces ?w),
             bt_insert (rc_quota_reservation p) (rc_quota_units p) (ml_budget_reservations s))"
          by (auto simp: admission_rows_def res)
        moreover have "bt_insert (rc_launch_nonce p) (?d, True) (ml_authority_nonces ?w)
            = bt_insert (rc_launch_nonce p) (?d, True) (ml_authority_nonces s)"
          by (simp add: issue_on_first_insert_def)
        ultimately have "admits s t"
          using h(3,4) p' by (intro admits.admitted [OF old]) (simp_all add: admission_view_def res)
        then show ?thesis ..
      qed
    qed
  qed
qed

lemma submit_dispatch_keeps:
  "keeps admission_rows (if existed then st_get g
     else st_bind (outbox_enqueue ex c k p) (\<lambda>_. st_bind tick (\<lambda>_. st_modify (push_event ex kd bd st cr h))))"
  by (simp add: adm.fr_intros adm.fr_outbox_enqueue adm.fr_push)

lemma submit_admission:
  "admission_rows (snd (submit_command ex q s)) = admission_rows s \<or> admits s (snd (submit_command ex q s))"
proof -
  obtain r t where run: "submit_command ex q s = (r, t)" by fastforce
  show ?thesis
  proof (cases r)
    case (Inl e)
    with run have "same_rows s t" unfolding submit_command_def using transaction_Err by blast
    then show ?thesis by (auto simp: run same_rows_iff admission_rows_def)
  next
    case (Inr rec)
    from run Inr have "submit_body ex q s = (Inr rec, t)" by (simp add: submit_command_def transaction_Ok)
    then obtain existed u1 dispatch u2 u where
      "admission_rows u1 = admission_rows s" "(if existed then st_get (submit_replay_check (cr_id rec) dispatch)
         else st_bind (outbox_enqueue ex (Some (cr_id rec)) ''command_dispatch'' dispatch) (\<lambda>_.
              st_bind tick (\<lambda>_. st_modify (push_event ex ''command_submitted'' (cr_id rec) (Some (cr_id rec))
                (Some (cr_id rec)) None)))) u1 = (Inr (), u)" "admit_run_coding ex q existed u = (Inr (), t)"
      unfolding submit_body_def st_bind_Ok_iff
      by (auto simp: st_get_def st_lift_def st_ok_def dest!: keepsD [OF adm.fr_record_command])
    then have u: "admission_rows u = admission_rows s" "admit_run_coding ex q existed u = (Inr (), t)"
      using keepsD [OF submit_dispatch_keeps] by fastforce+
    from admit_cases [OF u(2)] show ?thesis
    proof
      assume "admits u t"
      then have "admits s t"
        by cases (use u(1) in \<open>auto simp: admission_rows_def intro!: admits.intros\<close>)
      then show ?thesis by (simp add: run)
    qed (use u(1) run in simp)
  qed
qed

text \<open>
  The reservations fit the quota as a sum without wrap-around, and there is one reservation for each
  spent nonce.
\<close>

definition spent :: "string \<times> bool \<Rightarrow> nat" where
  "spent row = (if snd row then 1 else 0)"

definition coding_inv :: "memory_ledger \<Rightarrow> bool" where
  "coding_inv s \<longleftrightarrow> bt_sum unat (ml_budget_reservations s) \<le> unat MAX_CODING_QUOTA_UNITS \<and>
     bt_sum (\<lambda>_. 1) (ml_budget_reservations s) = bt_sum spent (ml_authority_nonces s)"

text \<open>A nonce keeps its digest, and once spent stays spent.\<close>

definition nonces_grow :: "memory_ledger \<Rightarrow> memory_ledger \<Rightarrow> bool" where
  "nonces_grow s t \<longleftrightarrow> (\<forall>k d c. bt_get (ml_authority_nonces s) k = Some (d, c) \<longrightarrow>
     (\<exists>c'. bt_get (ml_authority_nonces t) k = Some (d, c') \<and> (c \<longrightarrow> c')))"

lemma admits_inv:
  assumes "admits s t" and inv: "coding_inv s"
  shows "coding_inv t \<and> nonces_grow s t"
  using assms(1)
proof cases
  case (admitted nonce digest rid units)
  have rows: "ml_authority_nonces t = bt_insert nonce (digest, True) (ml_authority_nonces s)"
    "ml_budget_reservations t = bt_insert rid units (ml_budget_reservations s)"
    using admitted(4) by (simp_all add: admission_rows_def)
  have small: "bt_sum unat (ml_budget_reservations s) \<le> unat MAX_CODING_QUOTA_UNITS"
    and count: "bt_sum (\<lambda>_. 1) (ml_budget_reservations s) = bt_sum spent (ml_authority_nonces s)"
    using inv by (simp_all add: coding_inv_def)
  have "unat (sum_list (bt_values (ml_budget_reservations s))) = bt_sum unat (ml_budget_reservations s)"
    using small unat_sum_list [of "bt_values (ml_budget_reservations s)"]
    by (simp add: bt_sum_values MAX_CODING_QUOTA_UNITS_def)
  with admitted(3) small have "unat units + bt_sum unat (ml_budget_reservations s) \<le> unat MAX_CODING_QUOTA_UNITS"
    by (auto simp: saturating_sub_def word_le_nat_alt unat_sub split: if_splits)
  moreover have "bt_sum spent (ml_authority_nonces t) = Suc (bt_sum spent (ml_authority_nonces s))"
    using admitted(1) bt_sum_insert [of "ml_authority_nonces s" nonce "(digest, False)" spent "(digest, True)"]
    by (auto simp: rows bt_sum_insert_fresh spent_def)
  ultimately have "coding_inv t"
    using count admitted(2) by (simp add: coding_inv_def rows bt_sum_insert_fresh)
  moreover have "nonces_grow s t"
    using admitted(1) by (auto simp: nonces_grow_def rows)
  ultimately show ?thesis ..
qed

lemma nonces_grow_refl: "nonces_grow s s"
  by (simp add: nonces_grow_def)

lemma nonces_grow_trans: "nonces_grow s t \<Longrightarrow> nonces_grow t u \<Longrightarrow> nonces_grow s u"
  unfolding nonces_grow_def by meson

lemma admission_rows_inv:
  "admission_rows t = admission_rows s \<Longrightarrow> coding_inv s \<Longrightarrow> coding_inv t \<and> nonces_grow s t"
  by (simp add: admission_rows_def coding_inv_def nonces_grow_def)

lemma admission_frame:
  "keeps admission_rows m \<Longrightarrow> coding_inv s \<Longrightarrow> coding_inv (snd (m s)) \<and> nonces_grow s (snd (m s))"
  by (rule admission_rows_inv [OF frame_step])

lemma issue_coding_inv:
  "coding_inv s \<Longrightarrow> coding_inv (snd (issue_coding_nonce k d s)) \<and> nonces_grow s (snd (issue_coding_nonce k d s))"
  by (cases "bt_get (ml_authority_nonces s) k")
    (auto simp: issue_coding_nonce_def bt_contains_def coding_inv_def nonces_grow_def bt_sum_insert_fresh spent_def)

lemma step_coding:
  assumes "coding_inv s"
  shows "coding_inv (ledger_step ex act s) \<and> nonces_grow s (ledger_step ex act s)"
proof (cases act)
  case (ActSubmitCommand q)
  with submit_admission [of ex q s] admits_inv [OF _ assms] admission_rows_inv [OF _ assms] show ?thesis by auto
next
  case (ActIssueCodingNonce k d)
  with issue_coding_inv [OF assms] show ?thesis by simp
next
  case (ActSetFailpoint n)
  then show ?thesis using admission_rows_inv [OF _ assms] by (simp add: adm.fr_set_failpoint)
qed (simp only: ledger_step.simps, rule admission_frame [OF _ assms], rule admission_frames)+

interpretation coding_system: invariant_system "ledger_step ex" coding_inv for ex
  by unfold_locales (simp add: step_coding)

lemma coding_inv_new: "coding_inv memory_new"
  by (simp add: coding_inv_def memory_new_def)

lemma run_coding_inv: "coding_inv (ledger_run ex acts)"
  unfolding ledger_run_def by (rule coding_system.run_inv [OF coding_inv_new])

lemma fold_nonces_grow: "coding_inv s \<Longrightarrow> nonces_grow s (fold (ledger_step ex) acts s)"
proof (induction acts arbitrary: s)
  case (Cons act acts)
  then show ?case using step_coding [OF Cons.prems, of ex act] nonces_grow_trans by auto
qed (simp add: nonces_grow_refl)

end
