(* ===== verification/Lease_Fencing.thy ===== *)
theory Lease_Fencing
  imports Ledger_Runs
begin

text \<open>
  A writer that has been outbid, or whose lease has ended, stays out: shared by the guarantees of the leases and of the
  mutation permits.
\<close>

lemma outbid_never_passes:
  assumes "length acts + length later < 2 ^ 64"
    and "bt_get (ml_attempts (ledger_run ex acts)) (as_attempt_id subj) = Some a"
    and "bt_get (ml_fences (ledger_run ex acts)) (at_variant_id a) = Some f" and "at_fence a < f"
  shows "check_active_lease ex subj (ledger_run ex (acts @ later)) \<noteq> Inr ()"
proof
  let ?s = "ledger_run ex acts" and ?t = "ledger_run ex (acts @ later)"
  assume "check_active_lease ex subj ?t = Inr ()"
  then obtain l b where l: "bt_get (ml_leases ?t) (as_variant_id subj) = Some l"
    and b: "bt_get (ml_attempts ?t) (as_attempt_id subj) = Some b" "lease_agrees l b"
    unfolding check_active_lease_def
    by (auto elim!: res_bind_OkE simp: check_active_lease_snapshot_iff lease_agrees_def lease_subject_from_attempt_def)
  have inv: "lease_inv (length acts) (lease_view_of ?s)" "lease_inv (length acts + length later) (lease_view_of ?t)"
    using run_lease_inv [of acts ex] run_lease_inv [of "acts @ later" ex] assms(1) by simp_all
  from fold_refines [OF inv(1) assms(1), of ex] obtain k where
    k: "k \<le> length later" "lease_run k (lease_view_of ?s) (lease_view_of ?t)"
    unfolding ledger_run_append by blast
  from lease_run_grows [OF k(2)] assms(2) b(1) have "same_incarnation a b" by (fastforce simp: incarnations_grow_def)
  then have ab: "at_variant_id b = at_variant_id a" "at_fence b = at_fence a" by (simp_all add: same_incarnation_def)
  have "length acts + k < 2 ^ 64" using k(1) assms(1) by simp
  from fence_of_grows [OF k(2) inv(1) this, of "at_variant_id a"] assms(3)
  have "f \<le> fence_of (lease_view_of ?t) (at_variant_id a)" by (simp add: fence_of_def)
  moreover have "fence_of (lease_view_of ?t) (at_variant_id a) = at_fence a"
    using lease_invD(2) [OF inv(2), of "as_variant_id subj" l] l b(2) ab by (simp add: fence_of_def lease_agrees_def)
  ultimately show False using assms(4) by simp
qed

text \<open>An attempt that exists and holds no lease never holds one again: a grant creates its attempt.\<close>

definition retired :: "string \<Rightarrow> lease_view \<Rightarrow> bool" where
  "retired k v \<longleftrightarrow> lv_attempts v k \<noteq> None \<and> (\<forall>x l. lv_leases v x = Some l \<longrightarrow> al_attempt_id l \<noteq> k)"

lemma retired_stays: "lease_run n u v \<Longrightarrow> retired k u \<Longrightarrow> retired k v"
proof (induction rule: lease_run.induct)
  case (granted n u v w)
  from granted.hyps(2) granted.IH [OF granted.prems] show ?case
    by cases (auto simp: retired_def lease_agrees_def split: if_splits)
next
  case (quiet n u v w)
  from quiet.hyps(2) quiet.IH [OF quiet.prems] show ?case
    by cases (auto simp: retired_def same_tenure_def split: if_splits)
qed

lemma retired_run:
  assumes "length acts + length later < 2 ^ 64" and "retired k (lease_view_of (ledger_run ex acts))"
  shows "retired k (lease_view_of (ledger_run ex (acts @ later)))"
proof -
  have "lease_inv (length acts) (lease_view_of (ledger_run ex acts))"
    by (rule run_lease_inv) (use assms(1) in simp)
  from fold_refines [OF this assms(1), of ex] show ?thesis
    unfolding ledger_run_append using retired_stays assms(2) by blast
qed

lemma retired_refused:
  assumes "retired k (lease_view_of s)"
  shows "as_attempt_id subj = k \<Longrightarrow> check_active_lease ex subj s \<noteq> Inr ()"
    and "hb_attempt_id hb = k \<Longrightarrow> \<not> is_ok (fst (heartbeat ex hb s))"
proof -
  have none: "al_attempt_id l \<noteq> k" if "bt_get (ml_leases s) x = Some l" for x l
    using assms that by (simp add: retired_def)
  show "check_active_lease ex subj s \<noteq> Inr ()" if "as_attempt_id subj = k"
    using none that unfolding check_active_lease_def
    by (auto elim!: res_bind_OkE simp: check_active_lease_snapshot_iff lease_subject_from_attempt_def)
  obtain r t where run: "heartbeat ex hb s = (r, t)" by fastforce
  then show "\<not> is_ok (fst (heartbeat ex hb s))" if "hb_attempt_id hb = k"
    by (cases rule: heartbeat_cases) (use none that run in auto)
qed

end
