(* ===== verification/Ledger_History.thy ===== *)
theory Ledger_History
  imports Ledger_System
begin

text \<open>
  The rows of the in-process ledger that only ever grow: the event log, the effect receipts, and the
  candidate, evidence and effect rows. One preorder on states says so; every action moves along it,
  also when it fails half-way.
\<close>

section \<open>The preorder\<close>

definition history :: "memory_ledger \<Rightarrow> ledger_event list \<times> effect_receipt list \<times> (string, candidate) btree_map \<times>
    (string, evidence) btree_map \<times> (string, effect) btree_map" where
  "history s = (ml_events s, ml_effect_receipts s, ml_candidates s, ml_evidence s, ml_effects s)"

text \<open>Events are numbered from 1 by their position.\<close>

definition numbered :: "nat \<Rightarrow> ledger_event list \<Rightarrow> bool" where
  "numbered n es \<longleftrightarrow> (\<forall>i < length es. le_seq (es ! i) = of_nat (n + i) + 1 \<and> le_sequence (es ! i) = Some (le_seq (es ! i)))"

definition history_ext :: "memory_ledger \<Rightarrow> memory_ledger \<Rightarrow> bool" where
  "history_ext s t \<longleftrightarrow>
     (\<exists>es. ml_events t = ml_events s @ es \<and> numbered (length (ml_events s)) es) \<and>
     (\<exists>rs. ml_effect_receipts t = ml_effect_receipts s @ rs) \<and>
     bt_get (ml_candidates s) \<subseteq>\<^sub>m bt_get (ml_candidates t) \<and>
     bt_get (ml_evidence s) \<subseteq>\<^sub>m bt_get (ml_evidence t) \<and>
     bt_get (ml_effects s) \<subseteq>\<^sub>m bt_get (ml_effects t)"

lemma numbered_append: "numbered n xs \<Longrightarrow> numbered (n + length xs) ys \<Longrightarrow> numbered n (xs @ ys)"
  unfolding numbered_def
proof (intro allI impI)
  fix i
  assume xs: "\<forall>i < length xs. le_seq (xs ! i) = of_nat (n + i) + 1 \<and> le_sequence (xs ! i) = Some (le_seq (xs ! i))"
    and ys: "\<forall>i < length ys. le_seq (ys ! i) = of_nat (n + length xs + i) + 1 \<and> le_sequence (ys ! i) = Some (le_seq (ys ! i))"
    and i: "i < length (xs @ ys)"
  show "le_seq ((xs @ ys) ! i) = of_nat (n + i) + 1 \<and> le_sequence ((xs @ ys) ! i) = Some (le_seq ((xs @ ys) ! i))"
  proof (cases "i < length xs")
    case True
    with xs show ?thesis by (simp add: nth_append)
  next
    case False
    with i have "i - length xs < length ys" "n + length xs + (i - length xs) = n + i" by simp_all
    with ys False show ?thesis by (metis nth_append)
  qed
qed

lemma history_same: "history t = history s \<Longrightarrow> history_ext s t"
  by (simp add: history_ext_def history_def numbered_def)

lemma history_ext_trans: "history_ext s t \<Longrightarrow> history_ext t u \<Longrightarrow> history_ext s u"
  unfolding history_ext_def
  by (elim conjE exE, intro conjI) (auto intro: numbered_append map_le_trans)

lemma history_push:
  assumes "history t = history s"
  shows "history_ext s (push_event ex k b st c h t)"
  using assms by (simp add: history_ext_def history_def push_event_def Let_def numbered_def)

definition extends :: "'a ledger_op \<Rightarrow> bool" where
  "extends m \<longleftrightarrow> (\<forall>s. history_ext s (snd (m s)))"

lemma extends_keeps: "keeps history m \<Longrightarrow> extends m"
  by (simp add: extends_def keeps_def history_same)

lemma extends_bind: "extends m \<Longrightarrow> (\<And>a. extends (k a)) \<Longrightarrow> extends (st_bind m k)"
  unfolding extends_def
  by (auto simp: st_bind_def split: prod.splits sum.splits) (metis history_ext_trans snd_conv)+

lemma extends_pure: "extends (st_lift r)" "extends (st_get g)" "extends (st_ok a)" "extends (st_err e)"
  by (simp_all add: extends_keeps keeps_pure)

lemma extends_modify: "(\<And>s. history_ext s (g s)) \<Longrightarrow> extends (st_modify g)"
  by (simp add: extends_def st_modify_def)

lemma extends_tick: "extends tick"
  by (rule extends_keeps, rule keeps_tick) (simp add: history_def)

lemma extends_transaction: "extends m \<Longrightarrow> extends (transaction m)"
  unfolding extends_def
  by (auto simp: transaction_def history_same history_def split: prod.splits sum.splits) (metis snd_conv)

lemmas extends_intros = extends_bind extends_pure extends_modify extends_tick extends_transaction history_push

section \<open>Every operation extends the history\<close>

lemma extends_record_command: "extends (record_command ex q)"
  unfolding record_command_def
  by (intro extends_intros) (simp add: extends_def history_same history_def split: option.splits sum.splits)

lemma extends_outbox_enqueue: "extends (outbox_enqueue ex c k p)"
  unfolding outbox_enqueue_def
  by (intro extends_intros) (simp add: extends_def history_same history_def Let_def)

lemma extends_set_command_phase: "extends (set_command_phase ex k p r)"
  unfolding set_command_phase_def Let_def
  by (intro extends_intros history_same) (simp add: history_def)

lemma extends_settle_command: "extends (settle_command msg k p r)"
  by (simp add: extends_def settle_command_def history_same history_def split: option.splits)

lemma extends_admit: "extends (admit_run_coding ex q b)"
proof (rule extends_keeps)
  have "keeps history (st_modify (issue_on_first_insert n d b))" for n d
    by (intro keeps_intros) (simp add: issue_on_first_insert_def history_def)
  then show "keeps history (admit_run_coding ex q b)"
    unfolding admit_run_coding_def Let_def
    by (simp add: keeps_pure, intro impI keeps_bind keeps_pure)
      (simp_all add: keeps_def history_def split: sum.splits option.splits)
qed

lemma extends_submit: "extends (submit_command ex q)"
proof -
  have "extends (if b then st_get g else st_bind (outbox_enqueue ex c k p) (\<lambda>_.
      st_bind tick (\<lambda>_. st_modify (push_event ex kd bd st cr h))))" for b g c k p kd bd st cr h
    by (simp add: extends_intros extends_outbox_enqueue)
  then show ?thesis
    unfolding submit_command_def submit_body_def
    by (intro extends_transaction extends_bind extends_pure extends_record_command extends_admit)
qed

lemma extends_reconcile: "extends (reconcile_offline_command ex cid now)"
  unfolding reconcile_offline_command_def reconcile_body_def
proof (intro extends_transaction extends_bind extends_pure)
  have "extends (reconcile_write ex cid now plan)" for plan
    unfolding reconcile_write_def Let_def
    by (intro extends_intros history_same) (simp_all add: history_def)
  then show "extends (\<lambda>s. let r = rp_record plan; row = rp_row plan; res = rp_resolution plan; recon = reconciled_events cid s in
       if cr_phase r \<noteq> CpPending then
         (if r \<noteq> rp_expected plan \<or> ob_phase row \<noteq> or_phase res \<or> ob_delivered_at row \<noteq> None
             \<or> ob_acked_at row = None \<or> length recon \<noteq> 1 \<or> le_body (recon ! 0) \<noteq> or_response res then
            (Err (LeStore ''command has conflicting reconciled truth''), s)
          else (Ok r, s))
       else if ob_phase row \<noteq> CpPending \<or> ob_delivered_at row \<noteq> None \<or> ob_acked_at row \<noteq> None \<or> recon \<noteq> [] then
         (Err (LeStore ''pending command has conflicting worker truth''), s)
       else reconcile_write ex cid now plan s)" for plan
    by (simp add: extends_def Let_def history_same)
qed

lemma extends_put_graph: "extends (put_graph g)"
  unfolding put_graph_def
  by (intro extends_intros) (simp add: extends_def Let_def history_same history_def)

lemma extends_requeue: "extends (requeue_package p now)"
  by (simp add: extends_def requeue_package_def Let_def history_same history_def split: option.splits sum.splits)

lemma extends_set_attempt: "history (set_attempt_state k st s) = history s"
  by (simp add: set_attempt_state_def history_def split: option.splits)

lemma extends_reclaim: "extends (reclaim ex l now)"
  unfolding reclaim_def reclaim_write_def
  by (intro extends_intros, simp split: prod.splits, intro allI impI extends_intros extends_requeue history_same)
    (simp_all add: extends_set_attempt, simp_all add: history_def)

lemma extends_reclaim_all: "extends (reclaim_all ex now ls)"
  by (induction ls) (simp_all add: extends_intros extends_reclaim)

lemma extends_expire: "extends (expire_leases ex)"
  unfolding expire_leases_def
  by (intro extends_intros) (simp add: extends_def Let_def extends_reclaim_all [unfolded extends_def, rule_format])

lemma extends_acquire: "extends (acquire_lease ex req)"
proof -
  have variant: "extends (reclaim_expired_variant ex x now)" for x now
  proof -
    have "extends (st_bind (reclaim ex l now) (\<lambda>x. st_ok (Some x)))" for l
      by (intro extends_intros extends_reclaim)
    then show ?thesis by (simp add: extends_def reclaim_expired_variant_def history_same split: option.splits)
  qed
  have commit: "history_ext s (acquire_commit ex req rows s)" for rows s
  proof -
    let ?s = "s\<lparr>ml_fences := bt_insert (lq_variant_id req) (at_fence (lg_attempt (aq_grant rows))) (ml_fences s),
                ml_attempts := bt_insert (at_id (lg_attempt (aq_grant rows))) (lg_attempt (aq_grant rows)) (ml_attempts s),
                ml_leases := bt_insert (lq_variant_id req) (lg_lease (aq_grant rows)) (ml_leases s),
                ml_ready := bt_remove (aq_package_id rows) (ml_ready s),
                ml_graphs := bt_insert (mi_id (sg_mission (aq_graph rows))) (aq_graph rows) (ml_graphs s)\<rparr>"
    have "history_ext s (push_event ex ''attempt_leased'' (aq_grant_json rows) (Some (lq_variant_id req))
                 (Some (lq_idempotency_key req)) (Some (aq_token_hash rows)) ?s)"
      by (rule history_push) (simp add: history_def)
    then show ?thesis
      by (rule history_ext_trans) (rule history_same, simp add: acquire_commit_def Let_def history_def)
  qed
  have "extends (acquire_fresh ex req q)" for q
    unfolding acquire_fresh_def
    by (intro extends_intros, simp split: prod.splits, intro allI impI extends_intros variant) (rule commit)
  then show ?thesis
    unfolding acquire_lease_def by (intro extends_intros) (simp add: extends_def history_same split: option.splits)
qed

lemma extends_heartbeat: "extends (heartbeat ex req)"
  unfolding heartbeat_def
  by (intro extends_intros)
    (simp add: extends_def Let_def history_same history_def split: prod.splits option.splits)

lemma extends_release: "extends (release_lease ex req)"
proof -
  have body: "extends (st_bind (st_get (\<lambda>s. ok_or (bt_get (ml_attempts s) (rq_attempt_id req))
                (LeStore ''lease without attempt''))) (\<lambda>a.
             st_bind (st_lift (from_domain (attempt_transition (at_state a) (rq_final_state req)))) (\<lambda>next_state.
             st_bind (st_modify (set_attempt_state (rq_attempt_id req) next_state)) (\<lambda>_.
             st_bind (st_modify (\<lambda>s. s\<lparr>ml_leases := bt_remove (rq_variant_id req) (ml_leases s)\<rparr>)) (\<lambda>_.
             st_bind (if rq_requeue req then requeue_package (at_work_package_id a) now else st_ok ()) (\<lambda>_.
               st_modify (push_event ex ''lease_released'' (rq_attempt_id req) (Some (rq_variant_id req))
                 None None)))))))" for now
  proof (intro extends_bind extends_pure)
    show "extends (st_modify (set_attempt_state (rq_attempt_id req) next_state))" for next_state
      by (intro extends_modify history_same extends_set_attempt)
    show "extends (st_modify (\<lambda>s. s\<lparr>ml_leases := bt_remove (rq_variant_id req) (ml_leases s)\<rparr>))"
      by (intro extends_modify history_same) (simp add: history_def)
    show "extends (if rq_requeue req then requeue_package p now else st_ok ())" for p
      by (simp add: extends_requeue extends_pure)
    show "extends (st_modify (push_event ex ''lease_released'' (rq_attempt_id req) (Some (rq_variant_id req)) None None))"
      by (intro extends_modify history_push) simp
  qed
  show ?thesis
    unfolding release_lease_def
    by (intro extends_bind extends_tick)
      (use body in \<open>simp add: extends_def st_err_def Let_def history_same split: option.splits\<close>)
qed

lemma extends_put_attempt: "extends (put_attempt a)"
  unfolding put_attempt_def
  by (intro extends_intros) (simp add: extends_def history_same history_def split: option.splits sum.splits)

lemma extends_puts: "extends (put_candidate c)" "extends (put_evidence e)" "extends (put_effect x)"
  unfolding put_candidate_def put_evidence_def put_effect_def
  by (intro extends_intros; simp add: extends_def history_ext_def numbered_def split: prod.splits;
      use append_only_keeps_rows in \<open>fastforce simp: map_le_def\<close>)+

lemma extends_append_event: "extends (append_event ex k b)"
  unfolding append_event_def by (intro extends_intros) (simp add: extends_def history_push)

lemma extends_enqueue_ready: "extends (enqueue_ready p now)"
  unfolding enqueue_ready_def by (intro extends_intros) (simp add: extends_def history_same history_def)

lemma extends_outbox_mark: "extends (outbox_mark seq p now)"
  unfolding outbox_mark_def
  by (intro extends_intros) (simp add: extends_def history_same history_def split: option.splits)

lemma extends_record_intent: "extends (record_effect_intent ex i)"
proof -
  have "extends (\<lambda>s. let normalized = i\<lparr>ei_payload_hash := hash, ei_unknown_retries := 0\<rparr>;
             key = effect_key (ei_provider i) (ei_logical_effect_key i) in
         case bt_get (ml_effect_keys s) key of
           Some eid \<Rightarrow>
             (case bt_get (ml_effect_intents s) eid of
                None \<Rightarrow> (Err (LeStore (''effect key '' @ key @ '' has no row'')), s)
              | Some existing \<Rightarrow>
                  if ei_payload_hash existing \<noteq> ei_payload_hash normalized then
                    (Err (LeDomain (Idempotency (''effect '' @ ei_provider i @ '':'' @ ei_logical_effect_key i
                       @ '' exists with a different identity''))), s)
                  else (Ok (existing, False), s))
         | None \<Rightarrow>
             if bt_contains (ml_effect_intents s) (ei_id i) then
               (Err (LeDomain (Conflict (''effect intent id '' @ ei_id i
                  @ '' already used by another logical key''))), s)
             else
               (Ok (normalized, True),
                push_event ex ''effect_intent_recorded'' (ei_id normalized) (Some (ei_attempt_id normalized)) None None
                  (s\<lparr>ml_effect_keys := bt_insert key (ei_id i) (ml_effect_keys s),
                     ml_effect_intents := bt_insert (ei_id i) normalized (ml_effect_intents s)\<rparr>)))" for hash
    by (simp add: extends_def Let_def history_push history_same history_def split: option.splits)
  then show ?thesis
    unfolding record_effect_intent_def by (intro extends_bind extends_tick) (simp add: extends_intros)
qed

lemma extends_transition: "extends (transition_effect ex eid to)"
  unfolding transition_effect_def Let_def
proof (intro extends_bind extends_tick extends_pure extends_modify)
  show "history_ext s (s\<lparr>ml_effect_intents := f s\<rparr>)" for s f
    by (rule history_same) (simp add: history_def)
qed (simp_all add: history_push)

lemma extends_receipt: "extends (record_effect_receipt ex r)"
  unfolding record_effect_receipt_def
proof (intro extends_bind extends_tick)
  have "history_ext s (push_event ex k b st c h (s\<lparr>ml_effect_receipts := ml_effect_receipts s @ [r]\<rparr>))" for s k b st c h
    by (rule history_ext_trans [OF _ history_push [OF refl]]) (simp add: history_ext_def numbered_def)
  then show "extends (\<lambda>s. case List.find (\<lambda>row. er_id row = er_id r) (ml_effect_receipts s) of
         Some existing \<Rightarrow>
           if existing = r then (Ok False, s)
           else (Err (LeDomain (Conflict (''effect receipt '' @ er_id r @ '' differs from the stored row''))), s)
       | None \<Rightarrow>
           (Ok True, push_event ex ''effect_receipt_recorded'' (er_id r) (Some (er_effect_intent_id r)) None None
             (s\<lparr>ml_effect_receipts := ml_effect_receipts s @ [r]\<rparr>)))"
    by (simp add: extends_def history_same split: option.splits)
qed

lemma extends_launch_nonces: "extends (record_launch_grant_nonce rec)" "extends (consume_launch_grant_nonce ex n a)"
  unfolding record_launch_grant_nonce_def consume_launch_grant_nonce_def
  by (intro extends_intros; simp add: extends_def history_same history_def Let_def split: option.splits)+

lemma extends_other_nonces:
  "extends (reserve_transport_nonce n b e)" "extends (consume_transport_nonce n b u)" "extends (issue_coding_nonce n b)"
  by (simp_all add: extends_def history_same history_def reserve_transport_nonce_def consume_transport_nonce_def
      issue_coding_nonce_def split: option.splits)

lemma extends_advance: "extends (advance_simulation_time ex sec)"
  by (simp add: extends_def advance_simulation_time_def history_same history_def split: option.splits)

lemma extends_materialize_graph: "extends (materialize_graph ex g now)"
  unfolding materialize_graph_def
  by (intro extends_intros)
    (simp add: extends_def Let_def history_push history_same history_def split: sum.splits)

lemma extends_contexts: "extends (insert_initial_contexts ex g now)"
proof -
  have "history (snd (insert_capsules cs s)) = history s" for cs s
    by (induction cs arbitrary: s) (simp_all add: Let_def history_def)
  then show ?thesis
    unfolding insert_initial_contexts_def by (intro extends_intros) (simp add: extends_def history_same)
qed

lemma extends_open_fences: "extends (open_fences_ticked vs)"
proof (induction vs)
  case (Cons v vs)
  then show ?case by (simp, intro extends_intros history_same) (simp_all add: history_def)
qed (simp add: extends_pure)

lemma extends_open_ready: "extends (open_ready_ticked now ps)"
proof (induction ps)
  case (Cons p ps)
  have "extends (if wp_state p = WpReady then
      st_bind tick (\<lambda>_. st_modify (\<lambda>s. s\<lparr>ml_ready := bt_or_insert (wp_id p) now (ml_ready s)\<rparr>)) else st_ok ())"
    by (simp add: extends_intros history_same history_def)
  with Cons show ?case by (simp add: extends_bind)
qed (simp add: extends_pure)

lemma extends_materialize_write: "extends (materialize_write ex q g now r)"
  unfolding materialize_write_def Let_def
  by (intro extends_intros extends_contexts extends_open_fences extends_open_ready extends_settle_command history_same)
    (simp_all add: history_def)

lemma extends_materialize_plan: "extends (materialize_plan_command ex q g now)"
proof -
  have "extends (materialize_body ex q g now)"
    unfolding materialize_body_def
  proof (intro extends_bind extends_record_command)
    have "extends (st_bind (st_get h) (\<lambda>response. st_bind (materialize_write ex q g now response) (\<lambda>_. st_ok g)))" for h
      by (intro extends_intros extends_materialize_write)
    then show "extends (if cr_phase r \<in> {CpApplied, CpVerified} then st_get (materialize_replay ex g r)
       else if cr_phase r \<in> {CpFailed, CpUnknown} then
         st_err (LeStore (''materialization command is '' @ command_phase_as_str (cr_phase r)))
       else if cr_response r \<noteq> None then
         st_err (LeStore ''pending materialization command has a stored result'')
       else
         st_bind (st_get (\<lambda>s.
           if bt_contains (ml_graphs s) (mi_id (sg_mission g)) then
             Err (LeDomain (Conflict (''graph '' @ mi_id (sg_mission g) @ '' already materialized'')))
           else materialized_applied ex g)) (\<lambda>response.
         st_bind (materialize_write ex q g now response) (\<lambda>_. st_ok g)))" for r
      by (simp add: extends_pure)
  qed
  then show ?thesis unfolding materialize_plan_command_def by (intro extends_intros)
qed

lemma extends_delta_fresh: "extends (delta_fresh ex q m d)"
proof -
  have "extends (st_bind (st_lift (delta_result_failed ex e)) (\<lambda>response.
          st_bind tick (\<lambda>_.
          st_bind (settle_command ''delta command missing'' (cq_idempotency_key q) CpFailed response) (\<lambda>_.
          st_bind tick (\<lambda>_. st_ok (Err e :: ledger_error + stored_graph))))))" for e
    by (intro extends_intros extends_settle_command)
  moreover have "extends (st_bind (st_lift (delta_result_applied ex g)) (\<lambda>response.
          st_bind (st_lift (from_domain (delta_digest ex d))) (\<lambda>dig.
          st_bind tick (\<lambda>_.
          st_bind (st_modify (\<lambda>s. s\<lparr>ml_graphs := bt_insert m g (ml_graphs s)\<rparr>)) (\<lambda>_.
          st_bind tick (\<lambda>_.
          st_bind (st_modify (push_event ex ''graph_delta'' (to_hex ex dig) None None None)) (\<lambda>_.
          st_bind tick (\<lambda>_.
          st_bind (settle_command ''delta command missing'' (cq_idempotency_key q) CpApplied response) (\<lambda>_.
          st_bind tick (\<lambda>_. st_ok (Ok g :: ledger_error + stored_graph)))))))))))" for g
    by (intro extends_intros extends_settle_command history_same) (simp_all add: history_def)
  ultimately show ?thesis
    unfolding delta_fresh_def extends_def by (simp split: sum.splits)
qed

lemma extends_graph_delta: "extends (apply_graph_delta_command ex q m d)"
proof -
  have "extends (delta_body ex q m d)"
    unfolding delta_body_def
  proof (intro extends_bind extends_record_command)
    show "extends (if cr_phase r \<in> {CpApplied, CpVerified, CpFailed} then st_lift (delta_replay ex m r)
        else delta_fresh ex q m d)" for r
      by (simp add: extends_delta_fresh extends_pure)
  qed
  then show ?thesis unfolding apply_graph_delta_command_def by (intro extends_intros)
qed

lemmas extends_ops =
  extends_record_command extends_submit extends_reconcile extends_set_command_phase extends_materialize_plan
  extends_materialize_graph extends_put_graph extends_graph_delta extends_acquire extends_heartbeat extends_expire
  extends_release extends_put_attempt extends_puts extends_append_event extends_enqueue_ready
  extends_outbox_enqueue extends_outbox_mark extends_record_intent extends_transition extends_receipt
  extends_launch_nonces extends_other_nonces extends_advance

section \<open>Runs\<close>

lemma extends_step: "extends m \<Longrightarrow> history_ext s (snd (m s))"
  by (simp add: extends_def)

lemma step_history: "history_ext s (ledger_step ex act s)"
proof (cases act)
  case (ActSetFailpoint n)
  then show ?thesis by (simp add: history_same history_def set_failpoint_def)
qed (simp only: ledger_step.simps, rule extends_step, rule extends_ops)+

lemma run_history: "history_ext s (fold (ledger_step ex) acts s)"
proof (induction acts arbitrary: s)
  case (Cons act acts)
  show ?case using history_ext_trans [OF step_history Cons.IH] by simp
qed (simp add: history_same)

lemma run_numbered: "numbered 0 (ml_events (ledger_run ex acts))"
proof -
  from run_history [of memory_new ex acts] obtain es where
    "ml_events (ledger_run ex acts) = ml_events memory_new @ es" "numbered (length (ml_events memory_new)) es"
    unfolding history_ext_def ledger_run_def by blast
  then show ?thesis by (simp add: memory_new_def)
qed

end
