(* ===== verification/Ledger_Rows.thy ===== *)
theory Ledger_Rows
  imports Ledger_System
begin

text \<open>
  The row invariant of the in-process ledger: graphs are stored under their mission, commands under
  their key with the identity their request derives, and outbox rows are numbered by their position.
  Every action keeps it, also when it stops half-way.
\<close>

section \<open>Invariant\<close>

definition command_row_ok :: "'x ledger_ext_scheme \<Rightarrow> string \<Rightarrow> command_record \<Rightarrow> bool" where
  "command_row_ok ex k c \<longleftrightarrow> cr_idempotency_key c = k \<and> command_validate ex (record_request c) = Inr () \<and>
     cr_id c = command_id ex (record_request c) \<and> cr_payload_digest c = command_digest ex (record_request c)"

definition rows_ok :: "'x ledger_ext_scheme \<Rightarrow> memory_ledger \<Rightarrow> bool" where
  "rows_ok ex s \<longleftrightarrow>
     (\<forall>k g. bt_get (ml_graphs s) k = Some g \<longrightarrow> mi_id (sg_mission g) = k) \<and>
     (\<forall>k c. bt_get (ml_commands s) k = Some c \<longrightarrow> command_row_ok ex k c) \<and>
     map ob_seq (ml_outbox s) = map (\<lambda>i. of_nat i + 1) [0 ..< length (ml_outbox s)]"

definition keyed_rows ::
    "memory_ledger \<Rightarrow> (string, stored_graph) btree_map \<times> (string, command_record) btree_map \<times> outbox_item list" where
  "keyed_rows s = (ml_graphs s, ml_commands s, ml_outbox s)"

lemma rows_ok_same: "keyed_rows t = keyed_rows s \<Longrightarrow> rows_ok ex s \<Longrightarrow> rows_ok ex t"
  by (simp add: rows_ok_def keyed_rows_def)

lemma rows_ok_graph:
  "rows_ok ex s \<Longrightarrow> mi_id (sg_mission g) = k \<Longrightarrow> ml_graphs t = bt_insert k g (ml_graphs s) \<Longrightarrow>
     ml_commands t = ml_commands s \<Longrightarrow> ml_outbox t = ml_outbox s \<Longrightarrow> rows_ok ex t"
  by (simp add: rows_ok_def)

lemma rows_ok_command:
  "rows_ok ex s \<Longrightarrow> command_row_ok ex k c \<Longrightarrow> ml_commands t = bt_insert k c (ml_commands s) \<Longrightarrow>
     ml_graphs t = ml_graphs s \<Longrightarrow> ml_outbox t = ml_outbox s \<Longrightarrow> rows_ok ex t"
  by (simp add: rows_ok_def)

lemma rows_ok_outbox:
  "rows_ok ex s \<Longrightarrow> ml_outbox t = ml_outbox s @ [i] \<Longrightarrow> ob_seq i = of_nat (length (ml_outbox s)) + 1 \<Longrightarrow>
     ml_commands t = ml_commands s \<Longrightarrow> ml_graphs t = ml_graphs s \<Longrightarrow> rows_ok ex t"
  by (simp add: rows_ok_def)

lemma rows_ok_renumbered:
  "rows_ok ex s \<Longrightarrow> map ob_seq (ml_outbox t) = map ob_seq (ml_outbox s) \<Longrightarrow>
     ml_commands t = ml_commands s \<Longrightarrow> ml_graphs t = ml_graphs s \<Longrightarrow> rows_ok ex t"
  unfolding rows_ok_def by (metis length_map)

lemma command_row_phase [simp]:
  "command_row_ok ex k (c\<lparr>cr_phase := p, cr_response := r\<rparr>) = command_row_ok ex k c"
  by (simp add: command_row_ok_def record_request_def)

lemma validated_row: "record_validate ex c = Inr () \<Longrightarrow> command_row_ok ex (cr_idempotency_key c) c"
  by (auto simp: command_row_ok_def record_validate_def Let_def res_bind_Ok_iff split: if_splits)

section \<open>Preservation\<close>

definition preserves :: "'x ledger_ext_scheme \<Rightarrow> 'a ledger_op \<Rightarrow> bool" where
  "preserves ex m \<longleftrightarrow> (\<forall>s. rows_ok ex s \<longrightarrow> rows_ok ex (snd (m s)))"

lemma preserves_keeps: "keeps keyed_rows m \<Longrightarrow> preserves ex m"
  unfolding preserves_def keeps_def using rows_ok_same by blast

lemma preserves_bind: "preserves ex m \<Longrightarrow> (\<And>a. preserves ex (k a)) \<Longrightarrow> preserves ex (st_bind m k)"
  unfolding preserves_def
  by (auto simp: st_bind_def split: prod.splits sum.splits)

lemma preserves_pure:
  "preserves ex (st_lift r)" "preserves ex (st_get g)" "preserves ex (st_ok a)" "preserves ex (st_err e)"
  by (simp_all add: preserves_keeps keeps_pure)

lemma preserves_modify: "(\<And>s. rows_ok ex s \<Longrightarrow> rows_ok ex (g s)) \<Longrightarrow> preserves ex (st_modify g)"
  by (simp add: preserves_def st_modify_def)

lemma preserves_tick: "preserves ex tick"
  by (rule preserves_keeps, rule keeps_tick) (simp add: keyed_rows_def)

lemma preserves_transaction: "preserves ex m \<Longrightarrow> preserves ex (transaction m)"
proof -
  assume m: "preserves ex m"
  have "rows_ok ex (snd (transaction m s))" if s: "rows_ok ex s" for s
  proof (cases "m s")
    case (Pair r t)
    with m s have "rows_ok ex t" unfolding preserves_def by (metis snd_conv)
    moreover have "rows_ok ex (s\<lparr>ml_fail_after_writes := n\<rparr>)" for n
      using rows_ok_same [OF _ s] by (simp add: keyed_rows_def)
    ultimately show ?thesis using Pair by (simp add: transaction_def split: sum.splits)
  qed
  then show ?thesis by (simp add: preserves_def)
qed

lemmas preserves_intros = preserves_bind preserves_pure preserves_tick preserves_transaction preserves_modify

lemma keyed_rows_push [simp]: "keyed_rows (push_event ex k b st c h s) = keyed_rows s"
  by (simp add: keyed_rows_def push_event_def Let_def)

lemma preserves_push: "preserves ex (st_modify (push_event ey k b st c h))"
  by (rule preserves_keeps) (simp add: keeps_def st_modify_def)

lemma preserves_same: "(\<And>s. keyed_rows (g s) = keyed_rows s) \<Longrightarrow> preserves ex (st_modify g)"
  by (rule preserves_keeps) (simp add: keeps_def st_modify_def)

text \<open>Operations that leave these rows alone.\<close>

lemma preserves_quiet_rows:
  "preserves ex (put_attempt a)" "preserves ex (put_candidate c)" "preserves ex (put_evidence e)"
  "preserves ex (put_effect f)" "preserves ex (append_event ey k b)" "preserves ex (enqueue_ready p now)"
  unfolding put_attempt_def put_candidate_def put_evidence_def put_effect_def append_event_def enqueue_ready_def
  by (intro preserves_bind preserves_tick, rule preserves_keeps,
      simp add: keeps_def keyed_rows_def push_event_def Let_def split: option.splits sum.splits prod.splits)+

lemma preserves_heartbeat: "preserves ex (heartbeat ey req)"
  unfolding heartbeat_def
  by (intro preserves_bind preserves_pure preserves_tick, rule preserves_keeps)
    (simp add: keeps_def keyed_rows_def Let_def split: option.splits prod.splits)

lemma preserves_nonces:
  "preserves ex (record_launch_grant_nonce rec)" "preserves ex (consume_launch_grant_nonce ey n a)"
  "preserves ex (reserve_transport_nonce n b e)" "preserves ex (consume_transport_nonce n b u)"
  "preserves ex (issue_coding_nonce n b)" "preserves ex (advance_simulation_time ey sec)"
proof -
  show "preserves ex (record_launch_grant_nonce rec)" "preserves ex (consume_launch_grant_nonce ey n a)"
    unfolding record_launch_grant_nonce_def consume_launch_grant_nonce_def
    by (intro preserves_bind preserves_pure preserves_tick, rule preserves_keeps,
        simp add: keeps_def keyed_rows_def Let_def split: option.splits)+
qed (rule preserves_keeps, simp add: keeps_def keyed_rows_def reserve_transport_nonce_def consume_transport_nonce_def
  issue_coding_nonce_def advance_simulation_time_def split: option.splits)+

lemma preserves_admit: "preserves ex (admit_run_coding ey q b)"
proof (rule preserves_keeps)
  have "keeps keyed_rows (st_modify (issue_on_first_insert n d b))" for n d
    by (intro keeps_intros) (simp add: issue_on_first_insert_def keyed_rows_def)
  then show "keeps keyed_rows (admit_run_coding ey q b)"
    unfolding admit_run_coding_def Let_def
    by (simp add: keeps_pure, intro impI keeps_bind keeps_pure)
      (simp_all add: keeps_def keyed_rows_def split: sum.splits option.splits)
qed

lemma preserves_effects:
  "preserves ex (record_effect_intent ey i)" "preserves ex (transition_effect ey eid to)"
  "preserves ex (record_effect_receipt ey r)"
proof -
  have "keyed_rows (snd (record_effect_intent ey i s)) = keyed_rows s" for s
    unfolding record_effect_intent_def st_bind_def
    by (auto simp: tick_def result_simps keyed_rows_def push_event_def Let_def split: option.splits sum.splits prod.splits if_splits)
  then show "preserves ex (record_effect_intent ey i)" by (intro preserves_keeps) (simp add: keeps_def)
  show "preserves ex (transition_effect ey eid to)"
    unfolding transition_effect_def Let_def
    by (intro preserves_bind preserves_pure preserves_tick preserves_push preserves_same) (simp add: keyed_rows_def)
  show "preserves ex (record_effect_receipt ey r)"
    unfolding record_effect_receipt_def
    by (intro preserves_bind preserves_tick, rule preserves_keeps)
      (simp add: keeps_def keyed_rows_def push_event_def Let_def split: option.splits)
qed

lemma preserves_contexts: "preserves ex (insert_initial_contexts ey g now)"
proof -
  have "keyed_rows (snd (insert_capsules cs s)) = keyed_rows s" for cs s
    by (induction cs arbitrary: s) (simp_all add: Let_def keyed_rows_def)
  then show ?thesis
    unfolding insert_initial_contexts_def
    by (intro preserves_bind preserves_pure, intro preserves_keeps) (simp add: keeps_def)
qed

lemma preserves_open: "preserves ex (open_fences_ticked vs)" "preserves ex (open_ready_ticked now ps)"
proof -
  show "preserves ex (open_fences_ticked vs)"
    by (induction vs) (auto intro!: preserves_bind preserves_pure preserves_tick preserves_same simp: keyed_rows_def)
  show "preserves ex (open_ready_ticked now ps)"
    by (induction ps) (auto intro!: preserves_bind preserves_pure preserves_tick preserves_same simp: keyed_rows_def)
qed

text \<open>Operations that write them.\<close>

lemma preserves_record_command: "preserves ex (record_command ex q)"
  unfolding record_command_def
proof (intro preserves_bind preserves_pure preserves_tick)
  have "command_row_ok ex (cq_idempotency_key q) (pending_record ex q)" if "record_validate ex (pending_record ex q) = Inr ()"
    using validated_row [OF that] by (simp add: pending_record_def)
  then show "preserves ex (\<lambda>s. case bt_get (ml_commands s) (cq_idempotency_key q) of
         None \<Rightarrow>
           (case from_domain (record_validate ex (pending_record ex q)) of
              Inl e \<Rightarrow> (Err e, s)
            | Inr x \<Rightarrow> (Ok (pending_record ex q),
                s\<lparr>ml_commands := bt_insert (cq_idempotency_key q) (pending_record ex q) (ml_commands s)\<rparr>))
       | Some existing \<Rightarrow>
           (case from_domain (command_matches ex q existing) of
              Inl e \<Rightarrow> (Err e, s)
            | Inr x \<Rightarrow> (Ok existing, s)))"
    unfolding preserves_def by (auto split: option.splits sum.splits elim!: rows_ok_command)
qed

lemma preserves_outbox_enqueue: "preserves ex (outbox_enqueue ex c k p)"
  unfolding outbox_enqueue_def
  by (intro preserves_bind preserves_pure preserves_tick)
    (auto simp: preserves_def Let_def elim!: rows_ok_outbox)

lemma preserves_submit: "preserves ex (submit_command ex q)"
proof -
  have "preserves ex (if b then st_get g else st_bind (outbox_enqueue ex c k p) (\<lambda>_.
      st_bind tick (\<lambda>_. st_modify (push_event ex kd bd st cr h))))" for b g c k p kd bd st cr h
    by (simp add: preserves_bind preserves_pure preserves_tick preserves_outbox_enqueue preserves_push)
  then show ?thesis
    unfolding submit_command_def submit_body_def
    by (intro preserves_transaction preserves_bind preserves_pure preserves_record_command preserves_admit)
qed

lemma preserves_settle: "preserves ex (settle_command msg k p r)"
proof -
  have "rows_ok ex (s\<lparr>ml_commands := bt_insert k (c\<lparr>cr_phase := p, cr_response := r'\<rparr>) (ml_commands s)\<rparr>)"
    if "rows_ok ex s" "bt_get (ml_commands s) k = Some c" for s c r'
  proof -
    have "command_row_ok ex k c" using that by (simp add: rows_ok_def)
    then show ?thesis by (intro rows_ok_command [OF that(1), of k "c\<lparr>cr_phase := p, cr_response := r'\<rparr>"]) simp_all
  qed
  then show ?thesis by (auto simp: preserves_def settle_command_def split: option.splits)
qed

lemma preserves_set_command_phase: "preserves ex (set_command_phase ex k p r)"
  unfolding preserves_def
proof (intro allI impI)
  fix s assume s: "rows_ok ex s"
  show "rows_ok ex (snd (set_command_phase ex k p r s))"
  proof (cases "bt_get (ml_commands s) k")
    case None
    with s show ?thesis by (simp add: set_command_phase_def st_bind_def st_get_def)
  next
    case (Some c)
    let ?c = "c\<lparr>cr_phase := p, cr_response := (case r of Some x \<Rightarrow> Some x | None \<Rightarrow> cr_response c)\<rparr>"
    have row: "command_row_ok ex k ?c" using s Some by (simp add: rows_ok_def)
    have "preserves ex (st_bind (st_lift (from_domain (record_validate ex ?c))) (\<lambda>_.
       st_bind tick (\<lambda>_. st_modify (\<lambda>s. s\<lparr>ml_commands := bt_insert k ?c (ml_commands s)\<rparr>))))"
    proof (intro preserves_bind preserves_pure preserves_tick preserves_modify)
      show "rows_ok ex (u\<lparr>ml_commands := bt_insert k ?c (ml_commands u)\<rparr>)" if "rows_ok ex u" for u
        by (rule rows_ok_command [OF that row]) simp_all
    qed
    with s Some show ?thesis by (simp add: set_command_phase_def st_bind_def [of "st_get x" for x] st_get_def Let_def preserves_def)
  qed
qed

lemma reconcile_plan_row:
  assumes "reconcile_check ex cid s = Inr plan" and "rows_ok ex s"
  shows "command_row_ok ex (cr_idempotency_key (rp_record plan)) (rp_expected plan)"
proof -
  from assms(1) obtain r res expected where
    r: "get_command_by_id ex cid s = Inr (Some r)" "resolved_record ex res r = Inr expected"
      "rp_record plan = r" "rp_expected plan = expected"
    by (auto simp: reconcile_check_def res_bind_Ok_iff split: if_splits option.splits)
  from r(2) have "expected = r\<lparr>cr_phase := or_phase res, cr_response := Some (or_response res)\<rparr>"
    "record_validate ex expected = Inr ()"
    by (auto simp: resolved_record_def Let_def res_bind_Ok_iff)
  with validated_row [of ex expected] r(3,4) show ?thesis by simp
qed

lemma preserves_reconcile: "preserves ex (reconcile_offline_command ex cid now)"
  unfolding reconcile_offline_command_def
proof (rule preserves_transaction)
  have wr: "rows_ok ex (snd (reconcile_write ex cid now plan s))"
    if "command_row_ok ex (cr_idempotency_key (rp_record plan)) (rp_expected plan)" "rows_ok ex s" for plan s
  proof -
    have "preserves ex (reconcile_write ex cid now plan)"
      unfolding reconcile_write_def Let_def
    proof (intro preserves_bind preserves_tick preserves_push preserves_pure preserves_modify)
      show "rows_ok ex (u\<lparr>ml_commands := bt_insert (cr_idempotency_key (rp_record plan)) (rp_expected plan) (ml_commands u)\<rparr>)"
        if "rows_ok ex u" for u
        using rows_ok_command [OF that \<open>command_row_ok ex (cr_idempotency_key (rp_record plan)) (rp_expected plan)\<close>] by simp
      show "rows_ok ex (u\<lparr>ml_outbox := map (\<lambda>i. if ob_command_id i = Some cid
          then i\<lparr>ob_phase := or_phase (rp_resolution plan), ob_acked_at := Some now\<rparr> else i) (ml_outbox u)\<rparr>)"
        if "rows_ok ex u" for u
        using rows_ok_renumbered [OF that] by simp
    qed
    with that(2) show ?thesis by (simp add: preserves_def)
  qed
  show "preserves ex (reconcile_body ex cid now)"
    unfolding preserves_def reconcile_body_def
  proof (intro allI impI)
    fix s assume s: "rows_ok ex s"
    show "rows_ok ex (snd (st_bind (st_get (reconcile_check ex cid)) (\<lambda>plan s.
       let r = rp_record plan; row = rp_row plan; res = rp_resolution plan; recon = reconciled_events cid s in
       if cr_phase r \<noteq> CpPending then
         (if r \<noteq> rp_expected plan \<or> ob_phase row \<noteq> or_phase res \<or> ob_delivered_at row \<noteq> None
             \<or> ob_acked_at row = None \<or> length recon \<noteq> 1 \<or> le_body (recon ! 0) \<noteq> or_response res then
            (Err (LeStore ''command has conflicting reconciled truth''), s)
          else (Ok r, s))
       else if ob_phase row \<noteq> CpPending \<or> ob_delivered_at row \<noteq> None \<or> ob_acked_at row \<noteq> None \<or> recon \<noteq> [] then
         (Err (LeStore ''pending command has conflicting worker truth''), s)
       else reconcile_write ex cid now plan s) s))"
      using s wr [OF reconcile_plan_row [OF _ s] s]
      by (cases "reconcile_check ex cid s") (simp_all add: st_bind_def st_get_def Let_def)
  qed
qed

lemma preserves_put_graph: "preserves ex (put_graph g)"
  unfolding put_graph_def
  by (intro preserves_bind preserves_tick) (auto simp: preserves_def Let_def elim!: rows_ok_graph)

lemma preserves_requeue: "preserves ex (requeue_package p now)"
  unfolding preserves_def
proof (intro allI impI)
  fix s assume s: "rows_ok ex s"
  show "rows_ok ex (snd (requeue_package p now s))"
  proof (cases "List.find (\<lambda>(k, g). position (\<lambda>q. wp_id q = p) (sg_packages g) \<noteq> None) (bt_entries (ml_graphs s))")
    case None
    with s show ?thesis by (simp add: requeue_package_def)
  next
    case (Some kg)
    obtain k g where kg: "kg = (k, g)" by fastforce
    with Some have "(k, g) \<in> set (bt_entries (ml_graphs s))" by (auto simp: find_Some_iff in_set_conv_nth)
    with s have "mi_id (sg_mission g) = k" by (simp add: bt_entry_iff rows_ok_def)
    then have "rows_ok ex (s\<lparr>ml_graphs := bt_insert k (g\<lparr>sg_packages := ps\<rparr>) (ml_graphs s), ml_ready := rd\<rparr>)" for ps rd
      by (intro rows_ok_graph [OF s, of "g\<lparr>sg_packages := ps\<rparr>" k]) simp_all
    with s Some kg show ?thesis by (simp add: requeue_package_def Let_def split: sum.splits)
  qed
qed

lemma next_outbox_seq_Ok: "next_outbox_seq s = Inr seq \<Longrightarrow> seq = of_nat (length (ml_outbox s)) + 1"
  by (auto simp: next_outbox_seq_def checked_add_def split: if_splits)

lemma preserves_outbox_mark: "preserves ex (outbox_mark seq p now)"
proof -
  have "map ob_seq ys = map ob_seq xs" if "update_first P (mark_item p now) xs = Some ys" for P xs ys
    using that
  proof (induction xs arbitrary: ys)
    case (Cons x xs)
    then show ?case by (auto simp: mark_item_def Let_def split: if_splits command_phase.splits)
  qed simp
  then show ?thesis
    unfolding outbox_mark_def
    by (intro preserves_bind preserves_tick)
      (auto simp: preserves_def split: option.splits elim!: rows_ok_renumbered)
qed

lemma preserves_reclaim: "preserves ex (reclaim ex l now)"
  unfolding preserves_def
proof (intro allI impI)
  fix s assume s: "rows_ok ex s"
  show "rows_ok ex (snd (reclaim ex l now s))"
  proof (cases "reclaim_check ex l s")
    case (Inl e)
    with s show ?thesis by (simp add: reclaim_def st_bind_def st_get_def)
  next
    case (Inr c)
    obtain st x payload seq where c: "c = (st, x, payload, seq)" by (cases c)
    with Inr have seq: "seq = of_nat (length (ml_outbox s)) + 1"
      by (auto simp: reclaim_check_def res_bind_Ok_iff Let_def split: if_splits dest!: next_outbox_seq_Ok)
    let ?u = "set_attempt_state (al_attempt_id l) st s"
    let ?v = "?u\<lparr>ml_leases := bt_remove (al_variant_id l) (ml_leases ?u)\<rparr>"
    have v: "keyed_rows ?v = keyed_rows s" by (simp add: keyed_rows_def set_attempt_state_def split: option.splits)
    obtain r w where w: "requeue_package (xl_work_package_id x) now ?v = (r, w)" by fastforce
    have "rows_ok ex w" using preserves_requeue rows_ok_same [OF v s] w unfolding preserves_def by (metis snd_conv)
    moreover have "ml_outbox w = ml_outbox s"
    proof -
      have "keeps ml_outbox (requeue_package (xl_work_package_id x) now)"
        by (simp add: keeps_def requeue_package_def Let_def split: option.splits sum.splits)
      from keepsD [OF this w] v show ?thesis by (simp add: keyed_rows_def)
    qed
    ultimately have fin: "rows_ok ex (push_event ex k b sid cr h w\<lparr>ml_outbox := ml_outbox (push_event ex k b sid cr h w) @
        [\<lparr>ob_seq = seq, ob_command_id = cm, ob_kind = kd, ob_payload = pl, ob_phase = ph, ob_delivered_at = d, ob_acked_at = ac\<rparr>]\<rparr>)"
      for k b sid cr h cm kd pl ph d ac
      by (intro rows_ok_outbox [OF \<open>rows_ok ex w\<close>, where i = "\<lparr>ob_seq = seq, ob_command_id = cm, ob_kind = kd,
          ob_payload = pl, ob_phase = ph, ob_delivered_at = d, ob_acked_at = ac\<rparr>"])
        (simp_all add: push_event_def Let_def seq)
    show ?thesis
    proof (cases r)
      case (Inl e)
      with Inr c w \<open>rows_ok ex w\<close> show ?thesis
        by (simp add: reclaim_def reclaim_write_def st_bind_def st_get_def st_modify_def)
    next
      case (Inr u)
      with \<open>reclaim_check ex l s = Inr c\<close> c w show ?thesis
        by (simp add: reclaim_def reclaim_write_def st_bind_def st_get_def st_modify_def st_ok_def fin)
    qed
  qed
qed

lemma preserves_expire: "preserves ex (expire_leases ex)"
proof -
  have "preserves ex (reclaim_all ex now ls)" for now ls
    by (induction ls) (simp_all add: preserves_bind preserves_pure preserves_reclaim)
  then show ?thesis
    unfolding expire_leases_def by (intro preserves_bind preserves_tick) (simp add: preserves_def Let_def)
qed

lemma preserves_reclaim_variant: "preserves ex (reclaim_expired_variant ex x now)"
proof -
  have "preserves ex (st_bind (reclaim ex l now) (\<lambda>x. st_ok (Some x)))" for l
    by (intro preserves_bind preserves_pure preserves_reclaim)
  then show ?thesis by (simp add: preserves_def reclaim_expired_variant_def split: option.splits)
qed

lemma acquire_outbox_seq:
  "acquire_prepare ex req q now e ttl s = Inr rows \<Longrightarrow> ob_seq (aq_outbox_item rows) = of_nat (length (ml_outbox s)) + 1"
  by (auto simp: acquire_prepare_def acquire_rows_for_def res_bind_Ok_iff Let_def
      split: if_splits option.splits dest!: next_outbox_seq_Ok)

lemma preserves_acquire: "preserves ex (acquire_lease ex req)"
  unfolding preserves_def
proof (intro allI impI)
  fix s assume s: "rows_ok ex s"
  obtain r t where run: "acquire_lease ex req s = (r, t)" by fastforce
  have same: "rows_ok ex u" if "same_rows s u" for u
    by (rule rows_ok_same [OF _ s]) (use that in \<open>auto simp: same_rows_iff keyed_rows_def\<close>)
  have pres: "rows_ok ex w" if "reclaim_expired_variant ex x now u = (y, w)" "rows_ok ex u" for x now u y w
    using preserves_reclaim_variant that unfolding preserves_def by (metis snd_conv)
  from run have "rows_ok ex t"
  proof (cases rule: acquire_lease_cases)
    case unchanged
    then show ?thesis by (rule same)
  next
    case (reclaimed u now r')
    then show ?thesis using pres same by blast
  next
    case (granted u now x w q e ttl rows)
    have w: "rows_ok ex w" using pres [OF granted(2)] same granted(1) by blast
    from granted(9) have key: "cq_idempotency_key q = lq_idempotency_key req"
      by (auto simp: command_from_json_def Let_def res_bind_Ok_iff)
    from granted(3) have "command_row_ok ex (lq_idempotency_key req) (aq_command rows)"
    proof (rule acquire_prepareE)
      assume "aq_command rows = lease_command ex q (aq_grant_json rows)" "record_validate ex (aq_command rows) = Inr ()"
      with validated_row [of ex "aq_command rows"] key show ?thesis by (simp add: lease_command_def)
    qed
    with w acquire_outbox_seq [OF granted(3)] granted(4) show ?thesis
      by (simp add: rows_ok_def acquire_commit_def Let_def push_event_def)
  qed
  with run show "rows_ok ex (snd (acquire_lease ex req s))" by simp
qed

lemma preserves_release: "preserves ex (release_lease ex req)"
proof -
  have st: "keyed_rows (set_attempt_state k st s) = keyed_rows s" for k st s
    by (simp add: keyed_rows_def set_attempt_state_def split: option.splits)
  have rq: "preserves ex (if b then requeue_package p now else st_ok ())" for b p now
    by (simp add: preserves_requeue preserves_pure)
  have body: "preserves ex (st_bind (st_get (\<lambda>s. ok_or (bt_get (ml_attempts s) (rq_attempt_id req))
                (LeStore ''lease without attempt''))) (\<lambda>a.
             st_bind (st_lift (from_domain (attempt_transition (at_state a) (rq_final_state req)))) (\<lambda>next_state.
             st_bind (st_modify (set_attempt_state (rq_attempt_id req) next_state)) (\<lambda>_.
             st_bind (st_modify (\<lambda>s. s\<lparr>ml_leases := bt_remove (rq_variant_id req) (ml_leases s)\<rparr>)) (\<lambda>_.
             st_bind (if rq_requeue req then requeue_package (at_work_package_id a) now else st_ok ()) (\<lambda>_.
               st_modify (push_event ex ''lease_released'' (rq_attempt_id req) (Some (rq_variant_id req))
                 None None)))))))" for now
    by (intro preserves_bind preserves_pure preserves_push rq preserves_same st) (simp add: keyed_rows_def)
  show ?thesis
    unfolding release_lease_def
    by (intro preserves_bind preserves_tick)
      (use body in \<open>simp add: preserves_def st_err_def Let_def split: option.splits\<close>)
qed

lemma preserves_materialize_graph: "preserves ex (materialize_graph ex g now)"
  unfolding materialize_graph_def
proof (intro preserves_bind preserves_tick)
  have "rows_ok ex (push_event ex k b st c h (s\<lparr>ml_graphs := bt_insert (mi_id (sg_mission g)) g (ml_graphs s),
      ml_context_capsules := cx, ml_fences := fs, ml_ready := rd\<rparr>))" if "rows_ok ex s" for s k b st c h cx fs rd
    by (rule rows_ok_graph [OF that, of g]) (simp_all add: push_event_def Let_def)
  then show "preserves ex (\<lambda>s.
       let key = mi_id (sg_mission g) in
       if bt_contains (ml_graphs s) key then
         (Err (LeDomain (Conflict (''graph '' @ key @ '' already materialized''))), s)
       else
         (case initial_context_capsules ex g now of
            Inl e \<Rightarrow> (Err e, s)
          | Inr capsules \<Rightarrow>
              if list_ex (\<lambda>c. bt_contains (ml_context_capsules s) (cx_work_package_id c)) capsules then
                (Err (LeStore ''context capsule already exists for work package''), s)
              else
                (Ok (), push_event ex ''graph_materialized'' key (Some key) None None
                  (s\<lparr>ml_graphs := bt_insert key g (ml_graphs s),
                     ml_context_capsules :=
                       fold (\<lambda>c. bt_insert (cx_work_package_id c) c) capsules (ml_context_capsules s),
                     ml_fences := open_fences (sg_variants g) (ml_fences s),
                     ml_ready := open_ready now (sg_packages g) (ml_ready s)\<rparr>))))"
    by (simp add: preserves_def Let_def split: sum.splits)
qed

lemma preserves_materialize_write: "preserves ex (materialize_write ex q g now r)"
  unfolding materialize_write_def Let_def
proof (intro preserves_bind preserves_tick preserves_contexts preserves_open preserves_push preserves_settle preserves_modify)
  show "rows_ok ex (s\<lparr>ml_graphs := bt_insert (mi_id (sg_mission g)) g (ml_graphs s)\<rparr>)" if "rows_ok ex s" for s
    by (rule rows_ok_graph [OF that, of g]) simp_all
qed

lemma preserves_materialize_plan: "preserves ex (materialize_plan_command ex q g now)"
proof -
  have "preserves ex (materialize_body ex q g now)"
    unfolding materialize_body_def
  proof (intro preserves_bind preserves_record_command)
    have "preserves ex (st_bind (st_get h) (\<lambda>response. st_bind (materialize_write ex q g now response) (\<lambda>_. st_ok g)))" for h
      by (intro preserves_bind preserves_pure preserves_materialize_write)
    then show "preserves ex (if cr_phase r \<in> {CpApplied, CpVerified} then st_get (materialize_replay ex g r)
       else if cr_phase r \<in> {CpFailed, CpUnknown} then
         st_err (LeStore (''materialization command is '' @ command_phase_as_str (cr_phase r)))
       else if cr_response r \<noteq> None then
         st_err (LeStore ''pending materialization command has a stored result'')
       else
         st_bind (st_get (\<lambda>s.
           if bt_contains (ml_graphs s) (mi_id (sg_mission g)) then
             Err (LeDomain (Conflict (''graph '' @ mi_id (sg_mission g) @ '' already materialized'')))
           else materialized_applied ex g)) (\<lambda>response.
         st_bind (materialize_write ex q g now response) (\<lambda>_. st_ok g)))" for r
      by (simp add: preserves_pure)
  qed
  then show ?thesis
    unfolding materialize_plan_command_def by (intro preserves_bind preserves_transaction preserves_tick preserves_pure)
qed

text \<open>A delta keeps the mission and the plan, the identities and the order of packages and variants.\<close>

definition same_shape :: "stored_graph \<Rightarrow> stored_graph \<Rightarrow> bool" where
  "same_shape g h \<longleftrightarrow> sg_mission h = sg_mission g \<and> sg_plan h = sg_plan g \<and>
     map (wp_state_update (\<lambda>_. WpPending)) (sg_packages h) = map (wp_state_update (\<lambda>_. WpPending)) (sg_packages g) \<and>
     map (va_fence_counter_update (\<lambda>_. 0)) (sg_variants h) = map (va_fence_counter_update (\<lambda>_. 0)) (sg_variants g)"

lemma same_shape_refl [simp]: "same_shape g g"
  by (simp add: same_shape_def)

lemma same_shape_trans: "same_shape g h \<Longrightarrow> same_shape h k \<Longrightarrow> same_shape g k"
  by (simp add: same_shape_def)

lemma position_less: "position P xs = Some i \<Longrightarrow> i < length xs"
  using position_Some by fastforce

lemma map_update_same: "i < length xs \<Longrightarrow> f y = f (xs ! i) \<Longrightarrow> map f (xs[i := y]) = map f xs"
  by (metis list_update_id map_update)

lemma apply_op_shape: "apply_op g gop = Inr h \<Longrightarrow> same_shape g h"
  by (auto simp: apply_op_def res_bind_Ok_iff Let_def same_shape_def map_update_same
      split: graph_op.splits if_splits dest!: position_less)

lemma apply_ops_shape: "apply_ops g gops = Inr h \<Longrightarrow> same_shape g h"
proof (induction gops arbitrary: g)
  case (Cons gop gops)
  from Cons.prems obtain k where "apply_op g gop = Inr k" "apply_ops k gops = Inr h" by (auto simp: res_bind_Ok_iff)
  then show ?case using Cons.IH apply_op_shape same_shape_trans by blast
qed simp

lemma evaluate_shape: "evaluate_graph_delta ex g d = Inr h \<Longrightarrow> same_shape g h"
  using apply_ops_shape by (auto simp: evaluate_graph_delta_def split: if_splits)

lemma preserves_graph_delta: "preserves ex (apply_graph_delta_command ex q m d)"
proof -
  have fresh: "preserves ex (delta_fresh ex q m d)"
    unfolding preserves_def
  proof (intro allI impI)
    fix s assume s: "rows_ok ex s"
    show "rows_ok ex (snd (delta_fresh ex q m d s))"
    proof (cases "res_bind (ok_or (get_graph s m) (LeStore ''graph missing'')) (\<lambda>g. evaluate_graph_delta ex g d)")
      case (Inl e)
      have "preserves ex (st_bind (st_lift (delta_result_failed ex e)) (\<lambda>response.
          st_bind tick (\<lambda>_.
          st_bind (settle_command ''delta command missing'' (cq_idempotency_key q) CpFailed response) (\<lambda>_.
          st_bind tick (\<lambda>_. st_ok (Err e :: ledger_error + stored_graph))))))"
        by (intro preserves_bind preserves_pure preserves_tick preserves_settle)
      with s Inl show ?thesis unfolding delta_fresh_def preserves_def by simp
    next
      case (Inr h)
      then obtain g where "bt_get (ml_graphs s) m = Some g" "evaluate_graph_delta ex g d = Inr h"
        by (auto simp: res_bind_Ok_iff get_graph_def)
      then have h: "mi_id (sg_mission h) = m"
        using s evaluate_shape by (fastforce simp: rows_ok_def same_shape_def)
      have "preserves ex (st_bind (st_lift (delta_result_applied ex h)) (\<lambda>response.
          st_bind (st_lift (from_domain (delta_digest ex d))) (\<lambda>dig.
          st_bind tick (\<lambda>_.
          st_bind (st_modify (\<lambda>s. s\<lparr>ml_graphs := bt_insert m h (ml_graphs s)\<rparr>)) (\<lambda>_.
          st_bind tick (\<lambda>_.
          st_bind (st_modify (push_event ex ''graph_delta'' (to_hex ex dig) None None None)) (\<lambda>_.
          st_bind tick (\<lambda>_.
          st_bind (settle_command ''delta command missing'' (cq_idempotency_key q) CpApplied response) (\<lambda>_.
          st_bind tick (\<lambda>_. st_ok (Ok h :: ledger_error + stored_graph)))))))))))"
      proof (intro preserves_bind preserves_pure preserves_tick preserves_settle preserves_push preserves_modify)
        show "rows_ok ex (u\<lparr>ml_graphs := bt_insert m h (ml_graphs u)\<rparr>)" if "rows_ok ex u" for u
          by (rule rows_ok_graph [OF that h]) simp_all
      qed
      with s Inr show ?thesis unfolding delta_fresh_def preserves_def by simp
    qed
  qed
  have "preserves ex (delta_body ex q m d)"
    unfolding delta_body_def
  proof (intro preserves_bind preserves_record_command)
    show "preserves ex (if cr_phase r \<in> {CpApplied, CpVerified, CpFailed} then st_lift (delta_replay ex m r)
        else delta_fresh ex q m d)" for r
      by (simp add: fresh preserves_pure)
  qed
  then show ?thesis
    unfolding apply_graph_delta_command_def by (intro preserves_bind preserves_transaction preserves_tick preserves_pure)
qed

section \<open>The clock\<close>

lemma clock_requeue: "keeps ml_simulation_clock_millis (requeue_package p now)"
  by (simp add: keeps_def requeue_package_def Let_def split: option.splits sum.splits)

lemma clock_reclaim: "keeps ml_simulation_clock_millis (reclaim ex l now)"
  unfolding reclaim_def reclaim_write_def
  by (intro keeps_intros, simp split: prod.splits, intro allI impI keeps_intros clock_requeue)
    (simp_all add: set_attempt_state_def push_event_def Let_def split: option.splits)

lemma clock_reclaim_variant: "keeps ml_simulation_clock_millis (reclaim_expired_variant ex x now)"
proof -
  have "keeps ml_simulation_clock_millis (st_bind (reclaim ex l now) (\<lambda>x. st_ok (Some x)))" for l
    by (intro keeps_intros clock_reclaim)
  then show ?thesis by (simp add: keeps_def reclaim_expired_variant_def split: option.splits)
qed

section \<open>Runs\<close>

lemmas preserves_ops =
  preserves_record_command preserves_submit preserves_reconcile preserves_set_command_phase preserves_materialize_plan
  preserves_materialize_graph preserves_put_graph preserves_graph_delta preserves_acquire preserves_heartbeat
  preserves_expire preserves_release preserves_quiet_rows preserves_outbox_enqueue preserves_outbox_mark
  preserves_effects preserves_nonces

lemma preserves_step: "preserves ex m \<Longrightarrow> rows_ok ex s \<Longrightarrow> rows_ok ex (snd (m s))"
  by (simp add: preserves_def)

lemma step_rows_ok:
  fixes ex :: "'x graph_ext_scheme"
  assumes "rows_ok ex s"
  shows "rows_ok ex (ledger_step ex act s)"
proof (cases act)
  case (ActSetFailpoint n)
  with assms show ?thesis by (simp add: rows_ok_def set_failpoint_def)
qed (simp only: ledger_step.simps, rule preserves_step [OF _ assms], rule preserves_ops)+

interpretation row_system: invariant_system "ledger_step ex" "rows_ok ex" for ex :: "'x graph_ext_scheme"
  by unfold_locales (rule step_rows_ok)

lemma run_rows_ok: "rows_ok ex (ledger_run ex acts)"
  unfolding ledger_run_def by (rule row_system.run_inv) (simp add: rows_ok_def memory_new_def)

end
