(* ===== verification/Plain_Environment.thy ===== *)
theory Plain_Environment
  imports Ledger_Runs Ledger_History Ledger_Rows "HOL-Library.Code_Target_Nat"
begin

text \<open>
  A concrete environment for the crates outside the repository, and a short run of the ledger in it.
  The witnesses of the ledger's guarantees evaluate the model there.
\<close>

definition plain_ext :: graph_ext where
  "plain_ext = \<lparr>x_blake3 = (\<lambda>b. b), x_hex_encode = (\<lambda>b. b), x_hex_decode = Inr,
     x_json_members = (\<lambda>_. Inr {}), x_dec_run_coding = (\<lambda>_. Inl ''none''), x_dec_coding_task = (\<lambda>_. Inl ''none''),
     x_dec_conversation = (\<lambda>_. Inl ''none''), x_enc_task = (\<lambda>_. Inr ''{}''), x_enc_conversation = (\<lambda>_. Inr ''{}''),
     x_enc_offline = (\<lambda>_ _ _ _ _. Inr ''{}''),
     x_enc_lease_payload = (\<lambda>p. Inr (lp_attempt_seed p)), x_enc_grant = (\<lambda>g. Inr (at_id (lg_attempt g))),
     x_dec_grant = (\<lambda>_. Inl ''none''), x_enc_expired = (\<lambda>_. Inr ''{}''),
     x_enc_context = (\<lambda>c. Inr (ic_work_package_id c)), x_enc_request = (\<lambda>q. Inr (cq_payload q)),
     x_enc_effect = (\<lambda>e. Inr (fi_provider e @ fi_logical_effect_key e)), x_millis_ok = (\<lambda>m. 0 \<le> m),
     x_rfc3339 = (\<lambda>m. [char_of (nat (m div 1000))]),
     x_parse_rfc3339 = (\<lambda>t. case t of [c] \<Rightarrow> Some (1000 * int (of_char c)) | _ \<Rightarrow> None),
     x_enc_delta_result = (\<lambda>_. Inr ''{}''), x_dec_delta_result = (\<lambda>_. Inl ''none''), x_enc_delta = (\<lambda>_. Inr ''{}''),
     x_enc_materialized = (\<lambda>_. Inr ''{}''), x_dec_materialized = (\<lambda>_. Inl ''none''), x_enc_graph = (\<lambda>_. Inr ''{}''),
     x_enc_plan = (\<lambda>_. Inr ''{}'')\<rparr>"

definition plain_graph :: stored_graph where
  "plain_graph = build_graph plain_ext ''s''
     \<lparr>pi_title = ''t'', pi_objective = ''o'', pi_packages = [(''p'', CodeReview)]\<rparr> []"

definition plain_request :: "string \<Rightarrow> string \<Rightarrow> lease_request" where
  "plain_request key seed = \<lparr>lq_idempotency_key = key, lq_mission_id = ''mis_mis:s'',
     lq_variant_id = ''var_var:s:wp:0'', lq_attempt_seed = seed, lq_runner_id = ''run'', lq_runner_epoch = 1,
     lq_workspace_id = ''w'', lq_workspace_nonce = ''n'', lq_scope_revision = 1, lq_context_revision = 1,
     lq_ttl_seconds = 10\<rparr>"

abbreviation plain_attempt :: "string \<Rightarrow> u64 \<Rightarrow> attempt" where
  "plain_attempt seed fence \<equiv> attempt_for plain_ext (plain_request ''k'' seed) ''wpk_wpk:s:wp:0'' fence"

text \<open>A graph, a lease on its variant, the lease left to expire, and a second lease.\<close>

definition plain_acts :: "ledger_action list" where
  "plain_acts = [ActMaterializeGraph plain_graph ''0'', ActAcquire (plain_request ''k'' ''a''),
     ActAdvanceClock 20, ActAcquire (plain_request ''j'' ''b'')]"

text \<open>A coding submission and an environment whose decoder returns its payload.\<close>

definition plain_payload :: run_coding_payload where
  "plain_payload = \<lparr>rc_account_id = ''a'', rc_provider = PvCodex, rc_model = ''m'', rc_effort = None, rc_expected_revision = 1,
     rc_launch_nonce = replicate 64 (CHR ''0''), rc_quota_reservation = ''rsv_'' @ replicate 64 (CHR ''0''),
     rc_quota_units = 7, rc_allocated_run = ''run_'' @ replicate 64 (CHR ''0'')\<rparr>"

definition coding_plain_ext :: graph_ext where
  "coding_plain_ext = plain_ext\<lparr>x_dec_run_coding := (\<lambda>_. Inr plain_payload)\<rparr>"

definition plain_command :: command_request where
  "plain_command = \<lparr>cq_idempotency_key = ''c'', cq_kind = ''run_coding'', cq_payload = ''{}''\<rparr>"

text \<open>A delta that moves the only package to \<open>Leased\<close>, with a codec for its result and for the missing graph.\<close>

definition plain_moved :: stored_graph where
  "plain_moved = plain_graph\<lparr>sg_packages := map (\<lambda>p. p\<lparr>wp_state := WpLeased\<rparr>) (sg_packages plain_graph)\<rparr>"

definition delta_plain_ext :: graph_ext where
  "delta_plain_ext = plain_ext\<lparr>x_enc_delta_result := (\<lambda>res.
       if res = DrApplied plain_moved then Inr ''applied''
       else if res = DrFailed (GfStore ''graph missing'') then Inr ''failed'' else Inl ''unsupported''),
     x_dec_delta_result := (\<lambda>json. Inr (if json = ''applied'' then DrApplied plain_moved
       else DrFailed (GfStore ''graph missing'')))\<rparr>"

definition plain_delta :: graph_delta where
  "plain_delta = \<lparr>gd_parent = graph_digest plain_ext plain_graph,
     gd_ops = [SetPackageState ''wpk_wpk:s:wp:0'' WpReady WpLeased]\<rparr>"

definition plain_delta_command :: command_request where
  "plain_delta_command = \<lparr>cq_idempotency_key = ''c'', cq_kind = ''apply_graph_delta'', cq_payload = ''{}''\<rparr>"

end
