(* ===== verification/Lease_Guarantees.thy ===== *)
theory Lease_Guarantees
  imports Lease_Fencing Plain_Environment
begin

text \<open>
  The guarantees of the writer leases over every run of the in-process ledger: exclusion, permanent
  fencing, refinement of the abstract protocol, and what an acquisition does.
\<close>

section \<open>Fencing\<close>

text \<open>C1: After any run of fewer than \<open>2^64\<close> actions, a subject that passes the active-lease check is the
  only one of its variant that does: it is the exact image of the stored Attempt that holds the lease, its
  fence is the variant's permanent fence, and every other Attempt of the variant has a smaller fence.\<close>

theorem writer_exclusion:
  assumes "length acts < 2 ^ 64" and "check_active_lease ex subj (ledger_run ex acts) = Inr ()"
  shows "bt_get (ml_fences (ledger_run ex acts)) (as_variant_id subj) = Some (as_fence subj) \<and>
    (\<exists>a. bt_get (ml_attempts (ledger_run ex acts)) (as_attempt_id subj) = Some a \<and>
       subj = lease_subject_from_attempt a) \<and>
    (\<forall>k b. bt_get (ml_attempts (ledger_run ex acts)) k = Some b \<longrightarrow> at_variant_id b = as_variant_id subj \<longrightarrow>
       k \<noteq> as_attempt_id subj \<longrightarrow> at_fence b < as_fence subj) \<and>
    (\<forall>other. as_variant_id other = as_variant_id subj \<longrightarrow>
       check_active_lease ex other (ledger_run ex acts) = Inr () \<longrightarrow> other = subj)"
proof -
  let ?s = "ledger_run ex acts"
  have inv: "lease_inv (length acts) (lease_view_of ?s)" by (rule run_lease_inv [OF assms(1)])
  have pass: "\<exists>l a. bt_get (ml_leases ?s) (as_variant_id x) = Some l \<and> bt_get (ml_attempts ?s) (al_attempt_id l) = Some a
      \<and> x = lease_subject_from_attempt a \<and> lease_agrees l a"
    if "check_active_lease ex x ?s = Inr ()" for x
    using that unfolding check_active_lease_def
    by (auto elim!: res_bind_OkE simp: check_active_lease_snapshot_iff lease_agrees_def)
  from pass [OF assms(2)] obtain l a where
    l: "bt_get (ml_leases ?s) (as_variant_id subj) = Some l" and a: "bt_get (ml_attempts ?s) (al_attempt_id l) = Some a"
    and subj: "subj = lease_subject_from_attempt a" "lease_agrees l a" by blast
  have same: "al_attempt_id l = as_attempt_id subj" "al_fence l = as_fence subj"
    using subj by (simp_all add: lease_subject_from_attempt_def lease_agrees_def)
  have "at_fence b < as_fence subj" if "bt_get (ml_attempts ?s) k = Some b" "at_variant_id b = as_variant_id subj"
    "k \<noteq> as_attempt_id subj" for k b
    using holder_is_newest [OF inv, of "as_variant_id subj" l k b] that l same by force
  moreover have "other = subj" if "as_variant_id other = as_variant_id subj" "check_active_lease ex other ?s = Inr ()" for other
    using pass [OF that(2)] that(1) l a subj(1) by auto
  moreover have "bt_get (ml_fences ?s) (as_variant_id subj) = Some (as_fence subj)"
    using lease_invD(2) [OF inv, of "as_variant_id subj" l] l same by simp
  ultimately show ?thesis using a subj(1) same(1) by auto
qed

lemma plain_second_lease:
  "check_active_lease plain_ext (lease_subject_from_attempt (plain_attempt ''b'' 2)) (ledger_run plain_ext plain_acts) = Inr ()"
  by code_simp

theorem writer_exclusion_witness:
  "check_active_lease plain_ext (lease_subject_from_attempt (plain_attempt ''b'' 2)) (ledger_run plain_ext plain_acts) = Inr ()
   \<and> bt_get (ml_fences (ledger_run plain_ext plain_acts)) ''var_var:s:wp:0'' = Some 2"
proof -
  have "length plain_acts < 2 ^ 64" by (simp add: plain_acts_def)
  from writer_exclusion [OF this plain_second_lease] plain_second_lease show ?thesis
    by (simp add: lease_subject_from_attempt_def attempt_for_def plain_request_def)
qed

text \<open>C3: A writer that has been outbid never writes again: once the permanent fence of an Attempt's variant
  is above the Attempt's own, no sequence of later actions, whatever they are (fewer than 2^64 in all), makes any
  subject naming that Attempt pass the active-lease check.\<close>

theorem fenced_out_forever:
  assumes "length acts + length later < 2 ^ 64"
    and "bt_get (ml_attempts (ledger_run ex acts)) (as_attempt_id subj) = Some a"
    and "bt_get (ml_fences (ledger_run ex acts)) (at_variant_id a) = Some f" and "at_fence a < f"
  shows "check_active_lease ex subj (ledger_run ex (acts @ later)) \<noteq> Inr ()"
  using assms by (rule outbid_never_passes)

theorem fenced_out_forever_witness:
  "check_active_lease plain_ext (lease_subject_from_attempt (plain_attempt ''a'' 1))
     (ledger_run plain_ext (plain_acts @ [ActExpire])) \<noteq> Inr ()"
proof -
  have a: "map_option (\<lambda>a. (at_variant_id a, at_fence a))
      (bt_get (ml_attempts (ledger_run plain_ext plain_acts)) ''atm_atm:a'') = Some (''var_var:s:wp:0'', 1)"
    by code_simp
  have f: "bt_get (ml_fences (ledger_run plain_ext plain_acts)) ''var_var:s:wp:0'' = Some 2" by code_simp
  from a obtain b where b: "bt_get (ml_attempts (ledger_run plain_ext plain_acts)) ''atm_atm:a'' = Some b"
    "at_variant_id b = ''var_var:s:wp:0''" "at_fence b = 1" by auto
  have aid: "as_attempt_id (lease_subject_from_attempt (plain_attempt ''a'' 1)) = ''atm_atm:a''" by code_simp
  have len: "length plain_acts + length [ActExpire] < 2 ^ 64" by (simp add: plain_acts_def)
  show ?thesis
    by (rule fenced_out_forever [OF len, where a = b and f = 2]) (simp_all add: aid b f)
qed

text \<open>C2: The in-process ledger refines the abstract fencing protocol: from the empty ledger every run of fewer
  than \<open>2^64\<close> actions, failed ones included, is a protocol run whose grants are at most its actions, and
  each further action adds at most one grant.\<close>

theorem ledger_refines_fencing:
  assumes "Suc (length acts) < 2 ^ 64"
  shows "(\<exists>k \<le> length acts. lease_run k view_empty (lease_view_of (ledger_run ex acts))) \<and>
     (\<exists>k \<le> 1. lease_run k (lease_view_of (ledger_run ex acts)) (lease_view_of (ledger_run ex (acts @ [act]))))"
  using run_refines [of acts ex] step_refines [OF run_lease_inv [of acts ex], of ex act] assms by simp

theorem ledger_refines_fencing_witness:
  "\<exists>k \<le> 4. lease_run k view_empty (lease_view_of (ledger_run plain_ext plain_acts))"
proof -
  have len: "length plain_acts = 4" by (simp add: plain_acts_def)
  show ?thesis using ledger_refines_fencing [of plain_acts plain_ext ActExpire] by (simp add: len)
qed

section \<open>Acquisition\<close>

lemma acquire_granted:
  assumes "acquire_lease ex req s = (Inr grant, t)" and "bt_get (ml_commands s) (lq_idempotency_key req) = None"
  obtains u now e x w q rows where "same_rows s u" "lease_window ex (lq_ttl_seconds req) u = Inr (now, e)"
    "request_validated_ttl req = Inr (lq_ttl_seconds req)"
    "reclaim_expired_variant ex (lq_variant_id req) now u = (Inr x, w)"
    "acquire_prepare ex req q now e (lq_ttl_seconds req) w = Inr rows" "t = acquire_commit ex req rows w"
    "grant = aq_grant rows"
    "\<exists>stable. lease_stable_payload ex req = Inr stable \<and>
       command_from_json ex (lq_idempotency_key req) ''acquire_lease'' stable = Inr q"
proof -
  from assms obtain stable q where q: "lease_stable_payload ex req = Inr stable"
    "command_from_json ex (lq_idempotency_key req) ''acquire_lease'' stable = Inr q" "acquire_fresh ex req q s = (Inr grant, t)"
    unfolding acquire_lease_def st_bind_Ok_iff by (auto simp: st_lift_def)
  from q(3) obtain u ttl now e x w rows where h: "tick s = (Inr (), u)" "request_validated_ttl req = Inr ttl"
    "lease_window ex ttl u = Inr (now, e)" "reclaim_expired_variant ex (lq_variant_id req) now u = (Inr x, w)"
    "acquire_prepare ex req q now e ttl w = Inr rows" "t = acquire_commit ex req rows w" "grant = aq_grant rows"
    unfolding acquire_fresh_def st_bind_Ok_iff
    by (auto simp: st_lift_def st_get_def st_modify_def st_ok_def st_bind_Ok_iff split: prod.splits)
  from h(2) have ttl: "ttl = lq_ttl_seconds req" by (auto simp: request_validated_ttl_def validate_lease_ttl_iff)
  with h q ttl tick_same [of s] show thesis by (intro that [of u now e x w q rows]) auto
qed

lemma reclaim_variant_fences: "keeps ml_fences (reclaim_expired_variant ex x now)"
proof -
  have rq: "keeps ml_fences (requeue_package p n)" for p n
    by (simp add: keeps_def requeue_package_def Let_def split: option.splits sum.splits)
  have "keeps ml_fences (reclaim ex l now)" for l
    unfolding reclaim_def reclaim_write_def
    by (intro keeps_intros, simp split: prod.splits, intro allI impI keeps_intros rq)
      (simp_all add: set_attempt_state_def push_event_def Let_def split: option.splits)
  then have "keeps ml_fences (st_bind (reclaim ex l now) (\<lambda>x. st_ok (Some x)))" for l
    by (intro keeps_intros)
  then show ?thesis by (simp add: keeps_def reclaim_expired_variant_def split: option.splits)
qed

lemma acquire_commit_rows:
  "ml_leases (acquire_commit ex req rows s) = bt_insert (lq_variant_id req) (lg_lease (aq_grant rows)) (ml_leases s)"
  "ml_attempts (acquire_commit ex req rows s) =
     bt_insert (at_id (lg_attempt (aq_grant rows))) (lg_attempt (aq_grant rows)) (ml_attempts s)"
  "ml_fences (acquire_commit ex req rows s) = bt_insert (lq_variant_id req) (at_fence (lg_attempt (aq_grant rows))) (ml_fences s)"
  "ml_ready (acquire_commit ex req rows s) = bt_remove (aq_package_id rows) (ml_ready s)"
  "ml_graphs (acquire_commit ex req rows s) = bt_insert (mi_id (sg_mission (aq_graph rows))) (aq_graph rows) (ml_graphs s)"
  "ml_commands (acquire_commit ex req rows s) = bt_insert (lq_idempotency_key req) (aq_command rows) (ml_commands s)"
  "ml_outbox (acquire_commit ex req rows s) = ml_outbox s @ [aq_outbox_item rows]"
  "ml_context_capsules (acquire_commit ex req rows s) = ml_context_capsules s"
  "ml_simulation_clock_millis (acquire_commit ex req rows s) = ml_simulation_clock_millis s"
  by (simp_all add: acquire_commit_def Let_def push_event_def)

lemma reclaim_variant_attempts:
  assumes "reclaim_expired_variant ex x now s = (r, t)" and "bt_get (ml_attempts t) k = None"
  shows "bt_get (ml_attempts s) k = None"
proof -
  have "bt_get (ml_attempts s) k = None" if "reclaim ex l now s = (r', t)" for l r'
    using reclaim_view [OF that]
  proof (elim disjE exE conjE)
    fix a
    assume "bt_get (ml_attempts s) (al_attempt_id l) = Some a"
      and "lease_view_of t = (lease_view_of s)\<lparr>lv_leases := (bt_get (ml_leases s))(al_variant_id l := None),
         lv_attempts := (bt_get (ml_attempts s))(al_attempt_id l \<mapsto> a\<lparr>at_state := AsCrashed\<rparr>)\<rparr>"
    with assms(2) show ?thesis by (auto simp: lease_view_of_def split: if_splits)
  qed (use assms(2) in simp)
  with assms show ?thesis
    by (auto simp: reclaim_expired_variant_def st_bind_def st_ok_def split: option.splits if_splits prod.splits sum.splits)
qed

text \<open>The stored graph of the mission after a grant: the package is Leased and the variant carries the fence.\<close>

lemma lease_graph_rows:
  assumes "position (\<lambda>v. va_id v = x) (sg_variants g) = Some vidx"
    and "position (\<lambda>p. wp_id p = va_work_package_id (sg_variants g ! vidx)) (sg_packages g) = Some pidx"
  shows "\<exists>p \<in> set (sg_packages (lease_graph g vidx pidx st f)). wp_id p = wp_id (sg_packages g ! pidx) \<and> wp_state p = st"
    and "\<exists>v \<in> set (sg_variants (lease_graph g vidx pidx st f)). va_id v = x \<and>
      va_work_package_id v = wp_id (sg_packages g ! pidx) \<and> va_fence_counter v = f"
proof -
  from position_Some [OF assms(1)] position_Some [OF assms(2)] have
    "vidx < length (sg_variants g)" "va_id (sg_variants g ! vidx) = x" "pidx < length (sg_packages g)"
    "wp_id (sg_packages g ! pidx) = va_work_package_id (sg_variants g ! vidx)" by auto
  then show "\<exists>p \<in> set (sg_packages (lease_graph g vidx pidx st f)). wp_id p = wp_id (sg_packages g ! pidx) \<and> wp_state p = st"
    and "\<exists>v \<in> set (sg_variants (lease_graph g vidx pidx st f)). va_id v = x \<and>
      va_work_package_id v = wp_id (sg_packages g ! pidx) \<and> va_fence_counter v = f"
    by (auto simp: lease_graph_def intro!: bexI [of _ "(sg_packages g ! pidx)\<lparr>wp_state := st\<rparr>"]
        bexI [of _ "(sg_variants g ! vidx)\<lparr>va_fence_counter := f\<rparr>"] set_update_memI)
qed

text \<open>C4: In any state of a run, a first acquisition that succeeds (its idempotency key was unused) writes the whole
  grant. The Attempt is new: no row had its id before. It is Starting and carries the variant's old fence plus one;
  the lease row agrees with it and the permanent fence is the new one. In the stored graph of the requested mission
  the variant's package is Leased and the variant carries the fence, and the package is no longer ready. The dispatch
  row and the Applied command carry the encoded grant.\<close>

theorem acquire_writes_grant:
  assumes "acquire_lease ex req s = (Inr grant, t)" and "s = ledger_run ex acts"
    and "bt_get (ml_commands s) (lq_idempotency_key req) = None"
  shows "let a = lg_attempt grant; v = lq_variant_id req in
    bt_get (ml_attempts s) (at_id a) = None \<and>
    at_fence a = (case bt_get (ml_fences s) v of Some f \<Rightarrow> f | None \<Rightarrow> 0) + 1 \<and> at_state a = AsStarting \<and>
    at_variant_id a = v \<and> lease_agrees (lg_lease grant) a \<and>
    bt_get (ml_leases t) v = Some (lg_lease grant) \<and> bt_get (ml_attempts t) (at_id a) = Some a \<and>
    bt_get (ml_fences t) v = Some (at_fence a) \<and> bt_get (ml_ready t) (at_work_package_id a) = None \<and>
    (\<exists>json c. x_enc_grant ex grant = Inr json \<and> bt_get (ml_commands t) (lq_idempotency_key req) = Some c \<and>
       cr_phase c = CpApplied \<and> cr_response c = Some json \<and> ob_payload (last (ml_outbox t)) = json \<and>
       ob_command_id (last (ml_outbox t)) = Some (cr_id c)) \<and>
    (\<exists>g. bt_get (ml_graphs t) (lq_mission_id req) = Some g \<and>
       (\<exists>p \<in> set (sg_packages g). wp_id p = at_work_package_id a \<and> wp_state p = WpLeased) \<and>
       (\<exists>x \<in> set (sg_variants g). va_id x = v \<and> va_work_package_id x = at_work_package_id a \<and> va_fence_counter x = at_fence a))"
  using assms(1,3)
proof (rule acquire_granted)
  fix u now e x w q rows
  assume u: "same_rows s u" and rv: "reclaim_expired_variant ex (lq_variant_id req) now u = (Inr x, w)"
    and prep: "acquire_prepare ex req q now e (lq_ttl_seconds req) w = Inr rows"
    and t: "t = acquire_commit ex req rows w" and grant: "grant = aq_grant rows"
  have fences: "ml_fences w = ml_fences s"
    using keepsD [OF reclaim_variant_fences rv] u by (auto simp: same_rows_iff)
  have "rows_ok ex u" using run_rows_ok [of ex acts] u by (auto simp: assms(2) same_rows_iff rows_ok_def)
  then have keyed: "rows_ok ex w" using preserves_step [OF preserves_reclaim_variant [of ex "lq_variant_id req" now]] rv by fastforce
  from prep show ?thesis
  proof (rule acquire_prepareE)
    fix g vidx pidx a
    assume g: "bt_get (ml_graphs w) (lq_mission_id req) = Some g"
      and pos: "position (\<lambda>v. va_id v = lq_variant_id req) (sg_variants g) = Some vidx"
        "position (\<lambda>p. wp_id p = va_work_package_id (sg_variants g ! vidx)) (sg_packages g) = Some pidx"
      and new: "bt_get (ml_attempts w) (at_id a) = None"
      and a: "a = attempt_for ex req (wp_id (sg_packages g ! pidx)) (next_fence w (lq_variant_id req))"
      and gr: "aq_grant rows = \<lparr>lg_attempt = a, lg_lease = lease_for req a (at_fence a) now e (lq_ttl_seconds req)\<rparr>"
      and graph: "aq_graph rows = lease_graph g vidx pidx WpLeased (at_fence a)"
      and pk: "aq_package_id rows = wp_id (sg_packages g ! pidx)"
      and json: "x_enc_grant ex (aq_grant rows) = Inr (aq_grant_json rows)"
      and cmd: "aq_command rows = lease_command ex q (aq_grant_json rows)"
      and ob: "ob_command_id (aq_outbox_item rows) = Some (command_id ex q)"
        "ob_payload (aq_outbox_item rows) = aq_grant_json rows"
    have fresh: "bt_get (ml_attempts s) (at_id a) = None"
      using reclaim_variant_attempts [OF rv new] u by (auto simp: same_rows_iff)
    have "mi_id (sg_mission (aq_graph rows)) = lq_mission_id req" using keyed g by (simp add: rows_ok_def graph lease_graph_def)
    then have "bt_get (ml_graphs t) (lq_mission_id req) = Some (aq_graph rows)" by (simp add: t acquire_commit_rows)
    moreover have "at_work_package_id a = wp_id (sg_packages g ! pidx)" by (simp add: a attempt_for_def)
    ultimately have leased: "\<exists>g. bt_get (ml_graphs t) (lq_mission_id req) = Some g \<and>
       (\<exists>p \<in> set (sg_packages g). wp_id p = at_work_package_id a \<and> wp_state p = WpLeased) \<and>
       (\<exists>x \<in> set (sg_variants g). va_id x = lq_variant_id req \<and> va_work_package_id x = at_work_package_id a \<and>
          va_fence_counter x = at_fence a)"
      using lease_graph_rows [OF pos, of WpLeased "at_fence a"] by (simp add: graph)
    have command: "\<exists>json c. x_enc_grant ex grant = Inr json \<and> bt_get (ml_commands t) (lq_idempotency_key req) = Some c \<and>
        cr_phase c = CpApplied \<and> cr_response c = Some json \<and> ob_payload (last (ml_outbox t)) = json \<and>
        ob_command_id (last (ml_outbox t)) = Some (cr_id c)"
      using json ob by (intro exI [of _ "aq_grant_json rows"] exI [of _ "aq_command rows"])
        (simp add: grant t acquire_commit_rows cmd lease_command_def)
    have attempt: "at_fence a = (case bt_get (ml_fences s) (lq_variant_id req) of Some f \<Rightarrow> f | None \<Rightarrow> 0) + 1"
      "at_state a = AsStarting" "at_variant_id a = lq_variant_id req" "at_work_package_id a = aq_package_id rows"
      by (simp_all add: a attempt_for_def next_fence_def fences pk)
    have agrees: "lease_agrees (lg_lease grant) a"
      by (simp add: grant gr lease_for_def lease_agrees_def a attempt_for_def)
    have lg: "lg_attempt grant = a" by (simp add: grant gr)
    have "bt_get (ml_leases t) (lq_variant_id req) = Some (lg_lease grant)" "bt_get (ml_attempts t) (at_id a) = Some a"
      "bt_get (ml_fences t) (lq_variant_id req) = Some (at_fence a)" "bt_get (ml_ready t) (at_work_package_id a) = None"
      using lg by (simp_all add: t acquire_commit_rows attempt(4) flip: grant)
    with fresh attempt agrees leased command show ?thesis unfolding Let_def lg by blast
  qed
qed

lemma plain_first_grant:
  "fst (acquire_lease plain_ext (plain_request ''k'' ''a'') (ledger_run plain_ext [ActMaterializeGraph plain_graph ''0'']))
     = Inr \<lparr>lg_attempt = plain_attempt ''a'' 1,
         lg_lease = lease_for (plain_request ''k'' ''a'') (plain_attempt ''a'' 1) 1 [char_of (0 :: nat)] [char_of (10 :: nat)] 10\<rparr>"
  by code_simp

lemma plain_fresh_key:
  "bt_get (ml_commands (ledger_run plain_ext [ActMaterializeGraph plain_graph ''0''])) ''k'' = None"
  by code_simp

theorem acquire_writes_grant_witness:
  "bt_get (ml_leases (snd (acquire_lease plain_ext (plain_request ''k'' ''a'')
       (ledger_run plain_ext [ActMaterializeGraph plain_graph ''0''])))) ''var_var:s:wp:0'' =
     Some (lease_for (plain_request ''k'' ''a'') (plain_attempt ''a'' 1) 1 [char_of (0 :: nat)] [char_of (10 :: nat)] 10)"
proof -
  let ?s = "ledger_run plain_ext [ActMaterializeGraph plain_graph ''0'']" and ?q = "plain_request ''k'' ''a''"
  obtain t where t: "acquire_lease plain_ext ?q ?s = (Inr \<lparr>lg_attempt = plain_attempt ''a'' 1,
      lg_lease = lease_for ?q (plain_attempt ''a'' 1) 1 [char_of (0 :: nat)] [char_of (10 :: nat)] 10\<rparr>, t)"
    using plain_first_grant by (metis prod.collapse)
  have "lq_idempotency_key ?q = ''k''" "lq_variant_id ?q = ''var_var:s:wp:0''" by (simp_all add: plain_request_def)
  with acquire_writes_grant [OF t refl] plain_fresh_key t show ?thesis by (simp add: Let_def)
qed

text \<open>C28: A granted lease is usable at once: if the timestamps of the two instants of its window, the clock at the grant
  and the clock plus the TTL, parse back to them (RFC 3339 prints and parses every year from 0 to 9999), then after a
  first acquisition the subject of the granted Attempt passes the active-lease check in the state it leaves.\<close>

theorem granted_lease_is_live:
  assumes "acquire_lease ex req s = (Inr grant, t)"
    and "bt_get (ml_commands s) (lq_idempotency_key req) = None"
    and "x_parse_rfc3339 ex (x_rfc3339 ex (ml_simulation_clock_millis s)) = Some (ml_simulation_clock_millis s)"
    and "x_parse_rfc3339 ex (x_rfc3339 ex (ml_simulation_clock_millis s + lq_ttl_seconds req * 1000)) =
      Some (ml_simulation_clock_millis s + lq_ttl_seconds req * 1000)"
  shows "check_active_lease ex (lease_subject_from_attempt (lg_attempt grant)) t = Inr ()"
  using assms(1,2)
proof (rule acquire_granted)
  fix u now e x w q rows
  assume u: "same_rows s u" and win: "lease_window ex (lq_ttl_seconds req) u = Inr (now, e)"
    and ttl: "request_validated_ttl req = Inr (lq_ttl_seconds req)"
    and rv: "reclaim_expired_variant ex (lq_variant_id req) now u = (Inr x, w)"
    and prep: "acquire_prepare ex req q now e (lq_ttl_seconds req) w = Inr rows"
    and t: "t = acquire_commit ex req rows w" and grant: "grant = aq_grant rows"
  let ?c = "ml_simulation_clock_millis s"
  have clock: "ml_simulation_clock_millis u = ?c" "ml_simulation_clock_millis t = ?c"
    using u keepsD [OF clock_reclaim_variant rv] by (auto simp: same_rows_iff t acquire_commit_rows)
  from win clock(1) have times: "now = x_rfc3339 ex ?c" "e = x_rfc3339 ex (?c + lq_ttl_seconds req * 1000)"
    by (auto simp: lease_window_def res_bind_Ok_iff simulation_time_def i64_checked_def bind_eq_Some_conv split: if_splits)
  have pos: "0 < lq_ttl_seconds req" using ttl by (simp add: request_validated_ttl_def validate_lease_ttl_iff)
  from prep show ?thesis
  proof (rule acquire_prepareE)
    fix g vidx pidx a
    assume a: "a = attempt_for ex req (wp_id (sg_packages g ! pidx)) (next_fence w (lq_variant_id req))"
      and gr: "aq_grant rows = \<lparr>lg_attempt = a, lg_lease = lease_for req a (at_fence a) now e (lq_ttl_seconds req)\<rparr>"
    have "check_active_lease_snapshot ex (lease_for req a (at_fence a) now e (lq_ttl_seconds req)) a
        (lease_subject_from_attempt a) (simulation_time ex t) = Inr ()"
      using assms(3,4) times pos
      by (auto simp: check_active_lease_snapshot_iff lease_for_def a attempt_for_def simulation_time_def clock
          permits_online_lease_check_def)
    moreover have "as_variant_id (lease_subject_from_attempt a) = lq_variant_id req"
      by (simp add: a attempt_for_def lease_subject_from_attempt_def)
    moreover have "al_attempt_id (lease_for req a (at_fence a) now e (lq_ttl_seconds req)) = at_id a"
      by (simp add: lease_for_def)
    ultimately show ?thesis
      by (simp add: check_active_lease_def grant gr t acquire_commit_rows)
  qed
qed

theorem granted_lease_is_live_witness:
  "check_active_lease plain_ext (lease_subject_from_attempt (plain_attempt ''a'' 1))
     (snd (acquire_lease plain_ext (plain_request ''k'' ''a'') (ledger_run plain_ext [ActMaterializeGraph plain_graph ''0'']))) = Inr ()"
proof -
  let ?s = "ledger_run plain_ext [ActMaterializeGraph plain_graph ''0'']" and ?q = "plain_request ''k'' ''a''"
  obtain t where t: "acquire_lease plain_ext ?q ?s = (Inr \<lparr>lg_attempt = plain_attempt ''a'' 1,
      lg_lease = lease_for ?q (plain_attempt ''a'' 1) 1 [char_of (0 :: nat)] [char_of (10 :: nat)] 10\<rparr>, t)"
    using plain_first_grant by (metis prod.collapse)
  have key: "bt_get (ml_commands ?s) (lq_idempotency_key ?q) = None" using plain_fresh_key by (simp add: plain_request_def)
  have "(\<lambda>m. (x_parse_rfc3339 plain_ext (x_rfc3339 plain_ext m) = Some m,
      x_parse_rfc3339 plain_ext (x_rfc3339 plain_ext (m + lq_ttl_seconds ?q * 1000)) = Some (m + lq_ttl_seconds ?q * 1000)))
      (ml_simulation_clock_millis ?s) = (True, True)" by code_simp
  with granted_lease_is_live [OF t key] t show ?thesis by simp
qed

text \<open>The context check does not look at the states of packages or at the fence counters.\<close>

lemma same_shape_ids: "same_shape g h \<Longrightarrow> map wp_id (sg_packages h) = map wp_id (sg_packages g)"
proof -
  assume "same_shape g h"
  then have "map wp_id (map (wp_state_update (\<lambda>_. WpPending)) (sg_packages h)) =
      map wp_id (map (wp_state_update (\<lambda>_. WpPending)) (sg_packages g))" by (simp only: same_shape_def)
  then show ?thesis by (simp add: comp_def)
qed

lemma same_shape_owns:
  assumes "same_shape g h"
  shows "list_ex (\<lambda>i. wp_id i = x) (sg_packages h) = list_ex (\<lambda>i. wp_id i = x) (sg_packages g)"
proof -
  have "list_ex (\<lambda>i. wp_id i = x) ps \<longleftrightarrow> x \<in> set (map wp_id ps)" for ps :: "work_package list"
    by (auto simp: list_ex_iff)
  then show ?thesis by (simp only: same_shape_ids [OF assms])
qed

lemma capsule_initial_shape:
  assumes "same_shape g h" and "p'\<lparr>wp_state := WpPending\<rparr> = p\<lparr>wp_state := WpPending\<rparr>"
  shows "capsule_initial ex h p' at = capsule_initial ex g p at"
proof -
  have p: "wp_id p' = wp_id p" "wp_mission_id p' = wp_mission_id p" "wp_plan_revision_id p' = wp_plan_revision_id p"
    "wp_task_class p' = wp_task_class p" "wp_title p' = wp_title p"
    using assms(2) by (cases p; cases p'; simp)+
  with assms(1) p same_shape_owns [OF assms(1)] show ?thesis by (simp add: capsule_initial_def same_shape_def)
qed

lemma match_capsules_shape:
  assumes "same_shape g h"
    and "map (wp_state_update (\<lambda>_. WpPending)) ps' = map (wp_state_update (\<lambda>_. WpPending)) ps"
  shows "match_capsules ex h actual ps' = match_capsules ex g actual ps"
  using assms(2)
proof (induction ps arbitrary: ps')
  case (Cons p ps)
  then obtain p' qs where ps': "ps' = p' # qs" "p'\<lparr>wp_state := WpPending\<rparr> = p\<lparr>wp_state := WpPending\<rparr>"
    "map (wp_state_update (\<lambda>_. WpPending)) qs = map (wp_state_update (\<lambda>_. WpPending)) ps"
    by (auto simp: Cons_eq_map_conv)
  from ps'(2) have "wp_id p' = wp_id p" by (cases p; cases p'; simp)
  with ps'(1) Cons.IH [OF ps'(3)] show ?case
    by (simp add: capsule_initial_shape [OF assms(1) ps'(2)] cong: if_cong)
qed simp

lemma require_context_shape:
  assumes "same_shape g h" and "ml_context_capsules t = ml_context_capsules s"
  shows "require_context_revision ex h p n t = require_context_revision ex g p n s"
proof -
  have m: "sg_mission h = sg_mission g" and ps: "map (wp_state_update (\<lambda>_. WpPending)) (sg_packages h) =
      map (wp_state_update (\<lambda>_. WpPending)) (sg_packages g)" using assms(1) by (simp_all add: same_shape_def)
  have "length (sg_packages h) = length (sg_packages g)" using same_shape_ids [OF assms(1)] by (metis length_map)
  then show ?thesis
    using assms(2) m
    by (simp add: require_context_revision_def require_initial_contexts_def contexts_for_mission_def
        validate_initial_context_set_def match_capsules_shape [OF assms(1) ps] same_shape_owns [OF assms(1)] cong: if_cong)
qed

lemma lease_graph_shape:
  "vidx < length (sg_variants g) \<Longrightarrow> pidx < length (sg_packages g) \<Longrightarrow> same_shape g (lease_graph g vidx pidx st f)"
  by (simp add: same_shape_def lease_graph_def map_update_same)

text \<open>C26: Acquisition is idempotent: repeating the request that was just granted returns the identical grant
  and changes nothing, when the stored grant decodes to what was encoded.\<close>

theorem acquire_replay_same_grant:
  assumes "s = ledger_run ex acts"
    and "acquire_lease ex req s = (Inr grant, t)"
    and "bt_get (ml_commands s) (lq_idempotency_key req) = None"
    and "\<forall>json. x_enc_grant ex grant = Inr json \<longrightarrow> x_dec_grant ex json = Inr grant"
  shows "acquire_lease ex req t = (Inr grant, t)"
  using assms(2,3)
proof (rule acquire_granted)
  fix u now e x w q rows
  assume u: "same_rows s u" and rv: "reclaim_expired_variant ex (lq_variant_id req) now u = (Inr x, w)"
    and prep: "acquire_prepare ex req q now e (lq_ttl_seconds req) w = Inr rows"
    and t: "t = acquire_commit ex req rows w" and grant: "grant = aq_grant rows"
    and "\<exists>stable. lease_stable_payload ex req = Inr stable \<and>
       command_from_json ex (lq_idempotency_key req) ''acquire_lease'' stable = Inr q"
  then obtain stable where q: "lease_stable_payload ex req = Inr stable"
    "command_from_json ex (lq_idempotency_key req) ''acquire_lease'' stable = Inr q" by blast
  have "rows_ok ex u" using run_rows_ok [of ex acts] rows_ok_same [of u s ex] u assms(1)
    by (auto simp: same_rows_iff keyed_rows_def)
  with preserves_step [OF preserves_reclaim_variant] rv have w: "rows_ok ex w" by (metis snd_conv)
  from prep show ?thesis
  proof (rule acquire_prepareE)
    fix g vidx pidx a
    assume g: "bt_get (ml_graphs w) (lq_mission_id req) = Some g"
      and pos: "position (\<lambda>v. va_id v = lq_variant_id req) (sg_variants g) = Some vidx"
        "position (\<lambda>p. wp_id p = va_work_package_id (sg_variants g ! vidx)) (sg_packages g) = Some pidx"
      and ctx: "require_context_revision ex g (wp_id (sg_packages g ! pidx)) (lq_context_revision req) w = Inr ()"
      and a: "a = attempt_for ex req (wp_id (sg_packages g ! pidx)) (next_fence w (lq_variant_id req))"
      and gr: "aq_grant rows = \<lparr>lg_attempt = a, lg_lease = lease_for req a (at_fence a) now e (lq_ttl_seconds req)\<rparr>"
      and graph: "aq_graph rows = lease_graph g vidx pidx WpLeased (at_fence a)"
      and json: "x_enc_grant ex (aq_grant rows) = Inr (aq_grant_json rows)"
      and cmd: "aq_command rows = lease_command ex q (aq_grant_json rows)"
      and valid: "record_validate ex (aq_command rows) = Inr ()"
    have key: "mi_id (sg_mission g) = lq_mission_id req" using w g by (simp add: rows_ok_def)
    have shape: "same_shape g (aq_graph rows)"
      unfolding graph by (intro lease_graph_shape position_less [OF pos(1)] position_less [OF pos(2)])
    then have "bt_get (ml_graphs t) (lq_mission_id req) = Some (aq_graph rows)"
      using key by (simp add: t acquire_commit_rows same_shape_def)
    moreover have "require_context_revision ex (aq_graph rows) (at_work_package_id a) (at_context_revision a) t = Inr ()"
      using ctx by (simp add: t acquire_commit_rows a attempt_for_def require_context_shape [OF shape, of "acquire_commit ex req rows w" w])
    moreover have "command_matches ex q (aq_command rows) = Inr ()"
      using valid by (simp add: command_matches_iff cmd lease_command_def record_request_def)
    moreover have "x_dec_grant ex (aq_grant_json rows) = Inr (aq_grant rows)"
      using assms(4) json grant by blast
    moreover have "cr_response (aq_command rows) = Some (aq_grant_json rows)" by (simp add: cmd lease_command_def)
    moreover have "bt_get (ml_commands t) (lq_idempotency_key req) = Some (aq_command rows)"
      by (simp add: t acquire_commit_rows)
    ultimately show ?thesis
      using q by (simp add: acquire_lease_def st_bind_def st_lift_def acquire_replay_def grant gr)
  qed
qed

theorem acquire_replay_same_grant_witness:
  "let ex = plain_ext\<lparr>x_dec_grant := (\<lambda>_. Inr \<lparr>lg_attempt = plain_attempt ''a'' 1, lg_lease =
         lease_for (plain_request ''k'' ''a'') (plain_attempt ''a'' 1) 1 [char_of (0 :: nat)] [char_of (10 :: nat)] 10\<rparr>)\<rparr>;
       t = snd (acquire_lease ex (plain_request ''k'' ''a'') (ledger_run ex [ActMaterializeGraph plain_graph ''0''])) in
   snd (acquire_lease ex (plain_request ''k'' ''a'') t) = t"
proof -
  let ?g = "\<lparr>lg_attempt = plain_attempt ''a'' 1, lg_lease =
      lease_for (plain_request ''k'' ''a'') (plain_attempt ''a'' 1) 1 [char_of (0 :: nat)] [char_of (10 :: nat)] 10\<rparr>"
  let ?e = "plain_ext\<lparr>x_dec_grant := (\<lambda>_. Inr ?g)\<rparr>" and ?q = "plain_request ''k'' ''a''"
  let ?s = "ledger_run ?e [ActMaterializeGraph plain_graph ''0'']"
  have "fst (acquire_lease ?e ?q ?s) = Inr ?g" by code_simp
  then obtain t where t: "acquire_lease ?e ?q ?s = (Inr ?g, t)" by (metis prod.collapse)
  have key: "bt_get (ml_commands ?s) (lq_idempotency_key ?q) = None" by code_simp
  have "\<forall>json. x_enc_grant ?e ?g = Inr json \<longrightarrow> x_dec_grant ?e json = Inr ?g" by simp
  from acquire_replay_same_grant [OF refl t key this] t show ?thesis by (simp add: Let_def)
qed

text \<open>C27: A live lease cannot be taken over: while the stored lease of a variant has not expired, a new
  acquisition for the variant is refused and leaves every row as it was.\<close>

theorem live_lease_blocks:
  assumes "bt_get (ml_leases s) (lq_variant_id req) = Some l" and "simulation_time ex s < al_expires_at l"
    and "bt_get (ml_commands s) (lq_idempotency_key req) = None"
  shows "\<not> is_ok (fst (acquire_lease ex req s)) \<and> same_rows s (snd (acquire_lease ex req s))"
proof -
  have taken: "\<exists>e. acquire_prepare ex req q now exp ttl u = Inl e" if "ml_leases u = ml_leases s" for q now exp ttl u
    using that assms(1)
    by (cases "acquire_prepare ex req q now exp ttl u") (auto elim!: acquire_prepareE)
  have "\<not> is_ok (fst (acquire_fresh ex req q s)) \<and> same_rows s (snd (acquire_fresh ex req q s))" for q
  proof -
    obtain r u where u: "tick s = (r, u)" by fastforce
    then obtain n where n: "u = s\<lparr>ml_fail_after_writes := n\<rparr>" using tick_same [of s] by (auto simp: same_rows_iff)
    have keep: "reclaim_expired_variant ex (lq_variant_id req) now u = (Inr None, u)"
      if "lease_window ex ttl u = Inr (now, exp)" for ttl now exp
      using that assms(1,2) n
      by (auto simp: reclaim_expired_variant_def lease_window_def res_bind_Ok_iff simulation_time_def split: if_splits)
    have "\<not> is_ok (fst (st_bind (st_get (lease_window ex ttl)) (\<lambda>(now, expires_at).
        st_bind (reclaim_expired_variant ex (lq_variant_id req) now) (\<lambda>_.
        st_bind (st_get (acquire_prepare ex req q now expires_at ttl)) (\<lambda>rows.
        st_bind (st_modify (acquire_commit ex req rows)) (\<lambda>_. st_ok (aq_grant rows))))) u)) \<and>
      snd (st_bind (st_get (lease_window ex ttl)) (\<lambda>(now, expires_at).
        st_bind (reclaim_expired_variant ex (lq_variant_id req) now) (\<lambda>_.
        st_bind (st_get (acquire_prepare ex req q now expires_at ttl)) (\<lambda>rows.
        st_bind (st_modify (acquire_commit ex req rows)) (\<lambda>_. st_ok (aq_grant rows))))) u) = u" for ttl
    proof (cases "lease_window ex ttl u")
      case (Inr w)
      obtain now exp where w: "w = (now, exp)" by fastforce
      obtain e where "acquire_prepare ex req q now exp ttl u = Inl e" using taken [of u q now exp ttl] n by auto
      with keep [of ttl now exp] Inr w show ?thesis by (simp add: st_bind_def st_get_def)
    qed (simp add: st_bind_def st_get_def)
    then show ?thesis
      using n by (cases r; cases "request_validated_ttl req")
        (simp_all add: acquire_fresh_def st_bind_def [of tick] st_bind_def [of "st_lift x" for x] st_lift_def u)
  qed
  then show ?thesis
    using assms(3) by (auto simp: acquire_lease_def st_bind_def st_lift_def split: sum.splits)
qed

lemma plain_live:
  "map_option al_expires_at (bt_get (ml_leases (ledger_run plain_ext (take 2 plain_acts))) ''var_var:s:wp:0'') = Some [char_of (10 :: nat)]"
  "simulation_time plain_ext (ledger_run plain_ext (take 2 plain_acts)) = [char_of (0 :: nat)]"
  "bt_get (ml_commands (ledger_run plain_ext (take 2 plain_acts))) ''j'' = None"
  by code_simp+

theorem live_lease_blocks_witness:
  "\<not> is_ok (fst (acquire_lease plain_ext (plain_request ''j'' ''b'') (ledger_run plain_ext (take 2 plain_acts))))"
proof -
  from plain_live(1) obtain l where l: "bt_get (ml_leases (ledger_run plain_ext (take 2 plain_acts))) ''var_var:s:wp:0'' = Some l"
    "al_expires_at l = [char_of (10 :: nat)]" by auto
  have v: "lq_variant_id (plain_request ''j'' ''b'') = ''var_var:s:wp:0''" "lq_idempotency_key (plain_request ''j'' ''b'') = ''j''"
    by (simp_all add: plain_request_def)
  have "simulation_time plain_ext (ledger_run plain_ext (take 2 plain_acts)) < al_expires_at l"
    unfolding plain_live(2) l(2) by code_simp
  with live_lease_blocks [of "ledger_run plain_ext (take 2 plain_acts)" "plain_request ''j'' ''b''" l plain_ext] l v plain_live(3)
  show ?thesis by simp
qed

end
