(* ===== verification/Lease_Expiry.thy ===== *)
theory Lease_Expiry
  imports Lease_Fencing Plain_Environment
begin

text \<open>
  How a tenure goes on or ends: heartbeat, expiry with reclaim, and release.
\<close>

section \<open>Expiry\<close>

lemma reclaim_Ok:
  assumes "reclaim ex l now s = (Inr x, t)"
  shows "xl_variant_id x = al_variant_id l \<and> xl_attempt_id x = al_attempt_id l \<and> xl_fence x = al_fence l"
  using assms
  by (auto simp: reclaim_def reclaim_check_def st_bind_Ok_iff st_get_def st_ok_def res_bind_Ok_iff Let_def
      split: if_splits prod.splits)

definition crashed :: "memory_ledger \<Rightarrow> string \<Rightarrow> bool" where
  "crashed s k \<longleftrightarrow> (\<exists>a. bt_get (ml_attempts s) k = Some a \<and> at_state a = AsCrashed)"

lemma reclaim_rows:
  assumes "reclaim ex l now s = (Inr x, t)"
  shows "bt_get (ml_leases t) = (bt_get (ml_leases s))(al_variant_id l := None)" and "crashed t (al_attempt_id l)"
    and "crashed s k \<Longrightarrow> crashed t k"
proof -
  from reclaim_view [OF assms] obtain a where "lease_view_of t = (lease_view_of s)\<lparr>lv_leases :=
      (bt_get (ml_leases s))(al_variant_id l := None),
      lv_attempts := (bt_get (ml_attempts s))(al_attempt_id l \<mapsto> a\<lparr>at_state := AsCrashed\<rparr>)\<rparr>" by auto
  then have rows: "bt_get (ml_leases t) = (bt_get (ml_leases s))(al_variant_id l := None)"
    "bt_get (ml_attempts t) = (bt_get (ml_attempts s))(al_attempt_id l \<mapsto> a\<lparr>at_state := AsCrashed\<rparr>)"
    by (simp_all add: lease_view_of_def)
  from rows show "bt_get (ml_leases t) = (bt_get (ml_leases s))(al_variant_id l := None)" "crashed t (al_attempt_id l)"
    "crashed s k \<Longrightarrow> crashed t k" by (auto simp: crashed_def)
qed

lemma reclaim_all_rows:
  assumes "reclaim_all ex now ls s = (Inr xs, t)"
  shows "bt_get (ml_leases t) x = (if x \<in> al_variant_id ` set ls then None else bt_get (ml_leases s) x)"
    and "\<forall>l \<in> set ls. crashed t (al_attempt_id l)"
    and "crashed s k \<Longrightarrow> crashed t k"
    and "map (\<lambda>x. (xl_variant_id x, xl_attempt_id x, xl_fence x)) xs =
      map (\<lambda>l. (al_variant_id l, al_attempt_id l, al_fence l)) ls"
  using assms
proof (induction ls arbitrary: s xs k)
  case (Cons l ls)
  { case 1
    then obtain y u ys where h: "reclaim ex l now s = (Inr y, u)" "reclaim_all ex now ls u = (Inr ys, t)"
      by (auto simp: st_bind_Ok_iff st_ok_def)
    from Cons.IH(1) [OF h(2)] reclaim_rows(1) [OF h(1)] show ?case by simp }
  { case 2
    then obtain y u ys where h: "reclaim ex l now s = (Inr y, u)" "reclaim_all ex now ls u = (Inr ys, t)"
      by (auto simp: st_bind_Ok_iff st_ok_def)
    have "crashed t (al_attempt_id l)"
      using Cons.IH(3) [OF reclaim_rows(2) [OF h(1)] h(2)] .
    with Cons.IH(2) [OF h(2)] show ?case by simp }
  { case 3
    then obtain y u ys where h: "reclaim ex l now s = (Inr y, u)" "reclaim_all ex now ls u = (Inr ys, t)"
      by (auto simp: st_bind_Ok_iff st_ok_def)
    from Cons.IH(3) [OF reclaim_rows(3) [OF h(1) 3(1)] h(2)] show ?case . }
  { case 4
    then obtain y u ys where h: "reclaim ex l now s = (Inr y, u)" "reclaim_all ex now ls u = (Inr ys, t)" "xs = y # ys"
      by (auto simp: st_bind_Ok_iff st_ok_def)
    from Cons.IH(4) [OF h(2)] reclaim_Ok [OF h(1)] h(3) show ?case by simp }
qed (auto simp: st_ok_def)

lemma clock_reclaim_all: "keeps ml_simulation_clock_millis (reclaim_all ex now ls)"
  by (induction ls) (simp_all add: keeps_intros clock_reclaim)

text \<open>C13: A successful expiry sweep reclaims exactly the due leases: afterwards no lease is due, every lease that was
  not due is untouched, the Attempt of every reclaimed lease is Crashed, and the answer lists variant, Attempt
  and fence of the reclaimed leases in variant order.\<close>

theorem expire_reclaims_exactly_due:
  assumes "length acts < 2 ^ 64" and "expire_leases ex (ledger_run ex acts) = (Inr xs, t)"
  shows "let s = ledger_run ex acts; due = due_leases (simulation_time ex s) s in
    due_leases (simulation_time ex t) t = [] \<and>
    (\<forall>x l. bt_get (ml_leases s) x = Some l \<longrightarrow> simulation_time ex s < al_expires_at l \<longrightarrow> bt_get (ml_leases t) x = Some l) \<and>
    (\<forall>l \<in> set due. crashed t (al_attempt_id l)) \<and>
    map (\<lambda>x. (xl_variant_id x, xl_attempt_id x, xl_fence x)) xs = map (\<lambda>l. (al_variant_id l, al_attempt_id l, al_fence l)) due \<and>
    sorted (map xl_variant_id xs)"
proof -
  let ?s = "ledger_run ex acts"
  let ?now = "simulation_time ex ?s"
  from assms(2) obtain u where u: "same_rows ?s u" "reclaim_all ex (simulation_time ex u) (due_leases (simulation_time ex u) u) u = (Inr xs, t)"
    using tick_same [of ?s] unfolding expire_leases_def st_bind_Ok_iff by (auto simp: Let_def)
  have same: "ml_leases u = ml_leases ?s" "ml_attempts u = ml_attempts ?s" "simulation_time ex u = ?now"
    "due_leases ?now u = due_leases ?now ?s"
    using u(1) by (auto simp: same_rows_iff simulation_time_def due_leases_def)
  have all: "reclaim_all ex ?now (due_leases ?now ?s) u = (Inr xs, t)" using u(2) same by simp
  have holders: "al_variant_id l = x" if "bt_get (ml_leases ?s) x = Some l" for x l
    using lease_invD(2) [OF run_lease_inv [OF assms(1), of ex], of x l] that by simp
  have now_t: "simulation_time ex t = ?now"
    using keepsD [OF clock_reclaim_all all] u(1) by (auto simp: simulation_time_def same_rows_iff)
  have leases: "bt_get (ml_leases t) x = (if x \<in> al_variant_id ` set (due_leases ?now ?s) then None else bt_get (ml_leases ?s) x)" for x
    using reclaim_all_rows(1) [OF all, of x] same(1) by simp
  have "due_leases ?now t = []"
  proof -
    have "\<not> (\<exists>l. l \<in> set (due_leases ?now t))"
      using leases holders by (force simp: due_leases_iff image_iff split: if_splits)
    then show ?thesis by (metis list.set_intros(1) neq_Nil_conv)
  qed
  moreover have "bt_get (ml_leases t) x = Some l" if "bt_get (ml_leases ?s) x = Some l" "?now < al_expires_at l" for x l
  proof -
    have "x \<notin> al_variant_id ` set (due_leases ?now ?s)"
      using that holders by (auto simp: due_leases_iff)
    with leases that(1) show ?thesis by simp
  qed
  moreover have order: "map (\<lambda>x. (xl_variant_id x, xl_attempt_id x, xl_fence x)) xs =
      map (\<lambda>l. (al_variant_id l, al_attempt_id l, al_fence l)) (due_leases ?now ?s)"
    using reclaim_all_rows(4) [OF all] .
  moreover have "sorted (map xl_variant_id xs)"
  proof -
    have "map xl_variant_id xs = map al_variant_id (due_leases ?now ?s)"
      using arg_cong [OF order, of "map fst"] by (simp add: comp_def)
    then show ?thesis by (simp add: due_leases_def)
  qed
  ultimately show ?thesis using reclaim_all_rows(2) [OF all] now_t by (simp add: Let_def)
qed

theorem expire_reclaims_exactly_due_witness:
  "due_leases [char_of (20 :: nat)] (snd (expire_leases plain_ext (ledger_run plain_ext (take 3 plain_acts)))) = []
   \<and> crashed (snd (expire_leases plain_ext (ledger_run plain_ext (take 3 plain_acts)))) ''atm_atm:a''"
proof -
  let ?s = "ledger_run plain_ext (take 3 plain_acts)"
  let ?x = "\<lparr>xl_variant_id = ''var_var:s:wp:0'', xl_attempt_id = ''atm_atm:a'', xl_work_package_id = ''wpk_wpk:s:wp:0'', xl_fence = 1\<rparr>"
  have "fst (expire_leases plain_ext ?s) = Inr [?x]" by code_simp
  then obtain t where t: "expire_leases plain_ext ?s = (Inr [?x], t)" by (metis prod.collapse)
  have len: "length (take 3 plain_acts) < 2 ^ 64" by (simp add: plain_acts_def)
  have due: "map al_attempt_id (due_leases (simulation_time plain_ext ?s) ?s) = [''atm_atm:a'']" by code_simp
  have now: "simulation_time plain_ext (snd (expire_leases plain_ext ?s)) = [char_of (20 :: nat)]" by code_simp
  have "\<exists>l \<in> set (due_leases (simulation_time plain_ext ?s) ?s). al_attempt_id l = ''atm_atm:a''" using due by force
  with expire_reclaims_exactly_due [OF len t] now t show ?thesis by (auto simp: Let_def)
qed

section \<open>Heartbeat\<close>

text \<open>C25: Only the current holder renews. If a heartbeat succeeds after fewer than 2^64 actions, then it presents the permanent
  fence of the variant and the stored Attempt of that fence, with that Attempt's runner, epoch and workspace nonce;
  the Attempt may still renew and every other Attempt of the variant carries a lower fence; the lease had not expired.
  The heartbeat moves only the two times of that lease row, and the holder is live afterwards if the timestamps of the
  two instants of the new window parse back to them.\<close>

theorem heartbeat_only_current_holder:
  assumes "length acts < 2 ^ 64" and "s = ledger_run ex acts" and "heartbeat ex req s = (Inr (), t)"
  shows "bt_get (ml_fences s) (hb_variant_id req) = Some (hb_fence req) \<and>
    (\<exists>a l e. bt_get (ml_attempts s) (hb_attempt_id req) = Some a \<and> permits_lease_heartbeat (at_state a) \<and>
      at_variant_id a = hb_variant_id req \<and> at_fence a = hb_fence req \<and> at_runner_id a = hb_runner_id req \<and>
      at_runner_epoch a = hb_runner_epoch req \<and> at_workspace_nonce a = hb_workspace_nonce req \<and>
      (\<forall>k b. bt_get (ml_attempts s) k = Some b \<and> at_variant_id b = hb_variant_id req \<and> k \<noteq> hb_attempt_id req \<longrightarrow>
        at_fence b < hb_fence req) \<and>
      bt_get (ml_leases s) (hb_variant_id req) = Some l \<and> simulation_time ex s < al_expires_at l \<and>
      t = s\<lparr>ml_fail_after_writes := ml_fail_after_writes t, ml_leases := bt_insert (hb_variant_id req)
        (l\<lparr>al_heartbeat_at := simulation_time ex s, al_expires_at := e\<rparr>) (ml_leases s)\<rparr> \<and>
      (x_parse_rfc3339 ex (x_rfc3339 ex (ml_simulation_clock_millis s)) = Some (ml_simulation_clock_millis s) \<and>
       x_parse_rfc3339 ex (x_rfc3339 ex (ml_simulation_clock_millis s + hb_ttl_seconds req * 1000)) =
         Some (ml_simulation_clock_millis s + hb_ttl_seconds req * 1000) \<longrightarrow>
       check_active_lease ex (lease_subject_from_attempt a) t = Inr ()))"
proof -
  have inv: "lease_inv (length acts) (lease_view_of s)" unfolding assms(2) by (rule run_lease_inv [OF assms(1)])
  have ttl: "0 < hb_ttl_seconds req"
    using assms(3) by (auto simp: heartbeat_def st_bind_Ok_iff st_lift_def heartbeat_validated_ttl_def validate_lease_ttl_iff)
  from assms(3) show ?thesis
  proof (cases rule: heartbeat_cases)
    case (renewed m l a now e)
    note l = renewed(2) and a = renewed(3) and holds = renewed(6-10)
    have win: "now = simulation_time ex s" "e = x_rfc3339 ex (ml_simulation_clock_millis s + hb_ttl_seconds req * 1000)"
      using renewed(5) by (auto simp: lease_window_def res_bind_Ok_iff i64_checked_def bind_eq_Some_conv split: if_splits)
    have agree: "al_variant_id l = hb_variant_id req" "bt_get (ml_fences s) (hb_variant_id req) = Some (hb_fence req)"
      "lease_agrees l a"
      using lease_invD(2) [OF inv, of "hb_variant_id req" l] l a holds by auto
    then have row: "at_variant_id a = hb_variant_id req" "at_id a = hb_attempt_id req" "at_fence a = hb_fence req"
      "at_runner_id a = hb_runner_id req" "at_runner_epoch a = hb_runner_epoch req" "at_workspace_nonce a = hb_workspace_nonce req"
      using holds by (auto simp: lease_agrees_def)
    have older: "at_fence b < hb_fence req"
      if "bt_get (ml_attempts s) k = Some b" "at_variant_id b = hb_variant_id req" "k \<noteq> hb_attempt_id req" for k b
    proof -
      have "at_fence b \<le> hb_fence req"
        using lease_invD(4) [OF inv, of k b] that agree(2) by (simp add: fence_of_def word_le_nat_alt)
      moreover have "at_fence b \<noteq> hb_fence req"
        using lease_invD(5) [OF inv, of k b "hb_attempt_id req" a] that a row holds(1) by auto
      ultimately show ?thesis by simp
    qed
    have live: "check_active_lease ex (lease_subject_from_attempt a) t = Inr ()"
      if "x_parse_rfc3339 ex (x_rfc3339 ex (ml_simulation_clock_millis s)) = Some (ml_simulation_clock_millis s)"
        "x_parse_rfc3339 ex (x_rfc3339 ex (ml_simulation_clock_millis s + hb_ttl_seconds req * 1000)) =
          Some (ml_simulation_clock_millis s + hb_ttl_seconds req * 1000)"
      using that ttl renewed(1,4) row holds agree a win
      by (auto simp: check_active_lease_def check_active_lease_snapshot_iff simulation_time_def
          lease_subject_from_attempt_def permits_online_lease_check_def permits_lease_heartbeat_def)
    have t: "t = s\<lparr>ml_fail_after_writes := ml_fail_after_writes t, ml_leases := bt_insert (hb_variant_id req)
        (l\<lparr>al_heartbeat_at := simulation_time ex s, al_expires_at := e\<rparr>) (ml_leases s)\<rparr>"
      using renewed(1) win by simp
    have att: "bt_get (ml_attempts s) (hb_attempt_id req) = Some a" and due: "simulation_time ex s < al_expires_at l"
      using a holds(1) renewed(13) win by simp_all
    show ?thesis
      by (intro conjI exI [of _ a] exI [of _ l] exI [of _ e] allI impI; (elim conjE)?)
        (fact agree(2) att row renewed(4) older l due t live)+
  qed (simp add: is_ok_def)
qed

definition plain_heartbeat :: heartbeat_request where
  "plain_heartbeat = \<lparr>hb_variant_id = ''var_var:s:wp:0'', hb_attempt_id = ''atm_atm:a'', hb_fence = 1,
     hb_runner_id = ''run'', hb_runner_epoch = 1, hb_workspace_nonce = ''n'', hb_ttl_seconds = 10\<rparr>"

theorem heartbeat_only_current_holder_witness:
  "bt_get (ml_fences (ledger_run plain_ext (take 2 plain_acts @ [ActAdvanceClock 5]))) ''var_var:s:wp:0'' = Some 1"
proof -
  let ?s = "ledger_run plain_ext (take 2 plain_acts @ [ActAdvanceClock 5])"
  have "fst (heartbeat plain_ext plain_heartbeat ?s) = Inr ()" by code_simp
  then obtain t where t: "heartbeat plain_ext plain_heartbeat ?s = (Inr (), t)" by (metis prod.collapse)
  have len: "length (take 2 plain_acts @ [ActAdvanceClock 5]) < 2 ^ 64" by (simp add: plain_acts_def)
  show ?thesis using heartbeat_only_current_holder [OF len refl t] by (simp add: plain_heartbeat_def)
qed

section \<open>Release\<close>

lemma release_removes_lease:
  assumes "release_lease ex req s = (Inr (), t)" and "bt_get (ml_leases s) (rq_variant_id req) = Some l"
  shows "bt_get (ml_leases t) (rq_variant_id req) = None"
proof -
  have rq: "keeps ml_leases (if b then requeue_package p n else st_ok ())" for b p n
    by (simp add: keeps_pure) (simp add: keeps_def requeue_package_def Let_def split: option.splits sum.splits)
  from assms(1) obtain u where u: "tick s = (Inr (), u)"
    unfolding release_lease_def st_bind_Ok_iff by auto
  then obtain n where n: "u = s\<lparr>ml_fail_after_writes := n\<rparr>" by (auto elim: tick_Ok)
  have fin: "is_terminal_release_target (rq_final_state req)" and att: "al_attempt_id l = rq_attempt_id req"
    using assms u n by (auto simp: release_lease_def st_bind_def [of tick] st_err_def Let_def split: if_splits)
  from assms u n fin att obtain v w p st now where
    "(if rq_requeue req then requeue_package p now else st_ok ()) v = (Inr (), w)"
    "v = (set_attempt_state (rq_attempt_id req) st u)\<lparr>ml_leases :=
        bt_remove (rq_variant_id req) (ml_leases (set_attempt_state (rq_attempt_id req) st u))\<rparr>"
    "t = push_event ex ''lease_released'' (rq_attempt_id req) (Some (rq_variant_id req)) None None w"
    unfolding release_lease_def st_bind_Ok_iff
    by (auto simp: st_get_def st_lift_def st_modify_def Let_def st_bind_Ok_iff)
  with keepsD [OF rq] show ?thesis by (fastforce simp: push_event_def Let_def)
qed

text \<open>C24: A successful release of a leased variant ends the tenure for good. Right after it the Attempt is in the requested
  terminal state and the variant has no lease; repeated at once, the same release succeeds and changes nothing, unless
  a failure is injected. And after any later actions, up to 2^64 in all, no subject naming the Attempt passes the
  active-lease check and no heartbeat naming it succeeds.\<close>

theorem release_ends_tenure:
  assumes "length acts + length later < 2 ^ 64 - 1" and "release_lease ex req (ledger_run ex acts) = (Inr (), t)"
    and "bt_get (ml_leases (ledger_run ex acts)) (rq_variant_id req) = Some l"
  shows "(\<exists>a. bt_get (ml_attempts t) (rq_attempt_id req) = Some a \<and> at_state a = rq_final_state req) \<and>
    is_terminal_release_target (rq_final_state req) \<and> bt_get (ml_leases t) (rq_variant_id req) = None \<and>
    (ml_fail_after_writes t = None \<longrightarrow> release_lease ex req t = (Inr (), t)) \<and>
    (\<forall>subj. as_attempt_id subj = rq_attempt_id req \<longrightarrow>
      check_active_lease ex subj (ledger_run ex (acts @ ActRelease req # later)) \<noteq> Inr ()) \<and>
    (\<forall>hb. hb_attempt_id hb = rq_attempt_id req \<longrightarrow>
      \<not> is_ok (fst (heartbeat ex hb (ledger_run ex (acts @ ActRelease req # later)))))"
proof -
  let ?s = "ledger_run ex acts"
  have t: "ledger_run ex (acts @ [ActRelease req]) = t" using assms(2) by simp
  have inv: "lease_inv (length acts) (lease_view_of ?s)" by (rule run_lease_inv) (use assms(1) in simp)
  from assms(2) show ?thesis
  proof (cases rule: release_cases)
    case unchanged
    have "bt_get (ml_leases t) (rq_variant_id req) = None" by (rule release_removes_lease [OF assms(2,3)])
    with unchanged assms(3) have False by (auto simp: same_rows_iff)
    then show ?thesis ..
  next
    case (released m a)
    then have rows: "bt_get (ml_leases t) = (bt_get (ml_leases ?s))(rq_variant_id req := None)"
      "bt_get (ml_attempts t) = (bt_get (ml_attempts ?s))(rq_attempt_id req \<mapsto> a\<lparr>at_state := rq_final_state req\<rparr>)"
      by (simp_all add: lease_view_of_def)
    have "x = rq_variant_id req" if "bt_get (ml_leases ?s) x = Some k" "al_attempt_id k = rq_attempt_id req" for x k
      using lease_invD(2) [OF inv, of x k] lease_invD(2) [OF inv, of "rq_variant_id req" m] that released(1-3)
      by (auto simp: lease_agrees_def)
    then have "retired (rq_attempt_id req) (lease_view_of (ledger_run ex (acts @ [ActRelease req])))"
      unfolding t by (auto simp: retired_def rows split: if_splits)
    from retired_run [OF _ this, of later]
    have "retired (rq_attempt_id req) (lease_view_of (ledger_run ex (acts @ ActRelease req # later)))"
      using assms(1) by simp
    note refused = retired_refused [OF this]
    have "release_lease ex req t = (Inr (), t)" if "ml_fail_after_writes t = None"
      using rows released(5)
      by (simp add: release_lease_def st_bind_def tick_no_failpoint [OF that] Let_def)
    with rows released(5) show ?thesis by (intro conjI allI impI refused) simp_all
  qed
qed

definition plain_release :: release_request where
  "plain_release = \<lparr>rq_variant_id = ''var_var:s:wp:0'', rq_attempt_id = ''atm_atm:a'', rq_final_state = AsFailed, rq_requeue = True\<rparr>"

theorem release_ends_tenure_witness:
  "let t = snd (release_lease plain_ext plain_release (ledger_run plain_ext (take 2 plain_acts))) in
   bt_get (ml_leases t) ''var_var:s:wp:0'' = None \<and> release_lease plain_ext plain_release t = (Inr (), t) \<and>
   \<not> is_ok (fst (heartbeat plain_ext plain_heartbeat (ledger_run plain_ext (take 2 plain_acts @ [ActRelease plain_release, ActExpire]))))"
proof -
  let ?s = "ledger_run plain_ext (take 2 plain_acts)"
  have ok: "(\<lambda>(r, t). (r, ml_fail_after_writes t)) (release_lease plain_ext plain_release ?s) = (Inr (), None)" by code_simp
  then obtain t where t: "release_lease plain_ext plain_release ?s = (Inr (), t)" "ml_fail_after_writes t = None"
    by (auto split: prod.splits)
  have len: "length (take 2 plain_acts) + length [ActExpire] < 2 ^ 64 - 1" by (simp add: plain_acts_def)
  have "map_option al_fence (bt_get (ml_leases ?s) ''var_var:s:wp:0'') = Some 1" by code_simp
  then obtain l where "bt_get (ml_leases ?s) ''var_var:s:wp:0'' = Some l" by auto
  then have l: "bt_get (ml_leases ?s) (rq_variant_id plain_release) = Some l" by (simp add: plain_release_def)
  have v: "rq_variant_id plain_release = ''var_var:s:wp:0''" "hb_attempt_id plain_heartbeat = rq_attempt_id plain_release"
    by (simp_all add: plain_release_def plain_heartbeat_def)
  show ?thesis using release_ends_tenure [OF len t(1) l] t v by (simp add: Let_def)
qed

end
