(* ===== verification/Record_Guarantees.thy ===== *)
theory Record_Guarantees
  imports Plain_Environment "HOL-Library.Sublist"
begin

text \<open>
  What the rows of the ledger witness after any run: effect intents and their history, the coding quota
  with its launch nonces, the append-only rows, and the replay of commands.
\<close>

section \<open>Effects\<close>

lemma committed_path:
  assumes "run_path effect_transition EfProposed ts = Inr EfCommitted"
  shows "\<exists>mid w. ts = EfAuthorized # EfDispatching # mid @ [EfVerified, EfCommitted] \<and>
    w \<in> {EfReceiptPending, EfOutcomeUnknown} \<and> last (EfDispatching # mid) = w"
proof -
  from assms obtain pre v where pre: "ts = pre @ [EfCommitted]" "run_path effect_transition EfProposed pre = Inr v"
    "effect_transition v EfCommitted = Inr EfCommitted"
    by (cases ts rule: rev_cases) (auto simp: effect_machine.path_snoc dest: effect_machine.target)
  then have v: "v = EfVerified" using effect_committed_pred by blast
  with pre(2) obtain pre' w where pre': "pre = pre' @ [EfVerified]" "run_path effect_transition EfProposed pre' = Inr w"
    "effect_transition w EfVerified = Inr EfVerified"
    by (cases pre rule: rev_cases) (auto simp: effect_machine.path_snoc dest: effect_machine.target)
  then have w: "w \<in> {EfReceiptPending, EfOutcomeUnknown}" using effect_verified_pred by blast
  have "w = last (EfProposed # pre')" using effect_machine.path_last [OF pre'(2)] .
  moreover have "\<exists>mid. pre' = EfAuthorized # EfDispatching # mid"
  proof -
    from pre'(2) w obtain a as where a: "pre' = a # as" "effect_transition EfProposed a = Inr a"
      "run_path effect_transition a as = Inr w"
      by (cases pre') (auto simp: res_bind_Ok_iff dest: effect_machine.target)
    from a(2) have "a = EfAuthorized \<or> a = EfFailed" by (cases a) (simp_all add: effect_transition_def)
    moreover have "a \<noteq> EfFailed"
      using effect_machine.terminal_path [OF _ a(3)] w by (auto simp: effect_terminal_def)
    ultimately have auth: "a = EfAuthorized" by blast
    with a(3) w obtain b bs where b: "as = b # bs" "effect_transition EfAuthorized b = Inr b"
      "run_path effect_transition b bs = Inr w"
      by (cases as) (auto simp: res_bind_Ok_iff dest: effect_machine.target)
    from b(2) have "b = EfDispatching \<or> b = EfFailed" by (cases b) (simp_all add: effect_transition_def)
    moreover have "b \<noteq> EfFailed"
      using effect_machine.terminal_path [OF _ b(3)] w by (auto simp: effect_terminal_def)
    ultimately show ?thesis using a(1) b(1) auth by blast
  qed
  ultimately show ?thesis using pre(1) pre'(1) w by force
qed

text \<open>C9: After any run the state of every stored effect intent is where its recorded, successful transitions lead
  from Proposed; an intent is Committed only if it was authorized and dispatched, its outcome was pending or
  unknown, and it was verified immediately before.\<close>

theorem effect_commit_needs_verification:
  assumes "bt_get (ml_effect_intents (ledger_run ex acts)) eid = Some i"
  shows "run_path effect_transition EfProposed (effect_moves ex eid acts) = Inr (ei_state i) \<and>
    (ei_state i = EfCommitted \<longrightarrow>
      (\<exists>mid w. effect_moves ex eid acts = EfAuthorized # EfDispatching # mid @ [EfVerified, EfCommitted] \<and>
         w \<in> {EfReceiptPending, EfOutcomeUnknown} \<and> last (EfDispatching # mid) = w))"
  using run_intent_path [of ex acts eid] assms committed_path by auto

definition plain_intent :: effect_intent where
  "plain_intent = \<lparr>ei_id = ''e'', ei_logical_effect_key = ''k'', ei_provider = ''git'', ei_target_identity = ''t'',
     ei_desired_state_hash = ''d'', ei_expected_old_oid = ''o'', ei_attempt_id = ''a'', ei_fence = 1,
     ei_policy_version = ''v'', ei_payload_hash = [], ei_provider_idempotency_key = None, ei_state = EfProposed,
     ei_unknown_retries = 0, ei_created_at = ''0''\<rparr>"

definition plain_effect_acts :: "ledger_action list" where
  "plain_effect_acts = ActRecordIntent plain_intent # map (ActTransitionEffect ''e'')
     [EfAuthorized, EfCommitted, EfDispatching, EfReceiptPending, EfVerified, EfCommitted]"

theorem effect_commit_needs_verification_witness:
  "effect_moves plain_ext ''e'' plain_effect_acts = [EfAuthorized, EfDispatching, EfReceiptPending, EfVerified, EfCommitted]
   \<and> run_path effect_transition EfProposed (effect_moves plain_ext ''e'' plain_effect_acts) = Inr EfCommitted"
proof -
  have "map_option ei_state (bt_get (ml_effect_intents (ledger_run plain_ext plain_effect_acts)) ''e'') = Some EfCommitted"
    by code_simp
  then obtain i where i: "bt_get (ml_effect_intents (ledger_run plain_ext plain_effect_acts)) ''e'' = Some i"
    "ei_state i = EfCommitted" by auto
  have "effect_moves plain_ext ''e'' plain_effect_acts =
      [EfAuthorized, EfDispatching, EfReceiptPending, EfVerified, EfCommitted]" by code_simp
  with effect_commit_needs_verification [OF i(1)] i(2) show ?thesis by simp
qed

text \<open>C31: After any run there is at most one intent per provider and logical key, the lookup by that pair finds it,
  and its stored hash is the digest of its own identity payload.\<close>

theorem effect_intents_unique:
  assumes "bt_get (ml_effect_intents (ledger_run ex acts)) eid = Some i"
  shows "get_effect_intent (ledger_run ex acts) (ei_provider i) (ei_logical_effect_key i) = Some i \<and> ei_id i = eid \<and>
    payload_digest ex (x_enc_effect ex) i = Inr (ei_payload_hash i) \<and>
    (\<forall>other j. bt_get (ml_effect_intents (ledger_run ex acts)) other = Some j \<longrightarrow>
       ei_provider j = ei_provider i \<longrightarrow> ei_logical_effect_key j = ei_logical_effect_key i \<longrightarrow> other = eid)"
proof -
  have inv: "ei_id j = other \<and> payload_digest ex (x_enc_effect ex) j = Inr (ei_payload_hash j) \<and>
      bt_get (ml_effect_keys (ledger_run ex acts)) (effect_key (ei_provider j) (ei_logical_effect_key j)) = Some other"
    if "bt_get (ml_effect_intents (ledger_run ex acts)) other = Some j" for other j
    using run_effects_inv [of ex acts] that unfolding effects_inv_def by blast
  from inv [OF assms] assms have "get_effect_intent (ledger_run ex acts) (ei_provider i) (ei_logical_effect_key i) = Some i"
    by (simp add: get_effect_intent_def)
  with inv [OF assms] inv show ?thesis by fastforce
qed

theorem effect_intents_unique_witness:
  "get_effect_intent (ledger_run plain_ext plain_effect_acts) ''git'' ''k'' \<noteq> None"
proof -
  have "map_option (\<lambda>i. (ei_provider i, ei_logical_effect_key i))
      (bt_get (ml_effect_intents (ledger_run plain_ext plain_effect_acts)) ''e'') = Some (''git'', ''k'')"
    by code_simp
  then obtain i where i: "bt_get (ml_effect_intents (ledger_run plain_ext plain_effect_acts)) ''e'' = Some i"
    "ei_provider i = ''git''" "ei_logical_effect_key i = ''k''" by auto
  from effect_intents_unique [OF i(1)] i(2,3) show ?thesis by simp
qed

text \<open>The row key joins provider and logical key with a unit separator and escapes neither: a pair that was never
  recorded can be answered with the row of another pair.\<close>

lemma effect_key_ambiguous:
  "get_effect_intent s (p @ char_of (31 :: nat) # q) k = get_effect_intent s p (q @ char_of (31 :: nat) # k)"
  by (simp add: get_effect_intent_def effect_key_def)

section \<open>Coding quota\<close>

text \<open>C14: After any run the coding reservations, summed without wrap-around, are within the quota of one million
  units, there is exactly one reservation per spent launch nonce, and a nonce keeps its request digest for ever
  and once spent stays spent.\<close>

theorem coding_quota_and_nonces:
  "bt_sum unat (ml_budget_reservations (ledger_run ex acts)) \<le> 1000000 \<and>
   bt_sum (\<lambda>_. 1) (ml_budget_reservations (ledger_run ex acts)) = bt_sum spent (ml_authority_nonces (ledger_run ex acts)) \<and>
   (\<forall>nonce digest used later. bt_get (ml_authority_nonces (ledger_run ex acts)) nonce = Some (digest, used) \<longrightarrow>
      (\<exists>used'. bt_get (ml_authority_nonces (ledger_run ex (acts @ later))) nonce = Some (digest, used') \<and> (used \<longrightarrow> used')))"
  using run_coding_inv [of ex acts] fold_nonces_grow [OF run_coding_inv [of ex acts], of ex]
  unfolding coding_inv_def nonces_grow_def ledger_run_append by (simp add: MAX_CODING_QUOTA_UNITS_def)

theorem coding_quota_and_nonces_witness:
  "\<exists>digest. bt_get (ml_authority_nonces (ledger_run coding_plain_ext [ActSubmitCommand plain_command, ActExpire]))
     (replicate 64 (CHR ''0'')) = Some (digest, True)"
proof -
  have "map_option snd (bt_get (ml_authority_nonces (ledger_run coding_plain_ext [ActSubmitCommand plain_command]))
      (replicate 64 (CHR ''0''))) = Some True" by code_simp
  then obtain digest where "bt_get (ml_authority_nonces (ledger_run coding_plain_ext [ActSubmitCommand plain_command]))
      (replicate 64 (CHR ''0'')) = Some (digest, True)" by auto
  moreover have "\<forall>nonce digest used later.
      bt_get (ml_authority_nonces (ledger_run coding_plain_ext [ActSubmitCommand plain_command])) nonce = Some (digest, used) \<longrightarrow>
      (\<exists>used'. bt_get (ml_authority_nonces (ledger_run coding_plain_ext ([ActSubmitCommand plain_command] @ later))) nonce
         = Some (digest, used') \<and> (used \<longrightarrow> used'))"
    using coding_quota_and_nonces [of coding_plain_ext "[ActSubmitCommand plain_command]"] by blast
  ultimately have "\<exists>used'. bt_get (ml_authority_nonces (ledger_run coding_plain_ext
      ([ActSubmitCommand plain_command] @ [ActExpire]))) (replicate 64 (CHR ''0'')) = Some (digest, used') \<and> (True \<longrightarrow> used')"
    by blast
  then show ?thesis by auto
qed

section \<open>Append-only rows\<close>

text \<open>C30: Actions only ever append to the ledger's evidence: between any two points of a run the event log grows at the
  end with sequence numbers equal to the positions, receipts are only added, and no candidate, evidence or effect
  row is changed or removed, whether the actions succeed, fail or are rolled back.\<close>

theorem evidence_is_append_only:
  "let s = ledger_run ex acts; t = ledger_run ex (acts @ later) in
   prefix (ml_events s) (ml_events t) \<and> prefix (ml_effect_receipts s) (ml_effect_receipts t) \<and>
   (\<forall>i < length (ml_events t). le_seq (ml_events t ! i) = of_nat i + 1) \<and>
   bt_get (ml_candidates s) \<subseteq>\<^sub>m bt_get (ml_candidates t) \<and> bt_get (ml_evidence s) \<subseteq>\<^sub>m bt_get (ml_evidence t) \<and>
   bt_get (ml_effects s) \<subseteq>\<^sub>m bt_get (ml_effects t)"
  using run_history [of "ledger_run ex acts" ex later] run_numbered [of ex "acts @ later"]
  unfolding ledger_run_append [symmetric] history_ext_def numbered_def by (auto simp: Let_def prefix_def)

theorem evidence_is_append_only_witness:
  "le_seq (ml_events (ledger_run plain_ext plain_acts) ! 1) = 2"
proof -
  have "length (ml_events (ledger_run plain_ext plain_acts)) = 4" by code_simp
  moreover have "\<forall>i < length (ml_events (ledger_run plain_ext (plain_acts @ []))).
      le_seq (ml_events (ledger_run plain_ext (plain_acts @ [])) ! i) = of_nat i + 1"
    using evidence_is_append_only [of plain_ext plain_acts "[]"] unfolding Let_def by blast
  ultimately show ?thesis by simp
qed

end
