(* ===== verification/Command_Guarantees.thy ===== *)
theory Command_Guarantees
  imports Plain_Environment
begin

text \<open>
  Idempotency of the command path: submission, offline settlement, graph deltas and materialization,
  each with its replay and with what stays behind when it fails.
\<close>

section \<open>Submission\<close>

lemma admit_first:
  assumes "admit_run_coding ex q False s = (Inr u, t)" and "cq_kind q = RUN_CODING_KIND"
    and "run_coding_parse ex (cq_payload q) = Inr p"
  shows "bt_get (ml_authority_nonces t) (rc_launch_nonce p) = Some (to_hex ex (command_digest ex q), True) \<and>
    bt_get (ml_budget_reservations t) (rc_quota_reservation p) = Some (rc_quota_units p)"
proof -
  let ?d = "to_hex ex (command_digest ex q)"
  let ?w = "issue_on_first_insert (rc_launch_nonce p) ?d False s"
  from assms have body: "(case from_domain (plan_run_coding_admission ex q False (admission_view p ?w)) of
            Inl e \<Rightarrow> (Err e, ?w)
          | Inr None \<Rightarrow> (Ok (), ?w)
          | Inr (Some plan) \<Rightarrow>
              (case bt_get (ml_authority_nonces ?w) (ap_consume_nonce plan) of
                 None \<Rightarrow> (Err (LeStore ''run_coding launch nonce is absent''), ?w)
               | Some row \<Rightarrow>
                   if fst row \<noteq> ?d \<or> snd row then
                     (Err (LeStore ''run_coding launch nonce is not issued for this request''), ?w)
                   else
                     (Ok (), ?w\<lparr>ml_authority_nonces :=
                          bt_insert (ap_consume_nonce plan) (fst row, True) (ml_authority_nonces ?w),
                        ml_budget_reservations := bt_insert (fst (ap_reservation plan)) (snd (ap_reservation plan))
                          (ml_budget_reservations ?w)\<rparr>))) = (Inr u, t)"
    by (simp add: admit_run_coding_def Let_def result_simps)
  obtain plan where plan: "plan_run_coding_admission ex q False (admission_view p ?w) = Inr (Some plan)"
    using body assms(2,3)
    by (cases "plan_run_coding_admission ex q False (admission_view p ?w)")
      (auto simp: plan_run_coding_admission_def Let_def split: if_splits option.splits nonce_state.splits)
  then have "plan = \<lparr>ap_consume_nonce = rc_launch_nonce p, ap_reservation = (rc_quota_reservation p, rc_quota_units p)\<rparr>"
    using assms(3) by (auto elim!: plan_run_coding_Some)
  with body plan show ?thesis by (auto split: option.splits if_splits)
qed

lemma admit_replay:
  assumes "cq_kind q = RUN_CODING_KIND \<longrightarrow> (\<exists>p. run_coding_parse ex (cq_payload q) = Inr p \<and>
     bt_get (ml_authority_nonces t) (rc_launch_nonce p) = Some (to_hex ex (command_digest ex q), True) \<and>
     bt_get (ml_budget_reservations t) (rc_quota_reservation p) = Some (rc_quota_units p))"
  shows "admit_run_coding ex q True t = (Inr (), t)"
  using assms
  by (cases "cq_kind q = RUN_CODING_KIND")
    (auto simp: admit_run_coding_def result_simps Let_def issue_on_first_insert_def plan_run_coding_admission_def
      validate_run_coding_replay_def admission_view_def nonce_row_state_def)

lemma admit_keeps_commands:
  "keeps (\<lambda>s. (ml_commands s, ml_outbox s, ml_events s, ml_fail_after_writes s)) (admit_run_coding ex q b)"
proof -
  have "keeps (\<lambda>s. (ml_commands s, ml_outbox s, ml_events s, ml_fail_after_writes s)) (st_modify (issue_on_first_insert n d b))" for n d
    by (intro keeps_intros) (simp add: issue_on_first_insert_def)
  then show ?thesis
    unfolding admit_run_coding_def Let_def
    by (simp add: keeps_pure, intro impI keeps_bind keeps_pure)
      (simp_all add: keeps_def split: sum.splits option.splits)
qed

text \<open>The first submission of a key, step by step.\<close>

lemma submit_first:
  assumes "submit_command ex q s = (Inr r, t)" and "bt_get (ml_commands s) (cq_idempotency_key q) = None"
  obtains dispatch u where "command_validate ex q = Inr ()" "record_validate ex r = Inr ()" "r = pending_record ex q"
    "x_enc_request ex q = Inr dispatch" "admit_run_coding ex q False u = (Inr (), t)"
    "bt_get (ml_commands u) (cq_idempotency_key q) = Some r"
    "\<exists>seq. ml_outbox u = ml_outbox s @ [\<lparr>ob_seq = seq, ob_command_id = Some (cr_id r), ob_kind = ''command_dispatch'',
       ob_payload = dispatch, ob_phase = CpPending, ob_delivered_at = None, ob_acked_at = None\<rparr>]"
    "\<exists>e. ml_events u = ml_events s @ [e] \<and> le_kind e = ''command_submitted'' \<and> le_body e = cr_id r \<and>
       le_correlation_id e = Some (cr_id r)"
proof -
  from assms(1) have "submit_body ex q s = (Inr r, t)" by (simp add: submit_command_def transaction_Ok)
  then obtain u1 dispatch u where h: "record_command ex q s = (Inr r, u1)" "x_enc_request ex q = Inr dispatch"
    "st_bind (outbox_enqueue ex (Some (cr_id r)) ''command_dispatch'' dispatch) (\<lambda>_.
       st_bind tick (\<lambda>_. st_modify (push_event ex ''command_submitted'' (cr_id r) (Some (cr_id r)) (Some (cr_id r)) None))) u1
       = (Inr (), u)"
    "admit_run_coding ex q False u = (Inr (), t)"
    unfolding submit_body_def st_bind_Ok_iff
    using assms(2) by (auto simp: st_get_def st_lift_def st_ok_def bt_contains_def st_bind_Ok_iff)
  from h(1) obtain u0 where u0: "command_validate ex q = Inr ()" "tick s = (Inr (), u0)"
    "(case bt_get (ml_commands u0) (cq_idempotency_key q) of
        Some existing \<Rightarrow> (case from_domain (command_matches ex q existing) of Inl e \<Rightarrow> (Err e, u0) | Inr _ \<Rightarrow> (Ok existing, u0))
      | None \<Rightarrow> (case from_domain (record_validate ex (pending_record ex q)) of
            Inl e \<Rightarrow> (Err e, u0)
          | Inr _ \<Rightarrow> (Ok (pending_record ex q),
              u0\<lparr>ml_commands := bt_insert (cq_idempotency_key q) (pending_record ex q) (ml_commands u0)\<rparr>))) = (Inr r, u1)"
    unfolding record_command_def st_bind_Ok_iff by (auto simp: st_lift_def)
  from u0(2) obtain n where n: "u0 = s\<lparr>ml_fail_after_writes := n\<rparr>" by (rule tick_Ok)
  have rec: "r = pending_record ex q" "record_validate ex r = Inr ()"
    "u1 = s\<lparr>ml_fail_after_writes := n, ml_commands := bt_insert (cq_idempotency_key q) r (ml_commands s)\<rparr>"
    using u0(3) assms(2) n by (cases "record_validate ex (pending_record ex q)"; auto)+
  from h(3) obtain n' where
    "u = push_event ex ''command_submitted'' (cr_id r) (Some (cr_id r)) (Some (cr_id r)) None
       (u1\<lparr>ml_outbox := ml_outbox u1 @ [\<lparr>ob_seq = of_nat (length (ml_outbox u1)) + 1,
          ob_command_id = Some (cr_id r), ob_kind = ''command_dispatch'', ob_payload = dispatch, ob_phase = CpPending,
          ob_delivered_at = None, ob_acked_at = None\<rparr>], ml_fail_after_writes := n'\<rparr>)"
    unfolding outbox_enqueue_def st_bind_Ok_iff
    by (auto simp: st_get_def st_modify_def Let_def elim!: tick_Ok)
  with rec u0(1) h that show thesis by (simp add: push_event_def Let_def)
qed

text \<open>C7: Submission is exactly once: a command submitted again after its first success answers with the same record and
  changes no row, coding admissions included; the first submission must have found no row of the same command.\<close>

theorem submit_replay_changes_nothing:
  assumes "submit_command ex q s = (Inr r, t)" and "bt_get (ml_commands s) (cq_idempotency_key q) = None"
    and "outbox_for_command s (command_id ex q) = []" and "submitted_events (command_id ex q) s = []"
    and "ml_fail_after_writes t = None"
  shows "submit_command ex q t = (Inr r, t)"
  using assms(1,2)
proof (rule submit_first)
  fix dispatch u
  assume h: "command_validate ex q = Inr ()" "record_validate ex r = Inr ()" "r = pending_record ex q"
    "x_enc_request ex q = Inr dispatch" "admit_run_coding ex q False u = (Inr (), t)"
    "bt_get (ml_commands u) (cq_idempotency_key q) = Some r"
    "\<exists>seq. ml_outbox u = ml_outbox s @ [\<lparr>ob_seq = seq, ob_command_id = Some (cr_id r), ob_kind = ''command_dispatch'',
       ob_payload = dispatch, ob_phase = CpPending, ob_delivered_at = None, ob_acked_at = None\<rparr>]"
    "\<exists>e. ml_events u = ml_events s @ [e] \<and> le_kind e = ''command_submitted'' \<and> le_body e = cr_id r \<and>
       le_correlation_id e = Some (cr_id r)"
  have same: "ml_commands t = ml_commands u" "ml_outbox t = ml_outbox u" "ml_events t = ml_events u"
    using keepsD [OF admit_keeps_commands h(5)] by simp_all
  have cid: "cr_id r = command_id ex q" using h(3) by (simp add: pending_record_def)
  have rec: "record_command ex q t = (Inr r, t)"
  proof -
    have "command_matches ex q r = Inr ()"
      using h(2,3) by (simp add: command_matches_iff pending_record_def record_request_def)
    with h(1,6) same(1) show ?thesis
      by (simp add: record_command_def st_bind_def st_lift_def tick_no_failpoint [OF assms(5)])
  qed
  have "submit_replay_check (cr_id r) dispatch t = Inr ()"
    using h(7,8) assms(3,4) same cid
    by (auto simp: submit_replay_check_def dispatch_ok_def outbox_for_command_def submitted_events_def)
  moreover have "admit_run_coding ex q True t = (Inr (), t)"
  proof (rule admit_replay, intro impI)
    assume kind: "cq_kind q = RUN_CODING_KIND"
    with h(5) obtain p where "run_coding_parse ex (cq_payload q) = Inr p"
      by (auto simp: admit_run_coding_def st_bind_Ok_iff st_lift_def)
    with admit_first [OF h(5) kind this] show "\<exists>p. run_coding_parse ex (cq_payload q) = Inr p \<and>
      bt_get (ml_authority_nonces t) (rc_launch_nonce p) = Some (to_hex ex (command_digest ex q), True) \<and>
      bt_get (ml_budget_reservations t) (rc_quota_reservation p) = Some (rc_quota_units p)" by blast
  qed
  moreover have "bt_contains (ml_commands t) (cq_idempotency_key q)" using h(6) same(1) by (simp add: bt_contains_def)
  ultimately have "submit_body ex q t = (Inr r, t)"
    using rec h(4) by (simp add: submit_body_def st_bind_def st_get_def st_lift_def st_ok_def)
  then show ?thesis by (simp add: submit_command_def transaction_Ok)
qed

theorem submit_replay_changes_nothing_witness:
  "\<exists>r t. submit_command coding_plain_ext plain_command (ledger_run coding_plain_ext []) = (Inr r, t) \<and>
     submit_command coding_plain_ext plain_command t = (Inr r, t)"
proof -
  let ?s = "ledger_run coding_plain_ext []"
  let ?o = "submit_command coding_plain_ext plain_command ?s"
  have "is_ok (fst ?o) \<and> ml_fail_after_writes (snd ?o) = None" by code_simp
  then obtain r t where run: "?o = (Inr r, t)" "ml_fail_after_writes t = None"
    by (cases ?o; cases "fst ?o") (auto simp: is_ok_def)
  have "bt_get (ml_commands ?s) (cq_idempotency_key plain_command) = None" by code_simp
  moreover have "outbox_for_command ?s (command_id coding_plain_ext plain_command) = []" by code_simp
  moreover have "submitted_events (command_id coding_plain_ext plain_command) ?s = []" by code_simp
  ultimately show ?thesis using submit_replay_changes_nothing [OF run(1)] run by blast
qed

section \<open>Graph deltas\<close>

lemma failure_codec: "e \<noteq> LePanic \<Longrightarrow> failure_into_error (failure_from_error e) = e"
  by (cases e rule: failure_from_error.cases) simp_all

lemma evaluate_no_panic: "evaluate_graph_delta ex g d \<noteq> Inl LePanic"
proof -
  have op: "apply_op h gop \<noteq> Inl LePanic" for h gop
    by (auto simp: apply_op_def Let_def res_bind_def ok_or_def map_err_def
        split: graph_op.splits if_splits option.splits sum.splits)
  have "apply_ops h gops \<noteq> Inl LePanic" for h gops
    using op by (induction gops arbitrary: h) (auto simp: res_bind_def split: sum.splits)
  then show ?thesis by (simp add: evaluate_graph_delta_def)
qed

text \<open>The row a delta leaves behind, and the answer that row replays.\<close>

lemma delta_stores:
  assumes run: "apply_graph_delta_command ex q m d s = (r, t)" and idle: "ml_fail_after_writes s = None"
    and fresh: "bt_get (ml_commands s) (cq_idempotency_key q) = None"
    and stored: "bt_get (ml_commands t) (cq_idempotency_key q) = Some row"
  defines "outcome \<equiv> res_bind (ok_or (get_graph s m) (LeStore ''graph missing'')) (\<lambda>g. evaluate_graph_delta ex g d)"
  shows "r = outcome \<and> command_validate ex q = Inr () \<and> (\<exists>json phase.
     row = pending_record ex q\<lparr>cr_phase := phase, cr_response := Some json\<rparr> \<and>
     (case outcome of
        Inl e \<Rightarrow> phase = CpFailed \<and> x_enc_delta_result ex (DrFailed (failure_from_error e)) = Inr json \<and>
          ml_graphs t = ml_graphs s \<and> ml_events t = ml_events s
      | Inr g \<Rightarrow> phase = CpApplied \<and> x_enc_delta_result ex (DrApplied g) = Inr json))"
proof -
  let ?key = "cq_idempotency_key q" and ?p = "pending_record ex q"
  let ?u = "s\<lparr>ml_commands := bt_insert ?key ?p (ml_commands s)\<rparr>"
  note quiet = tick_no_failpoint idle
  have refused: "\<not> same_rows s t"
    using stored fresh by (auto simp: same_rows_iff)
  have valid: "command_validate ex q = Inr ()" "record_validate ex ?p = Inr ()"
  proof -
    show v: "command_validate ex q = Inr ()"
    proof (cases "command_validate ex q")
      case (Inl e)
      with run have "same_rows s t"
        by (auto simp: apply_graph_delta_command_def delta_body_def record_command_def st_bind_def st_lift_def transaction_def)
      with refused show ?thesis by blast
    qed simp
    show "record_validate ex ?p = Inr ()"
    proof (cases "record_validate ex ?p")
      case (Inl e)
      with run v fresh have "same_rows s t"
        by (auto simp: apply_graph_delta_command_def delta_body_def record_command_def st_bind_def st_lift_def transaction_def
            quiet)
      with refused show ?thesis by blast
    qed simp
  qed
  have "record_command ex q s = (Inr ?p, ?u)"
    using valid fresh by (simp add: record_command_def st_bind_def st_lift_def quiet)
  then have body: "delta_body ex q m d s = delta_fresh ex q m d ?u"
    by (simp add: delta_body_def st_bind_def pending_record_def)
  have out: "res_bind (ok_or (get_graph ?u m) (LeStore ''graph missing'')) (\<lambda>g. evaluate_graph_delta ex g d) = outcome"
    by (simp add: outcome_def get_graph_def)
  show ?thesis
  proof (cases outcome)
    case (Inl e)
    show ?thesis
    proof (cases "x_enc_delta_result ex (DrFailed (failure_from_error e))")
      case (Inl x)
      with \<open>outcome = Inl e\<close> run body out have "same_rows s t"
        by (auto simp: apply_graph_delta_command_def transaction_def delta_fresh_def delta_result_failed_def st_bind_def
            st_lift_def)
      with refused show ?thesis by blast
    next
      case (Inr json)
      with \<open>outcome = Inl e\<close> body out have "transaction (delta_body ex q m d) s =
          (Inr (Inl e), ?u\<lparr>ml_commands := bt_insert ?key (?p\<lparr>cr_phase := CpFailed, cr_response := Some json\<rparr>) (ml_commands s)\<rparr>)"
        by (simp add: transaction_def delta_fresh_def delta_result_failed_def st_bind_def st_lift_def settle_command_def quiet
            st_ok_def)
      with run have "(r, t) = (Inl e, ?u\<lparr>ml_commands := bt_insert ?key
          (?p\<lparr>cr_phase := CpFailed, cr_response := Some json\<rparr>) (ml_commands s)\<rparr>)"
        by (simp add: apply_graph_delta_command_def st_bind_def st_lift_def quiet)
      with stored valid \<open>outcome = Inl e\<close> Inr show ?thesis by auto
    qed
  next
    case (Inr g)
    show ?thesis
    proof (cases "x_enc_delta_result ex (DrApplied g)")
      case (Inl x)
      with Inr run body out have "same_rows s t"
        by (auto simp: apply_graph_delta_command_def transaction_def delta_fresh_def delta_result_applied_def st_bind_def
            st_lift_def)
      with refused show ?thesis by blast
    next
      case enc: (Inr json)
      show ?thesis
      proof (cases "delta_digest ex d")
        case (Inl x)
        with Inr enc run body out have "same_rows s t"
          by (auto simp: apply_graph_delta_command_def transaction_def delta_fresh_def delta_result_applied_def st_bind_def
            st_lift_def)
        with refused show ?thesis by blast
      next
        case dig: (Inr dig)
        let ?v = "push_event ex ''graph_delta'' (to_hex ex dig) None None None (?u\<lparr>ml_graphs := bt_insert m g (ml_graphs s)\<rparr>)"
        have v: "ml_fail_after_writes ?v = None" "ml_commands ?v = ml_commands ?u"
          using idle by (simp_all add: push_event_def Let_def)
        have "transaction (delta_body ex q m d) s =
          (Inr (Inr g), ?v\<lparr>ml_commands := bt_insert ?key (?p\<lparr>cr_phase := CpApplied, cr_response := Some json\<rparr>) (ml_commands s)\<rparr>)"
          using Inr enc dig body out v
          by (simp add: transaction_def delta_fresh_def delta_result_applied_def st_bind_def st_lift_def st_modify_def
              settle_command_def quiet st_ok_def)
        with run v have "(r, t) = (Inr g, ?v\<lparr>ml_commands := bt_insert ?key
            (?p\<lparr>cr_phase := CpApplied, cr_response := Some json\<rparr>) (ml_commands s)\<rparr>)"
          by (simp add: apply_graph_delta_command_def st_bind_def st_lift_def quiet)
        with stored valid Inr enc show ?thesis by auto
      qed
    qed
  qed
qed

text \<open>C8: A graph delta is answered once: whatever its first run answered, applied graph or refusal, every later
  submission of the same command answers the same from the stored row and changes nothing, even when the graph has moved
  on; and a refused delta leaves the graphs and the event log as they were. The stored row must be one that
  validates, and the codec of the stored results must read back what it wrote.\<close>

theorem delta_replays_first_answer:
  assumes "apply_graph_delta_command ex q m d (ledger_run ex acts) = (r, t)"
    and "ml_fail_after_writes (ledger_run ex acts) = None"
    and "bt_get (ml_commands (ledger_run ex acts)) (cq_idempotency_key q) = None"
    and "bt_get (ml_commands t) (cq_idempotency_key q) = Some row" and "record_validate ex row = Inr ()"
    and "\<And>res json. x_enc_delta_result ex res = Inr json \<Longrightarrow> x_dec_delta_result ex json = Inr res"
    and "bt_get (ml_commands u) (cq_idempotency_key q) = Some row" and "ml_fail_after_writes u = None"
  shows "apply_graph_delta_command ex q m d u = (r, u) \<and>
    (\<not> is_ok r \<longrightarrow> ml_graphs t = ml_graphs (ledger_run ex acts) \<and> ml_events t = ml_events (ledger_run ex acts))"
proof -
  let ?s = "ledger_run ex acts"
  let ?out = "res_bind (ok_or (get_graph ?s m) (LeStore ''graph missing'')) (\<lambda>g. evaluate_graph_delta ex g d)"
  obtain json phase where row: "r = ?out" "command_validate ex q = Inr ()"
    "row = pending_record ex q\<lparr>cr_phase := phase, cr_response := Some json\<rparr>"
    "case ?out of
        Inl e \<Rightarrow> phase = CpFailed \<and> x_enc_delta_result ex (DrFailed (failure_from_error e)) = Inr json \<and>
          ml_graphs t = ml_graphs ?s \<and> ml_events t = ml_events ?s
      | Inr g \<Rightarrow> phase = CpApplied \<and> x_enc_delta_result ex (DrApplied g) = Inr json"
    using delta_stores [OF assms(1-4)] by blast
  have "command_matches ex q row = Inr ()"
    using assms(5) row(3) by (simp add: command_matches_iff pending_record_def record_request_def)
  then have rec: "record_command ex q u = (Inr row, u)"
    using row(2) assms(7) by (simp add: record_command_def st_bind_def st_lift_def tick_no_failpoint [OF assms(8)])
  have body: "delta_body ex q m d u = (Inr r, u)"
  proof (cases ?out)
    case (Inl e)
    then have "e \<noteq> LePanic"
      using evaluate_no_panic by (auto simp: res_bind_def ok_or_def split: option.splits)
    moreover have "x_dec_delta_result ex json = Inr (DrFailed (failure_from_error e))"
      using Inl row(4) by (intro assms(6)) simp
    ultimately show ?thesis
      using Inl row rec
      by (simp add: delta_body_def st_bind_def st_lift_def delta_replay_def ok_or_def delta_result_decode_def failure_codec)
  next
    case (Inr g)
    then obtain h where "get_graph ?s m = Some h" "evaluate_graph_delta ex h d = Inr g"
      by (auto simp: res_bind_Ok_iff)
    then have "mi_id (sg_mission g) = m"
      using run_rows_ok [of ex acts] evaluate_shape by (fastforce simp: rows_ok_def same_shape_def get_graph_def)
    moreover have "x_dec_delta_result ex json = Inr (DrApplied g)"
      using Inr row(4) by (intro assms(6)) simp
    ultimately show ?thesis
      using Inr row rec
      by (simp add: delta_body_def st_bind_def st_lift_def delta_replay_def ok_or_def delta_result_decode_def)
  qed
  have "apply_graph_delta_command ex q m d u = (r, u)"
    using body by (simp add: apply_graph_delta_command_def transaction_def st_bind_def st_lift_def tick_no_failpoint assms(8))
  with row show ?thesis by (auto simp: is_ok_def split: sum.splits)
qed

theorem delta_replays_first_answer_witness:
  "\<exists>t. apply_graph_delta_command delta_plain_ext plain_delta_command ''mis_mis:s'' plain_delta
      (ledger_run delta_plain_ext [ActMaterializeGraph plain_graph ''0'']) = (Inr plain_moved, t) \<and>
    apply_graph_delta_command delta_plain_ext plain_delta_command ''mis_mis:s'' plain_delta (t\<lparr>ml_graphs := bt_empty\<rparr>)
      = (Inr plain_moved, t\<lparr>ml_graphs := bt_empty\<rparr>)"
proof -
  let ?s = "ledger_run delta_plain_ext [ActMaterializeGraph plain_graph ''0'']"
  let ?o = "apply_graph_delta_command delta_plain_ext plain_delta_command ''mis_mis:s'' plain_delta ?s"
  have "fst ?o = Inr plain_moved" by code_simp
  then obtain t where run: "?o = (Inr plain_moved, t)" by (metis prod.collapse)
  have "map_option (record_validate delta_plain_ext) (bt_get (ml_commands (snd ?o)) ''c'') = Some (Inr ())" by code_simp
  then obtain row where "bt_get (ml_commands t) ''c'' = Some row" and valid: "record_validate delta_plain_ext row = Inr ()"
    using run by auto
  then have row: "bt_get (ml_commands t) (cq_idempotency_key plain_delta_command) = Some row"
    by (simp add: plain_delta_command_def)
  have codec: "x_enc_delta_result delta_plain_ext res = Inr json \<Longrightarrow> x_dec_delta_result delta_plain_ext json = Inr res"
    for res json
    by (auto simp: delta_plain_ext_def plain_ext_def split: if_splits)
  have idle: "ml_fail_after_writes ?s = None" by code_simp
  have "ml_fail_after_writes (snd ?o) = None" by code_simp
  then have quiet: "ml_fail_after_writes (t\<lparr>ml_graphs := bt_empty\<rparr>) = None" using run by simp
  have fresh: "bt_get (ml_commands ?s) (cq_idempotency_key plain_delta_command) = None" by code_simp
  show ?thesis
    using delta_replays_first_answer [OF run idle fresh row valid codec _ quiet] row run by auto
qed

section \<open>Offline settlement\<close>

lemma reconcile_check_Ok:
  assumes "reconcile_check ex cid s = Inr plan"
  obtains "cr_id (rp_record plan) = cid" "rp_record plan \<in> set (bt_values (ml_commands s))"
    "outbox_for_command s cid = [rp_row plan]"
    "rp_expected plan = rp_record plan\<lparr>cr_phase := or_phase (rp_resolution plan),
       cr_response := Some (or_response (rp_resolution plan))\<rparr>"
    "or_phase (rp_resolution plan) = (if is_supported_dispatch_kind (cr_kind (rp_record plan)) then CpUnknown else CpFailed)"
proof -
  obtain q dispatch where h: "get_command_by_id ex cid s = Inr (Some (rp_record plan))"
    "command_from_json ex (cr_idempotency_key (rp_record plan)) (cr_kind (rp_record plan)) (cr_payload (rp_record plan)) = Inr q"
    "dispatch_ok (outbox_for_command s cid) dispatch" "rp_row plan = outbox_for_command s cid ! 0"
    "offline_worker_resolution ex q = Inr (rp_resolution plan)"
    "resolved_record ex (rp_resolution plan) (rp_record plan) = Inr (rp_expected plan)"
    using assms unfolding reconcile_check_def by (auto simp: res_bind_Ok_iff split: if_splits)
  from h(1) have "filter (\<lambda>r. cr_id r = cid) (bt_values (ml_commands s)) = [rp_record plan]"
    by (auto simp: get_command_by_id_def res_bind_Ok_iff split: list.splits)
  then have "rp_record plan \<in> {r \<in> set (bt_values (ml_commands s)). cr_id r = cid}"
    unfolding set_filter [symmetric] by simp
  moreover from h(3,4) have "outbox_for_command s cid = [rp_row plan]"
    by (cases "outbox_for_command s cid") (auto simp: dispatch_ok_def)
  moreover have "cq_kind q = cr_kind (rp_record plan)"
    using h(2) by (auto simp: command_from_json_def Let_def res_bind_Ok_iff)
  ultimately show thesis
    using h(6) offline_resolution_phase [OF h(5)]
    by (intro that) (auto simp: resolved_record_def Let_def res_bind_Ok_iff)
qed

lemma filter_map_if:
  "(\<And>i. P (f i) = P i) \<Longrightarrow> filter P (map (\<lambda>i. if P i then f i else i) xs) = map f (filter P xs)"
  by (induction xs) simp_all

text \<open>C29: Settling a command offline never claims success: the settled record is the stored one, with phase
  \<open>Unknown\<close> for a supported kind and \<open>Failed\<close> otherwise, its single outbox row carries the same phase with an
  acknowledgement, and exactly one reconciliation event holds its response. Leases, attempts, fences, graphs, effects
  and reservations are not touched.\<close>

theorem offline_settlement_negative:
  assumes "reconcile_offline_command ex cid now (ledger_run ex acts) = (Inr r, t)"
  shows "cr_id r = cid \<and> cr_phase r = (if is_supported_dispatch_kind (cr_kind r) then CpUnknown else CpFailed) \<and>
    bt_get (ml_commands t) (cr_idempotency_key r) = Some r \<and>
    map (\<lambda>i. (ob_phase i, ob_acked_at i \<noteq> None)) (outbox_for_command t cid) = [(cr_phase r, True)] \<and>
    map (\<lambda>e. Some (le_body e)) (reconciled_events cid t) = [cr_response r] \<and>
    t\<lparr>ml_commands := bt_empty, ml_outbox := [], ml_events := [], ml_fail_after_writes := None\<rparr> =
      (ledger_run ex acts)\<lparr>ml_commands := bt_empty, ml_outbox := [], ml_events := [], ml_fail_after_writes := None\<rparr>"
proof -
  let ?s = "ledger_run ex acts"
  from assms have "reconcile_body ex cid now ?s = (Inr r, t)" by (simp add: reconcile_offline_command_def transaction_Ok)
  then obtain plan where check: "reconcile_check ex cid ?s = Inr plan"
    and settled: "cr_phase (rp_record plan) \<noteq> CpPending \<Longrightarrow> r = rp_record plan \<and> t = ?s \<and> rp_record plan = rp_expected plan \<and>
      ob_phase (rp_row plan) = or_phase (rp_resolution plan) \<and> ob_acked_at (rp_row plan) \<noteq> None \<and>
      length (reconciled_events cid ?s) = 1 \<and> le_body (reconciled_events cid ?s ! 0) = or_response (rp_resolution plan)"
    and fresh: "cr_phase (rp_record plan) = CpPending \<Longrightarrow> reconciled_events cid ?s = [] \<and>
      reconcile_write ex cid now plan ?s = (Inr r, t)"
    unfolding reconcile_body_def by (auto simp: st_bind_def st_get_def Let_def split: sum.splits if_splits)
  show ?thesis
  proof (cases "cr_phase (rp_record plan) = CpPending")
    case True
    from fresh [OF True] obtain n where t: "r = rp_expected plan"
      "t = push_event ex COMMAND_RECONCILED_EVENT (or_response (rp_resolution plan)) (Some cid) (Some cid) None
         (?s\<lparr>ml_commands := bt_insert (cr_idempotency_key (rp_record plan)) (rp_expected plan) (ml_commands ?s),
            ml_outbox := map (\<lambda>i. if ob_command_id i = Some cid
              then i\<lparr>ob_phase := or_phase (rp_resolution plan), ob_acked_at := Some now\<rparr> else i) (ml_outbox ?s),
            ml_fail_after_writes := n\<rparr>)"
      by (auto simp: reconcile_write_def Let_def st_bind_Ok_iff st_modify_def st_ok_def elim!: tick_Ok)
    from check show ?thesis
    proof (rule reconcile_check_Ok)
      assume "cr_id (rp_record plan) = cid" "outbox_for_command ?s cid = [rp_row plan]"
        "rp_expected plan = rp_record plan\<lparr>cr_phase := or_phase (rp_resolution plan),
           cr_response := Some (or_response (rp_resolution plan))\<rparr>"
        "or_phase (rp_resolution plan) = (if is_supported_dispatch_kind (cr_kind (rp_record plan)) then CpUnknown else CpFailed)"
      with t fresh [OF True] show ?thesis
        by (simp add: push_event_def Let_def outbox_for_command_def reconciled_events_def filter_map_if)
    qed
  next
    case False
    from check show ?thesis
    proof (rule reconcile_check_Ok)
      assume h: "cr_id (rp_record plan) = cid" "rp_record plan \<in> set (bt_values (ml_commands ?s))"
        "outbox_for_command ?s cid = [rp_row plan]"
        "rp_expected plan = rp_record plan\<lparr>cr_phase := or_phase (rp_resolution plan),
           cr_response := Some (or_response (rp_resolution plan))\<rparr>"
        "or_phase (rp_resolution plan) = (if is_supported_dispatch_kind (cr_kind (rp_record plan)) then CpUnknown else CpFailed)"
      have same: "rp_record plan = rp_record plan\<lparr>cr_phase := or_phase (rp_resolution plan),
           cr_response := Some (or_response (rp_resolution plan))\<rparr>"
        using settled [OF False] h(4) by simp
      have "bt_get (ml_commands ?s) (cr_idempotency_key (rp_record plan)) = Some (rp_record plan)"
        using h(2) run_rows_ok [of ex acts] by (auto simp: bt_values_iff rows_ok_def command_row_ok_def)
      moreover have "cr_phase (rp_record plan) = or_phase (rp_resolution plan)"
        "cr_response (rp_record plan) = Some (or_response (rp_resolution plan))"
        using arg_cong [OF same, of cr_phase] arg_cong [OF same, of cr_response] by simp_all
      moreover obtain e where "reconciled_events cid ?s = [e]" "le_body e = or_response (rp_resolution plan)"
        using settled [OF False] by (cases "reconciled_events cid ?s") auto
      moreover have "r = rp_record plan" "t = ?s" "ob_phase (rp_row plan) = or_phase (rp_resolution plan)"
        "ob_acked_at (rp_row plan) \<noteq> None"
        using settled [OF False] by blast+
      ultimately show ?thesis using h(1,3,5) by simp
    qed
  qed
qed

theorem offline_settlement_negative_witness:
  "\<exists>r t. reconcile_offline_command coding_plain_ext ''cmd_cmd:c'' ''9''
      (ledger_run coding_plain_ext [ActSubmitCommand plain_command]) = (Inr r, t) \<and> cr_phase r = CpUnknown"
proof -
  let ?o = "reconcile_offline_command coding_plain_ext ''cmd_cmd:c'' ''9''
      (ledger_run coding_plain_ext [ActSubmitCommand plain_command])"
  have "(case fst ?o of Inl _ \<Rightarrow> False | Inr r \<Rightarrow> is_supported_dispatch_kind (cr_kind r))" by code_simp
  then obtain r t where "?o = (Inr r, t)" "is_supported_dispatch_kind (cr_kind r)"
    by (cases ?o) (auto split: sum.splits)
  then show ?thesis using offline_settlement_negative [of coding_plain_ext "''cmd_cmd:c''" "''9''"] by auto
qed

end
