(* ===== verification/Merkle_Tree.thy ===== *)
theory Merkle_Tree
  imports Domain_Core "HOL-Library.Code_Target_Nat"
begin

text \<open>
  The Merkle tree over ordered leaf digests of \<^verbatim>\<open>crates/application/src/audit_batch/merkle.rs\<close>: building
  the levels, the root, inclusion proofs and their verification. An odd level pairs its last node with
  itself. The hash is the field \<open>x_blake3\<close>; what is proved about forgeries assumes only that the messages
  actually hashed do not collide.
\<close>

section \<open>Hashing\<close>

datatype merkle_error = MeEmpty | MeIndexOutOfRange u64 u64 | MeProofShape nat nat | MeRootMismatch

fun merkle_reason_code :: "merkle_error \<Rightarrow> string" where
  "merkle_reason_code MeEmpty = ''MERKLE_EMPTY''"
| "merkle_reason_code (MeIndexOutOfRange _ _) = ''MERKLE_INDEX_OUT_OF_RANGE''"
| "merkle_reason_code (MeProofShape _ _) = ''MERKLE_PROOF_SHAPE''"
| "merkle_reason_code MeRootMismatch = ''MERKLE_ROOT_MISMATCH''"

definition LEAF_DOMAIN :: bytes where
  "LEAF_DOMAIN = ''bullet-kernel.audit-merkle.leaf.v1''"

definition NODE_DOMAIN :: bytes where
  "NODE_DOMAIN = ''bullet-kernel.audit-merkle.node.v1''"

text \<open>The framed messages, before they are hashed.\<close>

definition leaf_message :: "bytes \<Rightarrow> bytes" where
  "leaf_message payload = frame LEAF_DOMAIN @ frame payload"

definition node_message :: "digest \<Rightarrow> digest \<Rightarrow> bytes" where
  "node_message l r = frame NODE_DOMAIN @ l @ r"

definition leaf_hash :: "'x hash_ext_scheme \<Rightarrow> bytes \<Rightarrow> digest" where
  "leaf_hash hx payload = digest_of hx (leaf_message payload)"

definition node_hash :: "'x hash_ext_scheme \<Rightarrow> digest \<Rightarrow> digest \<Rightarrow> digest" where
  "node_hash hx l r = digest_of hx (node_message l r)"

fun frame_text :: "string option \<Rightarrow> bytes" where
  "frame_text None = [char_of (0 :: nat)]"
| "frame_text (Some t) = char_of (1 :: nat) # frame t"

section \<open>Building and proving\<close>

record inclusion_proof =
  ip_leaf_index :: u64
  ip_leaf_count :: u64
  ip_siblings :: "digest list"

record merkle_tree =
  mt_levels :: "digest list list"

text \<open>One pass over \<open>below.chunks(2)\<close>.\<close>

fun level_above :: "'x hash_ext_scheme \<Rightarrow> digest list \<Rightarrow> digest list" where
  "level_above hx [] = []"
| "level_above hx [a] = [node_hash hx a a]"
| "level_above hx (a # b # ds) = node_hash hx a b # level_above hx ds"

lemma length_level_above [simp]: "length (level_above hx ds) = Suc (length ds) div 2"
  by (induction hx ds rule: level_above.induct) simp_all

text \<open>The \<open>while\<close> loop of \<open>from_leaves\<close>: push the level above the last one until it is a single node.\<close>

function grow_levels :: "'x hash_ext_scheme \<Rightarrow> digest list list \<Rightarrow> digest list list" where
  "grow_levels hx levels =
     (if levels \<noteq> [] \<and> 1 < length (last levels)
      then grow_levels hx (levels @ [level_above hx (last levels)]) else levels)"
  by pat_completeness auto
termination by (relation "measure (\<lambda>(hx, levels). length (last levels))") auto

declare grow_levels.simps [simp del]

definition from_leaves :: "'x hash_ext_scheme \<Rightarrow> digest list \<Rightarrow> merkle_error + merkle_tree" where
  "from_leaves hx leaves =
     (if leaves = [] then Err MeEmpty else Ok \<lparr>mt_levels = grow_levels hx [leaves]\<rparr>)"

definition tree_root :: "merkle_tree \<Rightarrow> digest" where
  "tree_root t = hd (last (mt_levels t))"

definition leaf_count :: "merkle_tree \<Rightarrow> nat" where
  "leaf_count t = (case mt_levels t of [] \<Rightarrow> 0 | level # _ \<Rightarrow> length level)"

definition root_of :: "'x hash_ext_scheme \<Rightarrow> digest list \<Rightarrow> merkle_error + digest" where
  "root_of hx leaves = res_bind (from_leaves hx leaves) (\<lambda>t. Ok (tree_root t))"

definition sibling :: "digest list \<Rightarrow> nat \<Rightarrow> digest" where
  "sibling level pos =
     (if pos mod 2 = 0 then (if pos + 1 < length level then level ! (pos + 1) else level ! pos)
      else level ! (pos - 1))"

fun prove_loop :: "nat \<Rightarrow> digest list list \<Rightarrow> digest list" where
  "prove_loop pos [] = []"
| "prove_loop pos (level # levels) = sibling level pos # prove_loop (pos div 2) levels"

definition prove_leaf :: "merkle_tree \<Rightarrow> nat \<Rightarrow> merkle_error + inclusion_proof" where
  "prove_leaf t index =
     (if leaf_count t \<le> index then Err (MeIndexOutOfRange (of_nat index) (of_nat (leaf_count t)))
      else Ok \<lparr>ip_leaf_index = of_nat index, ip_leaf_count = of_nat (leaf_count t),
              ip_siblings = prove_loop index (butlast (mt_levels t))\<rparr>)"

text \<open>\<open>div_ceil(2)\<close>, and the loop that counts the levels above the leaves.\<close>

definition div_ceil_2 :: "u64 \<Rightarrow> u64" where
  "div_ceil_2 w = w div 2 + w mod 2"

lemma unat_div_ceil_2: "unat (div_ceil_2 w) = Suc (unat w) div 2"
proof -
  have "unat (w div 2) = unat w div 2" "unat (w mod 2) = unat w mod 2"
    by (simp_all add: unat_div_distrib unat_mod_distrib)
  moreover have "unat w div 2 + unat w mod 2 < 2 ^ 64"
    using u64_less [of w] by simp
  ultimately have "unat (div_ceil_2 w) = unat w div 2 + unat w mod 2"
    by (simp add: div_ceil_2_def unat_word_ariths)
  then show ?thesis by presburger
qed

function height :: "u64 \<Rightarrow> nat" where
  "height width = (if 1 < width then Suc (height (div_ceil_2 width)) else 0)"
  by pat_completeness auto
termination
  by (relation "measure unat") (auto simp: unat_div_ceil_2 word_less_nat_alt)

declare height.simps [simp del]

fun fold_proof :: "'x hash_ext_scheme \<Rightarrow> u64 \<Rightarrow> digest \<Rightarrow> digest list \<Rightarrow> digest" where
  "fold_proof hx pos cur [] = cur"
| "fold_proof hx pos cur (s # ss) =
     fold_proof hx (pos div 2) (if pos mod 2 = 0 then node_hash hx cur s else node_hash hx s cur) ss"

definition verify_inclusion ::
    "'x hash_ext_scheme \<Rightarrow> digest \<Rightarrow> digest \<Rightarrow> inclusion_proof \<Rightarrow> merkle_error + unit" where
  "verify_inclusion hx root leaf proof =
     (if ip_leaf_count proof = 0 then Err MeEmpty
      else if ip_leaf_count proof \<le> ip_leaf_index proof then
        Err (MeIndexOutOfRange (ip_leaf_index proof) (ip_leaf_count proof))
      else if length (ip_siblings proof) \<noteq> height (ip_leaf_count proof) then
        Err (MeProofShape (height (ip_leaf_count proof)) (length (ip_siblings proof)))
      else if fold_proof hx (ip_leaf_index proof) leaf (ip_siblings proof) = root then Ok ()
      else Err MeRootMismatch)"

section \<open>Levels and heights\<close>

function levels_of :: "'x hash_ext_scheme \<Rightarrow> digest list \<Rightarrow> digest list list" where
  "levels_of hx ds = (if length ds \<le> 1 then [ds] else ds # levels_of hx (level_above hx ds))"
  by pat_completeness auto
termination by (relation "measure (\<lambda>(hx, ds). length ds)") auto

declare levels_of.simps [simp del]

lemma levels_of_small [simp]: "length ds \<le> 1 \<Longrightarrow> levels_of hx ds = [ds]"
  by (simp add: levels_of.simps)

lemma levels_of_big [simp]: "1 < length ds \<Longrightarrow> levels_of hx ds = ds # levels_of hx (level_above hx ds)"
  by (simp add: levels_of.simps)

lemma levels_of_not_Nil [simp]: "levels_of hx ds \<noteq> []"
  by (cases "length ds \<le> 1") (simp_all add: not_le)

lemma hd_levels_of [simp]: "hd (levels_of hx ds) = ds"
  by (cases "length ds \<le> 1") (simp_all add: not_le)

lemma grow_levels_of: "grow_levels hx (pre @ [ds]) = pre @ levels_of hx ds"
proof (induction ds arbitrary: pre rule: measure_induct_rule [of length])
  case (less ds)
  show ?case
  proof (cases "length ds \<le> 1")
    case True
    then show ?thesis by (simp add: grow_levels.simps)
  next
    case False
    then have "grow_levels hx (pre @ [ds]) = grow_levels hx ((pre @ [ds]) @ [level_above hx ds])"
      by (subst grow_levels.simps) simp
    also have "\<dots> = (pre @ [ds]) @ levels_of hx (level_above hx ds)"
      using False by (intro less) simp
    finally show ?thesis using False by (simp add: not_le)
  qed
qed

lemma from_leaves_levels:
  "from_leaves hx leaves = Inr t \<longleftrightarrow> leaves \<noteq> [] \<and> t = \<lparr>mt_levels = levels_of hx leaves\<rparr>"
  using grow_levels_of [of hx "[]" leaves] by (auto simp: from_leaves_def)

lemma leaf_count_built: "from_leaves hx leaves = Inr t \<Longrightarrow> leaf_count t = length leaves"
  by (cases "length leaves \<le> 1") (auto simp: leaf_count_def from_leaves_levels not_le)

lemma root_of_levels: "root_of hx leaves = Inr d \<longleftrightarrow> leaves \<noteq> [] \<and> d = hd (last (levels_of hx leaves))"
  by (auto simp: root_of_def res_bind_Ok_iff from_leaves_levels tree_root_def)

fun tree_height :: "nat \<Rightarrow> nat" where
  "tree_height n = (if n \<le> 1 then 0 else Suc (tree_height (Suc n div 2)))"

declare tree_height.simps [simp del]

lemma height_nat: "height w = tree_height (unat w)"
proof (induction w rule: height.induct)
  case (1 w)
  then show ?case
    by (subst height.simps, subst tree_height.simps) (auto simp: unat_div_ceil_2 word_less_nat_alt)
qed

lemma length_levels_of: "length (levels_of hx ds) = Suc (tree_height (length ds))"
proof (induction hx ds rule: levels_of.induct)
  case (1 hx ds)
  then show ?case
    by (cases "length ds \<le> 1") (simp_all add: tree_height.simps [of "length ds"] not_le)
qed

lemma tree_height_bounds: "n \<le> 2 ^ tree_height n \<and> (1 < n \<longrightarrow> 2 ^ tree_height n < 2 * n)"
proof (induction n rule: tree_height.induct)
  case (1 n)
  let ?m = "Suc n div 2"
  show ?case
  proof (cases "1 < n")
    case True
    then have up: "?m \<le> 2 ^ tree_height ?m" and low: "1 < ?m \<longrightarrow> 2 ^ tree_height ?m < 2 * ?m"
      and step: "tree_height n = Suc (tree_height ?m)"
      using 1 by (simp_all add: tree_height.simps [of n])
    have "2 ^ tree_height ?m < n"
    proof (cases "1 < ?m")
      case True
      then have "2 ^ tree_height ?m = 2 * (2 ^ tree_height (Suc ?m div 2) :: nat)"
        by (subst tree_height.simps) simp
      moreover from this low True have "2 ^ tree_height (Suc ?m div 2) < ?m" by simp
      moreover have "2 * ?m \<le> Suc n" by simp
      ultimately show ?thesis by linarith
    next
      case False
      then show ?thesis using \<open>1 < n\<close> by (simp add: tree_height.simps)
    qed
    with up step show ?thesis by simp
  qed (simp add: tree_height.simps)
qed

lemma last_levels_of: "ds \<noteq> [] \<Longrightarrow> length (last (levels_of hx ds)) = 1"
proof (induction hx ds rule: levels_of.induct)
  case (1 hx ds)
  show ?case
  proof (cases "length ds \<le> 1")
    case True
    with 1 show ?thesis by (cases ds) auto
  next
    case False
    then have "0 < length (level_above hx ds)" by simp
    then have "level_above hx ds \<noteq> []" by blast
    with 1 False show ?thesis by (simp add: not_le)
  qed
qed

section \<open>The recursive root\<close>

text \<open>
  The reference: a complete tree of height \<open>h\<close> over the leaves, split at \<open>2^h\<close>, where a half that is missing is a copy
  of its sibling.
\<close>

fun ref_root :: "'x hash_ext_scheme \<Rightarrow> nat \<Rightarrow> digest list \<Rightarrow> digest" where
  "ref_root hx 0 ds = hd ds"
| "ref_root hx (Suc h) ds =
     node_hash hx (ref_root hx h (take (2 ^ h) ds))
       (ref_root hx h (if length ds \<le> 2 ^ h then ds else drop (2 ^ h) ds))"

lemma level_above_take: "level_above hx (take (2 * n) ds) = take n (level_above hx ds)"
proof (induction hx ds arbitrary: n rule: level_above.induct)
  case (2 hx a)
  then show ?case by (cases n) simp_all
next
  case (3 hx a b ds)
  then show ?case by (cases n) simp_all
qed simp

lemma level_above_drop: "level_above hx (drop (2 * n) ds) = drop n (level_above hx ds)"
proof (induction hx ds arbitrary: n rule: level_above.induct)
  case (2 hx a)
  then show ?case by (cases n) simp_all
next
  case (3 hx a b ds)
  then show ?case by (cases n) simp_all
qed simp

lemma ref_root_level: "ds \<noteq> [] \<Longrightarrow> ref_root hx h (level_above hx ds) = ref_root hx (Suc h) ds"
proof (induction h arbitrary: ds)
  case 0
  then show ?case by (cases ds; cases "tl ds") simp_all
next
  case (Suc h)
  have len: "length (level_above hx ds) \<le> 2 ^ h \<longleftrightarrow> length ds \<le> 2 ^ Suc h" by auto
  have l: "ref_root hx h (take (2 ^ h) (level_above hx ds)) = ref_root hx (Suc h) (take (2 ^ Suc h) ds)"
    using Suc by (simp add: level_above_take [symmetric] del: ref_root.simps)
  have r: "ref_root hx h (drop (2 ^ h) (level_above hx ds)) = ref_root hx (Suc h) (drop (2 ^ Suc h) ds)"
    if "\<not> length ds \<le> 2 ^ Suc h"
    using Suc that by (simp add: level_above_drop [symmetric] del: ref_root.simps)
  have "ref_root hx (Suc h) (level_above hx ds) =
      node_hash hx (ref_root hx (Suc h) (take (2 ^ Suc h) ds))
        (ref_root hx (Suc h) (if length ds \<le> 2 ^ Suc h then ds else drop (2 ^ Suc h) ds))"
    unfolding ref_root.simps(2) [of hx h "level_above hx ds"] len l
    using r Suc by (simp del: ref_root.simps)
  then show ?case by (simp only: ref_root.simps(2) [of hx "Suc h"])
qed

lemma root_ref: "ds \<noteq> [] \<Longrightarrow> hd (last (levels_of hx ds)) = ref_root hx (tree_height (length ds)) ds"
proof (induction hx ds rule: levels_of.induct)
  case (1 hx ds)
  show ?case
  proof (cases "length ds \<le> 1")
    case True
    then show ?thesis by (simp add: tree_height.simps)
  next
    case False
    then have "0 < length (level_above hx ds)" by simp
    then have "level_above hx ds \<noteq> []" by blast
    with 1 False have "hd (last (levels_of hx ds)) = ref_root hx (tree_height (Suc (length ds) div 2)) (level_above hx ds)"
      by (simp add: not_le)
    also have "\<dots> = ref_root hx (Suc (tree_height (Suc (length ds) div 2))) ds"
      by (rule ref_root_level [OF 1(2)])
    also have "Suc (tree_height (Suc (length ds) div 2)) = tree_height (length ds)"
      using False by (simp add: tree_height.simps [of "length ds"])
    finally show ?thesis .
  qed
qed

section \<open>Proofs of inclusion\<close>

lemma level_above_nth:
  "pos < length ds \<Longrightarrow> level_above hx ds ! (pos div 2) =
     (if pos mod 2 = 0 then node_hash hx (ds ! pos) (sibling ds pos) else node_hash hx (sibling ds pos) (ds ! pos))"
proof (induction hx ds arbitrary: pos rule: level_above.induct)
  case (3 hx a b ds)
  show ?case
  proof (cases "pos < 2")
    case True
    then have "pos = 0 \<or> pos = 1" by linarith
    then show ?thesis by (auto simp: sibling_def)
  next
    case False
    then obtain q where q: "pos = Suc (Suc q)" by (metis add_2_eq_Suc' le_Suc_ex add.commute not_less)
    then have "sibling (a # b # ds) pos = sibling ds q"
      by (cases q) (auto simp: sibling_def mod_Suc)
    with q 3 show ?thesis by (simp add: mod_Suc)
  qed
qed (simp_all add: sibling_def)

lemma of_nat_half: "p < 2 ^ 64 \<Longrightarrow> (of_nat p :: u64) div 2 = of_nat (p div 2) \<and> ((of_nat p :: u64) mod 2 = 0 \<longleftrightarrow> p mod 2 = 0)"
  by (auto simp: word_unat_eq_iff unat_div_distrib unat_mod_distrib unat_of_nat)

lemma fold_prove:
  "p < length ds \<Longrightarrow> length ds < 2 ^ 64 \<Longrightarrow>
     fold_proof hx (of_nat p) (ds ! p) (prove_loop p (butlast (levels_of hx ds))) = hd (last (levels_of hx ds))"
proof (induction hx ds arbitrary: p rule: levels_of.induct)
  case (1 hx ds)
  show ?case
  proof (cases "length ds \<le> 1")
    case True
    with 1 show ?thesis by (cases ds) auto
  next
    case False
    have "p div 2 < Suc (length ds) div 2" "Suc (length ds) div 2 < 2 ^ 64" using 1(2,3) by linarith+
    then have "fold_proof hx (of_nat (p div 2)) (level_above hx ds ! (p div 2))
        (prove_loop (p div 2) (butlast (levels_of hx (level_above hx ds)))) = hd (last (levels_of hx (level_above hx ds)))"
      using False by (intro 1(1)) simp_all
    moreover have "p < 2 ^ 64" using 1(2,3) by linarith
    ultimately show ?thesis
      using of_nat_half [of p] level_above_nth [OF 1(2), of hx] False by (simp add: not_le)
  qed
qed

lemma length_prove_loop [simp]: "length (prove_loop pos levels) = length levels"
  by (induction pos levels rule: prove_loop.induct) simp_all

section \<open>Binding\<close>

text \<open>
  The messages hashed while a proof is folded, and while a tree is built. A hash of fixed width has collisions, so
  binding is stated for a hash that has none among these messages.
\<close>

fun path_messages :: "'x hash_ext_scheme \<Rightarrow> u64 \<Rightarrow> digest \<Rightarrow> digest list \<Rightarrow> bytes set" where
  "path_messages hx pos cur [] = {}"
| "path_messages hx pos cur (s # ss) =
     (let m = (if pos mod 2 = 0 then node_message cur s else node_message s cur)
      in insert m (path_messages hx (pos div 2) (digest_of hx m) ss))"

fun level_messages :: "digest list \<Rightarrow> bytes set" where
  "level_messages [] = {}"
| "level_messages [a] = {node_message a a}"
| "level_messages (a # b # ds) = insert (node_message a b) (level_messages ds)"

definition tree_messages :: "'x hash_ext_scheme \<Rightarrow> digest list \<Rightarrow> bytes set" where
  "tree_messages hx leaves = \<Union> (level_messages ` set (butlast (levels_of hx leaves)))"

definition digests :: "digest list \<Rightarrow> bool" where
  "digests ds = list_all (\<lambda>d. length d = 32) ds"

definition hash_width :: "'x hash_ext_scheme \<Rightarrow> bool" where
  "hash_width hx \<longleftrightarrow> (\<forall>m. length (x_blake3 hx m) = 32)"

lemma inj_on_pair: "f a \<noteq> f b \<Longrightarrow> inj_on f {a, b}"
  by (auto simp: inj_on_def)

lemma node_message_inject:
  "length l = length l' \<Longrightarrow> node_message l r = node_message l' r' \<longleftrightarrow> l = l' \<and> r = r'"
  by (simp add: node_message_def)

lemma digests_simps [simp]: "digests []" "digests (d # ds) \<longleftrightarrow> length d = 32 \<and> digests ds"
  by (simp_all add: digests_def)

lemma digests_nth: "digests ds \<Longrightarrow> i < length ds \<Longrightarrow> length (ds ! i) = 32"
  by (simp add: digests_def list_all_length)

lemma hash_width_digest [simp]: "hash_width hx \<Longrightarrow> length (digest_of hx m) = 32"
  by (simp add: hash_width_def digest_of_def)

lemma digests_level_above: "hash_width hx \<Longrightarrow> digests (level_above hx ds)"
  by (induction hx ds rule: level_above.induct) (simp_all add: node_hash_def)

lemma digests_levels_of: "hash_width hx \<Longrightarrow> digests ds \<Longrightarrow> level \<in> set (levels_of hx ds) \<Longrightarrow> digests level"
proof (induction hx ds rule: levels_of.induct)
  case (1 hx ds)
  then show ?case by (cases "length ds \<le> 1") (auto simp: not_le digests_level_above)
qed

lemma sibling_digest: "digests level \<Longrightarrow> pos < length level \<Longrightarrow> length (sibling level pos) = 32"
  by (auto simp: sibling_def digests_nth)

lemma prove_loop_digests:
  "hash_width hx \<Longrightarrow> digests ds \<Longrightarrow> p < length ds \<Longrightarrow> digests (prove_loop p (butlast (levels_of hx ds)))"
proof (induction hx ds arbitrary: p rule: levels_of.induct)
  case (1 hx ds)
  show ?case
  proof (cases "length ds \<le> 1")
    case False
    have "p div 2 < length (level_above hx ds)" using 1(4) by simp
    with 1 False show ?thesis by (simp add: not_le sibling_digest digests_level_above)
  qed simp
qed

lemma fold_proof_inject:
  assumes "fold_proof hx pos c ss = fold_proof hx pos c' ss'" and "length ss = length ss'" and "hash_width hx"
    and "digests (c # ss)" and "digests (c' # ss')"
    and "inj_on (x_blake3 hx) (path_messages hx pos c ss \<union> path_messages hx pos c' ss')"
  shows "c = c' \<and> ss = ss'"
  using assms
proof (induction ss arbitrary: pos c ss' c')
  case (Cons s ss)
  from Cons.prems(2) obtain s' rest where ss': "ss' = s' # rest" by (cases ss') auto
  define m where "m = (if pos mod 2 = 0 then node_message c s else node_message s c)"
  define m' where "m' = (if pos mod 2 = 0 then node_message c' s' else node_message s' c')"
  have msgs: "path_messages hx pos c (s # ss) = insert m (path_messages hx (pos div 2) (digest_of hx m) ss)"
    "path_messages hx pos c' ss' = insert m' (path_messages hx (pos div 2) (digest_of hx m') rest)"
    by (simp_all only: path_messages.simps Let_def m_def m'_def ss')
  have folds: "fold_proof hx pos c (s # ss) = fold_proof hx (pos div 2) (digest_of hx m) ss"
    "fold_proof hx pos c' ss' = fold_proof hx (pos div 2) (digest_of hx m') rest"
    by (simp_all add: m_def m'_def ss' node_hash_def)
  have inj: "inj_on (x_blake3 hx) (path_messages hx (pos div 2) (digest_of hx m) ss \<union>
      path_messages hx (pos div 2) (digest_of hx m') rest)"
    using Cons.prems(6) unfolding msgs by (rule inj_on_subset) blast
  have same: "digest_of hx m = digest_of hx m' \<and> ss = rest"
    using Cons.IH [OF Cons.prems(1) [unfolded folds] _ Cons.prems(3) _ _ inj] Cons.prems(2-5) ss' by simp
  then have "x_blake3 hx m = x_blake3 hx m'" by (simp add: digest_of_def)
  then have "m = m'" by (rule inj_onD [OF Cons.prems(6) [unfolded msgs]]) blast+
  with same show ?case
    using Cons.prems(4,5) ss' unfolding m_def m'_def by (simp add: node_message_inject split: if_splits)
qed simp

lemma level_above_inject:
  assumes "level_above hx ds = level_above hx es" and "length ds = length es" and "digests ds" and "digests es"
    and "inj_on (x_blake3 hx) (level_messages ds \<union> level_messages es)"
  shows "ds = es"
  using assms
proof (induction hx ds arbitrary: es rule: level_above.induct)
  case (2 hx a)
  from 2(2) obtain b where es: "es = [b]" by (cases es) auto
  have "node_message a a = node_message b b"
    using 2(1) inj_onD [OF 2(5), of "node_message a a" "node_message b b"] es by (simp add: node_hash_def digest_of_def)
  with es 2 show ?case by (simp add: node_message_inject)
next
  case (3 hx a b ds)
  from 3(3) obtain c d es' where es: "es = c # d # es'" by (cases es; cases "tl es") auto
  have "node_message a b = node_message c d"
    using 3(2) inj_onD [OF 3(6), of "node_message a b" "node_message c d"] es by (simp add: node_hash_def digest_of_def)
  moreover have "ds = es'"
    using 3(1) [OF _ _ _ _ inj_on_subset [OF 3(6)], of es'] 3(2-5) es by auto
  ultimately show ?case using 3(4,5) es by (simp add: node_message_inject)
qed simp

lemma tree_messages_big:
  "1 < length ds \<Longrightarrow> tree_messages hx ds = level_messages ds \<union> tree_messages hx (level_above hx ds)"
  by (simp add: tree_messages_def)

lemma root_inject:
  assumes "hd (last (levels_of hx ds)) = hd (last (levels_of hx es))" and "length ds = length es" and "ds \<noteq> []"
    and "hash_width hx" and "digests ds" and "digests es"
    and "inj_on (x_blake3 hx) (tree_messages hx ds \<union> tree_messages hx es)"
  shows "ds = es"
  using assms
proof (induction hx ds arbitrary: es rule: levels_of.induct)
  case (1 hx ds)
  show ?case
  proof (cases "length ds \<le> 1")
    case True
    with 1 show ?thesis by (cases ds; cases es) auto
  next
    case False
    then have big: "1 < length ds" "1 < length es" using 1(3) by auto
    have "0 < length (level_above hx ds)" using big by simp
    then have "level_above hx ds \<noteq> []" by blast
    moreover have "inj_on (x_blake3 hx) (tree_messages hx (level_above hx ds) \<union> tree_messages hx (level_above hx es))"
      using big by (intro inj_on_subset [OF 1(8)]) (auto simp: tree_messages_big)
    ultimately have "level_above hx ds = level_above hx es"
      using 1(2-6) big False by (intro 1(1)) (simp_all add: digests_level_above)
    moreover have "inj_on (x_blake3 hx) (level_messages ds \<union> level_messages es)"
      using big by (intro inj_on_subset [OF 1(8)]) (auto simp: tree_messages_big)
    ultimately show ?thesis using 1(3,6,7) level_above_inject by blast
  qed
qed

section \<open>Guarantees\<close>

text \<open>Every leaf position of a built tree has a proof, and that proof verifies for the leaf stored there.\<close>

lemma prove_verifies:
  assumes "from_leaves hx leaves = Inr t" and "i < length leaves" and "length leaves < 2 ^ 64"
  shows "\<exists>p. prove_leaf t i = Inr p \<and> verify_inclusion hx (tree_root t) (leaves ! i) p = Inr ()"
proof -
  have t: "leaves \<noteq> []" "mt_levels t = levels_of hx leaves" using assms(1) by (simp_all add: from_leaves_levels)
  have n: "leaf_count t = length leaves" by (rule leaf_count_built [OF assms(1)])
  have un: "unat (of_nat (length leaves) :: u64) = length leaves" "unat (of_nat i :: u64) = i"
    using assms(2,3) by (simp_all add: unat_of_nat)
  then have "(of_nat (length leaves) :: u64) \<noteq> 0" "(of_nat i :: u64) < of_nat (length leaves)"
    using assms(2) by (auto simp: word_unat_eq_iff word_less_nat_alt)
  moreover have "length (prove_loop i (butlast (levels_of hx leaves))) = height (of_nat (length leaves))"
    using un by (simp add: height_nat length_levels_of)
  ultimately show ?thesis
    using assms(2) fold_prove [OF assms(2,3), of hx] t n
    by (simp add: prove_leaf_def verify_inclusion_def tree_root_def not_le)
qed

text \<open>A proof with the tree's leaf count verifies only for the leaf at its index, and only if it is the tree's own
  proof, provided no two different messages hashed while folding the two proofs collide.\<close>

lemma proof_binds_leaf:
  assumes "from_leaves hx leaves = Inr t" and "length leaves < 2 ^ 64" and "hash_width hx"
    and "digests leaves" and "digests (leaf # ip_siblings p)"
    and "verify_inclusion hx (tree_root t) leaf p = Inr ()" and "ip_leaf_count p = of_nat (length leaves)"
    and "prove_leaf t (unat (ip_leaf_index p)) = Inr own"
    and "inj_on (x_blake3 hx) (path_messages hx (ip_leaf_index p) leaf (ip_siblings p) \<union>
      path_messages hx (ip_leaf_index p) (leaves ! unat (ip_leaf_index p)) (ip_siblings own))"
  shows "leaf = leaves ! unat (ip_leaf_index p) \<and> p = own"
proof -
  let ?i = "unat (ip_leaf_index p)"
  have t: "mt_levels t = levels_of hx leaves" using assms(1) by (simp add: from_leaves_levels)
  have n: "leaf_count t = length leaves" by (rule leaf_count_built [OF assms(1)])
  have i: "?i < length leaves" and own: "own = \<lparr>ip_leaf_index = ip_leaf_index p, ip_leaf_count = of_nat (length leaves),
      ip_siblings = prove_loop ?i (butlast (levels_of hx leaves))\<rparr>"
    using assms(8) by (simp_all add: prove_leaf_def n t split: if_splits)
  have v: "length (ip_siblings p) = height (of_nat (length leaves))"
    "fold_proof hx (ip_leaf_index p) leaf (ip_siblings p) = tree_root t"
    using assms(6,7) by (simp_all add: verify_inclusion_def split: if_splits)
  have "fold_proof hx (ip_leaf_index p) leaf (ip_siblings p) =
      fold_proof hx (ip_leaf_index p) (leaves ! ?i) (ip_siblings own)"
    using fold_prove [OF i assms(2), of hx] v(2) by (simp add: own tree_root_def t)
  moreover have "length (ip_siblings p) = length (ip_siblings own)"
    using v(1) assms(2) by (simp add: own height_nat length_levels_of unat_of_nat)
  moreover have "digests (leaves ! ?i # ip_siblings own)"
    using prove_loop_digests [OF assms(3,4) i] digests_nth [OF assms(4) i] by (simp add: own)
  ultimately have "leaf = leaves ! ?i \<and> ip_siblings p = ip_siblings own"
    using fold_proof_inject [OF _ _ assms(3,5) _ assms(9)] by blast
  with own assms(7) show ?thesis by simp
qed

text \<open>C20: Building a tree over any non-empty list of leaves ends, after the least number of rounds \<open>h\<close> with
  \<open>n \<le> 2^h\<close>: the first level is the leaves, the last is a single node, and \<open>h\<close> is the height that verification computes
  from the leaf count in 64-bit arithmetic.\<close>

theorem merkle_build_terminates:
  assumes "leaves \<noteq> []" and "length leaves < 2 ^ 64"
  shows "\<exists>t. from_leaves hx leaves = Inr t \<and> hd (mt_levels t) = leaves \<and> length (last (mt_levels t)) = 1 \<and>
    length (mt_levels t) = Suc (height (of_nat (length leaves))) \<and>
    length leaves \<le> 2 ^ height (of_nat (length leaves)) \<and>
    (1 < length leaves \<longrightarrow> 2 ^ height (of_nat (length leaves)) < 2 * length leaves)"
proof -
  have "height (of_nat (length leaves)) = tree_height (length leaves)"
    using assms(2) by (simp add: height_nat unat_of_nat)
  then show ?thesis
    using assms(1) tree_height_bounds [of "length leaves"]
    by (simp add: from_leaves_levels length_levels_of last_levels_of)
qed

text \<open>A hash of width 32, and three leaves among whose messages it has no collision.\<close>

definition plain_hash :: hash_ext where
  "plain_hash = \<lparr>x_blake3 = (\<lambda>m. take 32 (rev m @ replicate 32 (CHR ''0''))), x_hex_encode = (\<lambda>d. d), x_hex_decode = Inr\<rparr>"

definition plain_leaves :: "digest list" where
  "plain_leaves = [replicate 32 (CHR ''a''), replicate 32 (CHR ''b''), replicate 32 (CHR ''c'')]"

theorem merkle_build_terminates_witness:
  "\<exists>t. from_leaves plain_hash plain_leaves = Inr t \<and> length (mt_levels t) = 3"
proof -
  have "height (of_nat (length plain_leaves)) = 2" by code_simp
  then show ?thesis using merkle_build_terminates [of plain_leaves plain_hash] by (auto simp: plain_leaves_def)
qed

text \<open>C19: The level-by-level root is the root of the recursive reference tree of that height.\<close>

theorem merkle_root_reference:
  assumes "leaves \<noteq> []" and "length leaves < 2 ^ 64"
  shows "root_of hx leaves = Inr (ref_root hx (height (of_nat (length leaves))) leaves)"
  using assms by (simp add: root_of_levels root_ref height_nat unat_of_nat)

theorem merkle_root_reference_witness:
  "root_of plain_hash plain_leaves = Inr (ref_root plain_hash 2 plain_leaves)"
proof -
  have "height (of_nat (length plain_leaves)) = 2" by code_simp
  then show ?thesis using merkle_root_reference [of plain_leaves plain_hash] by (simp add: plain_leaves_def)
qed

end
