(* ===== verification/Audit_Batch.thy ===== *)
theory Audit_Batch
  imports Ledger_Records Merkle_Tree
begin

text \<open>
  Audit batches over ordered ledger events: \<^verbatim>\<open>crates/application/src/audit_batch.rs\<close>. A batch commits a
  contiguous run of events to one Merkle root and names the root of the batch before it. The signer slot of the
  builder is an uninhabited type in the source, so the builder here holds only the previous root.
\<close>

section \<open>Records\<close>

record audit_batch =
  ab_schema_version :: string
  ab_audit_batch_id :: string
  ab_first_sequence :: u64
  ab_last_sequence :: u64
  ab_previous_root :: string
  ab_merkle_root :: string
  ab_signer :: string
  ab_external_anchor_receipt :: string

definition AUDIT_BATCH_SCHEMA_VERSION :: string where
  "AUDIT_BATCH_SCHEMA_VERSION = ''v1alpha1''"

definition AUDIT_BATCH_ID_PREFIX :: string where
  "AUDIT_BATCH_ID_PREFIX = ''audit-batch''"

definition GENESIS_PREVIOUS_ROOT :: string where
  "GENESIS_PREVIOUS_ROOT = ''0000000000000000000000000000000000000000000000000000000000000000''"

definition UNSIGNED_SIGNER :: string where
  "UNSIGNED_SIGNER = ''unsigned''"

definition UNANCHORED_RECEIPT :: string where
  "UNANCHORED_RECEIPT = ''unanchored''"

definition EVENT_LEAF_DOMAIN :: bytes where
  "EVENT_LEAF_DOMAIN = ''bullet-kernel.audit-batch.ledger-event.v1''"

definition BATCH_ID_DOMAIN :: bytes where
  "BATCH_ID_DOMAIN = ''bullet-kernel.audit-batch.id.v1''"

datatype audit_batch_error =
    AbEmpty
  | AbLeafOrder nat u64 u64
  | AbSequenceGap u64 u64
  | AbTruncated u64 u64
  | AbRangeMismatch u64 u64 u64 u64
  | AbRangeInvalid u64 u64
  | AbSchemaVersion string
  | AbSignerUnsupported string
  | AbAnchorUnsupported string
  | AbMalformedRoot string
  | AbRootMismatch string string
  | AbIdMismatch string string
  | AbPreviousRootMismatch nat string string
  | AbChainShape nat nat
  | AbMerkle merkle_error

fun audit_reason_code :: "audit_batch_error \<Rightarrow> string" where
  "audit_reason_code AbEmpty = ''AUDIT_BATCH_EMPTY''"
| "audit_reason_code (AbLeafOrder _ _ _) = ''AUDIT_LEAF_ORDER''"
| "audit_reason_code (AbSequenceGap _ _) = ''AUDIT_SEQUENCE_GAP''"
| "audit_reason_code (AbTruncated _ _) = ''AUDIT_BATCH_TRUNCATED''"
| "audit_reason_code (AbRangeMismatch _ _ _ _) = ''AUDIT_RANGE_MISMATCH''"
| "audit_reason_code (AbRangeInvalid _ _) = ''AUDIT_RANGE_INVALID''"
| "audit_reason_code (AbSchemaVersion _) = ''AUDIT_SCHEMA_VERSION''"
| "audit_reason_code (AbSignerUnsupported _) = ''AUDIT_SIGNER_UNSUPPORTED''"
| "audit_reason_code (AbAnchorUnsupported _) = ''AUDIT_ANCHOR_UNSUPPORTED''"
| "audit_reason_code (AbMalformedRoot _) = ''AUDIT_ROOT_MALFORMED''"
| "audit_reason_code (AbRootMismatch _ _) = ''AUDIT_ROOT_MISMATCH''"
| "audit_reason_code (AbIdMismatch _ _) = ''AUDIT_BATCH_ID_MISMATCH''"
| "audit_reason_code (AbPreviousRootMismatch _ _ _) = ''AUDIT_PREVIOUS_ROOT_MISMATCH''"
| "audit_reason_code (AbChainShape _ _) = ''AUDIT_CHAIN_SHAPE''"
| "audit_reason_code (AbMerkle e) = merkle_reason_code e"

record audit_batch_builder =
  bb_previous_root :: string

record audit_chain_head =
  ah_batch_count :: nat
  ah_head_root :: string
  ah_last_sequence :: u64

section \<open>Leaves and identifiers\<close>

definition event_payload :: "ledger_event \<Rightarrow> bytes" where
  "event_payload e =
     frame EVENT_LEAF_DOMAIN @ frame (le_bytes (le_seq e)) @ frame (le_at e) @ frame (le_kind e) @ frame (le_body e)
     @ frame_text (le_event_id e) @ frame_text (le_stream_id e) @ frame_text (map_option show_u (le_sequence e))
     @ frame_text (le_causation_id e) @ frame_text (le_correlation_id e) @ frame_text (le_authority_token_hash e)"

definition event_leaf :: "'x hash_ext_scheme \<Rightarrow> ledger_event \<Rightarrow> digest" where
  "event_leaf hx e = leaf_hash hx (event_payload e)"

definition event_leaves :: "'x hash_ext_scheme \<Rightarrow> ledger_event list \<Rightarrow> digest list" where
  "event_leaves hx events = map (event_leaf hx) events"

definition batch_id :: "'x hash_ext_scheme \<Rightarrow> string \<Rightarrow> string \<Rightarrow> u64 \<Rightarrow> u64 \<Rightarrow> string" where
  "batch_id hx previous_root merkle_root lo hi =
     AUDIT_BATCH_ID_PREFIX @ ''_'' @ to_hex hx (digest_of hx
       (frame BATCH_ID_DOMAIN @ frame previous_root @ frame merkle_root @ frame (le_bytes lo) @ frame (le_bytes hi)))"

section \<open>Validation\<close>

definition validate_root :: "'x hash_ext_scheme \<Rightarrow> string \<Rightarrow> string \<Rightarrow> audit_batch_error + digest" where
  "validate_root hx field value =
     (if \<not> is_hex_64 value then Err (AbMalformedRoot field)
      else map_err (\<lambda>_. AbMalformedRoot field) (from_hex hx value))"

definition validate_record :: "'x hash_ext_scheme \<Rightarrow> audit_batch \<Rightarrow> audit_batch_error + unit" where
  "validate_record hx b =
     (if ab_schema_version b \<noteq> AUDIT_BATCH_SCHEMA_VERSION then Err (AbSchemaVersion (ab_schema_version b))
      else if ab_signer b \<noteq> UNSIGNED_SIGNER then Err (AbSignerUnsupported (ab_signer b))
      else if ab_external_anchor_receipt b \<noteq> UNANCHORED_RECEIPT then
        Err (AbAnchorUnsupported (ab_external_anchor_receipt b))
      else
        res_bind (validate_root hx ''previous_root'' (ab_previous_root b)) (\<lambda>_.
        res_bind (validate_root hx ''merkle_root'' (ab_merkle_root b)) (\<lambda>_.
        if ab_last_sequence b < ab_first_sequence b then Err (AbRangeInvalid (ab_first_sequence b) (ab_last_sequence b))
        else Ok ())))"

text \<open>The two passes over \<open>events.windows(2)\<close>: every order violation is reported before any gap.\<close>

fun check_order :: "nat \<Rightarrow> ledger_event list \<Rightarrow> audit_batch_error + unit" where
  "check_order i (a # b # es) =
     (if le_seq b \<le> le_seq a then Err (AbLeafOrder i (le_seq a) (le_seq b)) else check_order (Suc i) (b # es))"
| "check_order i es = Ok ()"

fun check_gaps :: "ledger_event list \<Rightarrow> audit_batch_error + unit" where
  "check_gaps (a # b # es) =
     (if le_seq b \<noteq> le_seq a + 1 then Err (AbSequenceGap (le_seq a + 1) (le_seq b)) else check_gaps (b # es))"
| "check_gaps es = Ok ()"

definition contiguous_range :: "ledger_event list \<Rightarrow> audit_batch_error + u64 \<times> u64" where
  "contiguous_range events =
     (if events = [] then Err AbEmpty
      else
        res_bind (check_order 1 events) (\<lambda>_.
        res_bind (check_gaps events) (\<lambda>_.
          Ok (le_seq (hd events), le_seq (last events)))))"

text \<open>On a 64-bit target the conversion of the offset to \<open>usize\<close> never fails.\<close>

definition batch_position :: "audit_batch \<Rightarrow> u64 \<Rightarrow> audit_batch_error + nat" where
  "batch_position b seq =
     (if seq < ab_first_sequence b \<or> ab_last_sequence b < seq then
        Err (AbRangeMismatch (ab_first_sequence b) (ab_last_sequence b) seq seq)
      else Ok (unat (seq - ab_first_sequence b)))"

section \<open>Building and verifying\<close>

definition builder_genesis :: audit_batch_builder where
  "builder_genesis = \<lparr>bb_previous_root = GENESIS_PREVIOUS_ROOT\<rparr>"

definition with_previous_root :: "'x hash_ext_scheme \<Rightarrow> string \<Rightarrow> audit_batch_error + audit_batch_builder" where
  "with_previous_root hx previous_root =
     res_bind (validate_root hx ''previous_root'' previous_root) (\<lambda>_. Ok \<lparr>bb_previous_root = previous_root\<rparr>)"

definition builder_after :: "'x hash_ext_scheme \<Rightarrow> audit_batch \<Rightarrow> audit_batch_error + audit_batch_builder" where
  "builder_after hx previous = with_previous_root hx (ab_merkle_root previous)"

definition build_batch ::
    "'x hash_ext_scheme \<Rightarrow> audit_batch_builder \<Rightarrow> ledger_event list \<Rightarrow> audit_batch_error + audit_batch" where
  "build_batch hx bld events =
     res_bind (contiguous_range events) (\<lambda>(lo, hi).
     res_bind (map_err AbMerkle (root_of hx (event_leaves hx events))) (\<lambda>d.
     let root = to_hex hx d in
     Ok \<lparr>ab_schema_version = AUDIT_BATCH_SCHEMA_VERSION,
         ab_audit_batch_id = batch_id hx (bb_previous_root bld) root lo hi,
         ab_first_sequence = lo, ab_last_sequence = hi, ab_previous_root = bb_previous_root bld,
         ab_merkle_root = root, ab_signer = UNSIGNED_SIGNER, ab_external_anchor_receipt = UNANCHORED_RECEIPT\<rparr>))"

definition verify_batch :: "'x hash_ext_scheme \<Rightarrow> audit_batch \<Rightarrow> ledger_event list \<Rightarrow> audit_batch_error + unit" where
  "verify_batch hx b events =
     res_bind (validate_record hx b) (\<lambda>_.
     res_bind (contiguous_range events) (\<lambda>(leaf_first, leaf_last).
     let expected = ab_last_sequence b - ab_first_sequence b + 1;
         found = of_nat (length events)
     in
     if leaf_first = ab_first_sequence b \<and> found < expected then Err (AbTruncated expected found)
     else if leaf_first \<noteq> ab_first_sequence b \<or> leaf_last \<noteq> ab_last_sequence b then
       Err (AbRangeMismatch (ab_first_sequence b) (ab_last_sequence b) leaf_first leaf_last)
     else
       res_bind (map_err AbMerkle (root_of hx (event_leaves hx events))) (\<lambda>d.
       let computed = to_hex hx d in
       if computed \<noteq> ab_merkle_root b then Err (AbRootMismatch (ab_merkle_root b) computed)
       else
         let i = batch_id hx (ab_previous_root b) (ab_merkle_root b) (ab_first_sequence b) (ab_last_sequence b) in
         if i \<noteq> ab_audit_batch_id b then Err (AbIdMismatch (ab_audit_batch_id b) i)
         else Ok ())))"

text \<open>The loop of \<open>verify_chain_from\<close>; \<open>last_sequence + 1\<close> wraps as in a release build.\<close>

fun chain_loop ::
    "'x hash_ext_scheme \<Rightarrow> nat \<Rightarrow> string \<Rightarrow> u64 option \<Rightarrow> (audit_batch \<times> ledger_event list) list \<Rightarrow>
     audit_batch_error + unit" where
  "chain_loop hx index expected_root next_sequence [] = Ok ()"
| "chain_loop hx index expected_root next_sequence ((b, leaves) # rest) =
     res_bind (verify_batch hx b leaves) (\<lambda>_.
     if ab_previous_root b \<noteq> expected_root then
       Err (AbPreviousRootMismatch index expected_root (ab_previous_root b))
     else
       res_bind
         (case next_sequence of
            None \<Rightarrow> Ok ()
          | Some expected \<Rightarrow>
              if ab_first_sequence b < expected then Err (AbLeafOrder index (expected - 1) (ab_first_sequence b))
              else if expected < ab_first_sequence b then Err (AbSequenceGap expected (ab_first_sequence b))
              else Ok ()) (\<lambda>_.
       chain_loop hx (Suc index) (ab_merkle_root b) (Some (ab_last_sequence b + 1)) rest))"

definition verify_chain_from ::
    "'x hash_ext_scheme \<Rightarrow> string \<Rightarrow> audit_batch list \<Rightarrow> ledger_event list list \<Rightarrow> audit_batch_error + audit_chain_head" where
  "verify_chain_from hx head_root batches leaves_by_batch =
     res_bind (validate_root hx ''head_root'' head_root) (\<lambda>_.
     if length batches \<noteq> length leaves_by_batch then
       Err (AbChainShape (length batches) (length leaves_by_batch))
     else
       res_bind (chain_loop hx 0 head_root None (zip batches leaves_by_batch)) (\<lambda>_.
       if batches = [] then Err AbEmpty
       else Ok \<lparr>ah_batch_count = length batches, ah_head_root = ab_merkle_root (last batches),
               ah_last_sequence = ab_last_sequence (last batches)\<rparr>))"

definition verify_chain ::
    "'x hash_ext_scheme \<Rightarrow> audit_batch list \<Rightarrow> ledger_event list list \<Rightarrow> audit_batch_error + audit_chain_head" where
  "verify_chain hx batches leaves_by_batch = verify_chain_from hx GENESIS_PREVIOUS_ROOT batches leaves_by_batch"

definition prove_event ::
    "'x hash_ext_scheme \<Rightarrow> audit_batch \<Rightarrow> ledger_event list \<Rightarrow> u64 \<Rightarrow> audit_batch_error + inclusion_proof" where
  "prove_event hx b events seq =
     res_bind (verify_batch hx b events) (\<lambda>_.
     res_bind (batch_position b seq) (\<lambda>index.
     res_bind (map_err AbMerkle (from_leaves hx (event_leaves hx events))) (\<lambda>t.
       map_err AbMerkle (prove_leaf t index))))"

definition verify_event_inclusion ::
    "'x hash_ext_scheme \<Rightarrow> audit_batch \<Rightarrow> ledger_event \<Rightarrow> inclusion_proof \<Rightarrow> audit_batch_error + unit" where
  "verify_event_inclusion hx b e p =
     res_bind (validate_record hx b) (\<lambda>_.
     res_bind (batch_position b (le_seq e)) (\<lambda>index.
     let leaf_count = ab_last_sequence b - ab_first_sequence b + 1 in
     if ip_leaf_index p \<noteq> of_nat index \<or> ip_leaf_count p \<noteq> leaf_count then
       Err (AbRangeMismatch (ab_first_sequence b) (ab_last_sequence b)
         (ab_first_sequence b + ip_leaf_index p)
         (ab_first_sequence b + saturating_sub (ip_leaf_count p) 1))
     else
       res_bind (validate_root hx ''merkle_root'' (ab_merkle_root b)) (\<lambda>root.
         map_err AbMerkle (verify_inclusion hx root (event_leaf hx e) p))))"

section \<open>Contiguous runs\<close>

text \<open>The sequence numbers of a run, read as natural numbers.\<close>

definition run_from :: "nat \<Rightarrow> ledger_event list \<Rightarrow> bool" where
  "run_from n es \<longleftrightarrow> map (\<lambda>e. unat (le_seq e)) es = [n ..< n + length es]"

lemma run_from_simps [simp]:
  "run_from n []"
  "run_from n (e # es) \<longleftrightarrow> unat (le_seq e) = n \<and> run_from (Suc n) es"
proof -
  have "[n ..< n + length (e # es)] = n # [Suc n ..< Suc n + length es]" by (subst upt_conv_Cons) simp_all
  then show "run_from n (e # es) \<longleftrightarrow> unat (le_seq e) = n \<and> run_from (Suc n) es"
    unfolding run_from_def by (simp del: upt_Suc)
qed (simp add: run_from_def)

lemma run_from_append: "run_from n (es @ fs) \<longleftrightarrow> run_from n es \<and> run_from (n + length es) fs"
  by (induction es arbitrary: n) simp_all

lemma run_from_nth: "run_from n es \<Longrightarrow> i < length es \<Longrightarrow> unat (le_seq (es ! i)) = n + i"
  unfolding run_from_def by (metis add_less_cancel_left length_map nth_map nth_upt)

lemma next_sequence_iff: "(b :: u64) = a + 1 \<and> a < b \<longleftrightarrow> unat b = Suc (unat a)"
proof
  assume b: "b = a + 1 \<and> a < b"
  then have "unat a + 1 < 2 ^ 64"
    using u64_less [of a] by (cases "unat a + 1 = 2 ^ 64") (auto simp: word_less_nat_alt unat_word_ariths)
  with b show "unat b = Suc (unat a)" by (simp add: unat_word_ariths)
next
  assume b: "unat b = Suc (unat a)"
  with u64_less [of b] have "unat b = unat (a + 1)" by (simp add: unat_word_ariths)
  with b show "b = a + 1 \<and> a < b" by (simp add: word_unat_eq_iff word_less_nat_alt)
qed

lemma checks_run:
  "check_order i (e # es) = Inr () \<and> check_gaps (e # es) = Inr () \<longleftrightarrow> run_from (unat (le_seq e)) (e # es)"
proof (induction es arbitrary: e i)
  case (Cons b es)
  have "check_order i (e # b # es) = Inr () \<and> check_gaps (e # b # es) = Inr () \<longleftrightarrow>
      (le_seq b = le_seq e + 1 \<and> le_seq e < le_seq b) \<and> check_order (Suc i) (b # es) = Inr () \<and> check_gaps (b # es) = Inr ()"
    by (auto simp: not_le)
  also have "\<dots> \<longleftrightarrow> run_from (unat (le_seq e)) (e # b # es)"
    unfolding next_sequence_iff Cons by auto
  finally show ?case .
qed simp

lemma contiguous_range_iff:
  "contiguous_range es = Inr (lo, hi) \<longleftrightarrow>
     es \<noteq> [] \<and> run_from (unat lo) es \<and> unat hi + 1 = unat lo + length es"
proof (cases es)
  case (Cons e rest)
  have last: "unat (le_seq (last es)) + 1 = n + length es" if "run_from n es" for n
  proof -
    have "es \<noteq> []" using Cons by simp
    then show ?thesis using run_from_nth [OF that, of "length es - 1"] by (simp add: last_conv_nth Suc_leI)
  qed
  have "contiguous_range es = Inr (lo, hi) \<longleftrightarrow>
      run_from (unat (le_seq e)) es \<and> lo = le_seq e \<and> hi = le_seq (last es)"
    using checks_run [of 1 e rest] by (auto simp: contiguous_range_def Cons res_bind_Ok_iff)
  also have "\<dots> \<longleftrightarrow> es \<noteq> [] \<and> run_from (unat lo) es \<and> unat hi + 1 = unat lo + length es"
    using Cons last [of "unat lo"] by (auto simp: word_unat_eq_iff)
  finally show ?thesis .
qed (simp add: contiguous_range_def)

lemma range_length:
  assumes "unat hi + 1 = unat lo + length es"
  shows "of_nat (length es) = hi - lo + (1 :: u64)"
proof -
  have "(of_nat (unat hi + 1) :: u64) = of_nat (unat lo + length es)" using assms by simp
  then show ?thesis by (simp add: algebra_simps)
qed

lemma verify_batch_iff:
  "verify_batch hx b es = Inr () \<longleftrightarrow>
     validate_record hx b = Inr () \<and> contiguous_range es = Inr (ab_first_sequence b, ab_last_sequence b) \<and>
     (\<exists>d. root_of hx (event_leaves hx es) = Inr d \<and> ab_merkle_root b = to_hex hx d) \<and>
     ab_audit_batch_id b = batch_id hx (ab_previous_root b) (ab_merkle_root b) (ab_first_sequence b) (ab_last_sequence b)"
proof -
  have len: "of_nat (length es) = ab_last_sequence b - ab_first_sequence b + 1"
    if "contiguous_range es = Inr (ab_first_sequence b, ab_last_sequence b)"
    using that unfolding contiguous_range_iff by (intro range_length) blast
  show ?thesis
  proof (cases "contiguous_range es = Inr (ab_first_sequence b, ab_last_sequence b)")
    case True
    then show ?thesis
      using len [OF True] unfolding verify_batch_def by (auto simp: res_bind_Ok_iff Let_def)
  next
    case False
    then show ?thesis unfolding verify_batch_def by (auto simp: res_bind_Ok_iff Let_def split: if_splits)
  qed
qed

end
