(* ===== verification/Audit_Guarantees.thy ===== *)
theory Audit_Guarantees
  imports Audit_Batch
begin

text \<open>
  What an audit batch and a chain of batches promise: a batch binds its events, its inclusion proofs are complete
  and cannot be forged, and a verified chain is one uninterrupted run. The hex crate is assumed to encode
  32 bytes as 64 lowercase digits and to read back what it wrote.
\<close>

section \<open>Laws of the hex crate, and a concrete hash\<close>

definition hex_laws :: "'x hash_ext_scheme \<Rightarrow> bool" where
  "hex_laws hx \<longleftrightarrow> (\<forall>d. length d = 32 \<longrightarrow> is_hex_64 (x_hex_encode hx d) \<and> x_hex_decode hx (x_hex_encode hx d) = Inr d) \<and>
     (\<forall>t. is_hex_64 t \<longrightarrow> (\<exists>d. x_hex_decode hx t = Inr d \<and> length d = 32))"

definition hex_value :: "char \<Rightarrow> nat" where
  "hex_value c = (if is_ascii_digit c then of_char c - 48 else of_char c - 87)"

text \<open>
  A hash of width 32 that keeps the domain of a message and its last bytes, with lowercase hex, and two events among
  whose messages it has no collision. The examples below evaluate the model on them.
\<close>

fun unhex :: "string \<Rightarrow> bytes" where
  "unhex (a # b # cs) = char_of (16 * hex_value a + hex_value b) # unhex cs"
| "unhex _ = []"

definition audit_hash :: hash_ext where
  "audit_hash = \<lparr>x_blake3 = (\<lambda>m. (if 35 < length m then m ! 35 else CHR ''0'') # take 31 (rev m @ replicate 31 (CHR ''0''))),
     x_hex_encode = (\<lambda>d. concat (map (\<lambda>c. [hex_digit (of_char c div 16), hex_digit (of_char c mod 16)]) d)),
     x_hex_decode = (\<lambda>t. if list_all is_lower_hex t \<and> even (length t) then Inr (unhex t) else Inl ''invalid hex'')\<rparr>"

definition plain_event :: "u64 \<Rightarrow> char \<Rightarrow> ledger_event" where
  "plain_event n c = \<lparr>le_seq = n, le_at = ''t'', le_kind = ''k'', le_body = ''b'', le_event_id = None, le_stream_id = None,
     le_sequence = Some n, le_causation_id = None, le_correlation_id = None,
     le_authority_token_hash = Some (replicate 32 c)\<rparr>"

definition plain_events :: "ledger_event list" where
  "plain_events = [plain_event 1 (CHR ''x''), plain_event 2 (CHR ''y'')]"

definition plain_batch :: audit_batch where
  "plain_batch = projr (build_batch audit_hash builder_genesis plain_events)"

lemma hex_digit_value: "n < 16 \<Longrightarrow> hex_value (hex_digit n) = n \<and> is_lower_hex (hex_digit n)"
  by (auto simp: hex_digit_def hex_value_def is_lower_hex_def is_ascii_digit_def)

lemma unhex_encode:
  "unhex (concat (map (\<lambda>c. [hex_digit (of_char c div 16), hex_digit (of_char c mod 16)]) d)) = d"
proof (induction d)
  case (Cons c d)
  have "(of_char c :: nat) < 256" by (simp add: nat_of_char_less_256)
  then have "16 * hex_value (hex_digit (of_char c div 16)) + hex_value (hex_digit (of_char c mod 16)) = (of_char c :: nat)"
    using hex_digit_value [of "of_char c div 16"] hex_digit_value [of "of_char c mod 16"] by (simp add: less_mult_imp_div_less)
  with Cons show ?case by simp
qed simp

lemma encode_hex:
  "list_all is_lower_hex (concat (map (\<lambda>c. [hex_digit (of_char c div 16), hex_digit (of_char c mod 16)]) d)) \<and>
   length (concat (map (\<lambda>c. [hex_digit (of_char c div 16), hex_digit (of_char c mod 16)]) d)) = 2 * length d"
proof (induction d)
  case (Cons c d)
  have "(of_char c :: nat) < 256" by (simp add: nat_of_char_less_256)
  with Cons show ?case
    using hex_digit_value [of "of_char c div 16"] hex_digit_value [of "of_char c mod 16"] by (simp add: less_mult_imp_div_less)
qed simp

lemma length_unhex: "even (length t) \<Longrightarrow> length (unhex t) = length t div 2"
  by (induction t rule: unhex.induct) auto

lemma audit_hash_laws: "hash_width audit_hash" "hex_laws audit_hash"
proof -
  show "hash_width audit_hash" by (auto simp: hash_width_def audit_hash_def)
  show "hex_laws audit_hash"
    using encode_hex length_unhex by (auto simp: hex_laws_def audit_hash_def is_hex_64_def unhex_encode)
qed

section \<open>The encoding of an event\<close>

definition small :: "string \<Rightarrow> bool" where
  "small t \<longleftrightarrow> length t < 2 ^ 64"

definition event_small :: "ledger_event \<Rightarrow> bool" where
  "event_small e \<longleftrightarrow> small (le_at e) \<and> small (le_kind e) \<and> small (le_body e) \<and>
     pred_option small (le_event_id e) \<and> pred_option small (le_stream_id e) \<and> pred_option small (le_causation_id e) \<and>
     pred_option small (le_correlation_id e) \<and> pred_option small (le_authority_token_hash e)"

lemma frame_text_append_inject:
  assumes "frame_text a @ x = frame_text b @ y" and "pred_option small a" and "pred_option small b"
  shows "a = b \<and> x = y"
proof (cases a; cases b)
  fix s t
  assume ab: "a = Some s" "b = Some t"
  with assms have "frame s @ x = frame t @ y" "length s < 2 ^ 64" "length t < 2 ^ 64" by (simp_all add: small_def)
  then show ?thesis using frame_append_inject ab by blast
qed (use assms in auto)

lemma length_show_nat: "length (show_nat n) \<le> max 1 n"
proof (induction n rule: show_nat.induct)
  case (1 n)
  show ?case
  proof (cases "n < 10")
    case False
    then have "length (show_nat n) = Suc (length (show_nat (n div 10)))" by (subst show_nat.simps) simp
    with 1 False show ?thesis by simp
  qed (subst show_nat.simps, simp)
qed

lemma small_show_u: "small (show_u (w :: u64))"
  using length_show_nat [of "unat w"] u64_less [of w] by (simp add: small_def show_u_def)

lemma event_payload_inject:
  assumes eq: "event_payload e = event_payload f" and e: "event_small e" and f: "event_small f"
  shows "e = f"
proof -
  note step = frame_append_inject
  note opt = frame_text_append_inject
  have sm: "pred_option small (map_option show_u (s :: u64 option))" for s
    using small_show_u by (cases s) simp_all
  define r5 where "r5 g = frame_text (le_event_id g) @ frame_text (le_stream_id g) @ frame_text (map_option show_u (le_sequence g))
     @ frame_text (le_causation_id g) @ frame_text (le_correlation_id g) @ frame_text (le_authority_token_hash g)" for g :: ledger_event
  have "frame (le_bytes (le_seq e)) @ frame (le_at e) @ frame (le_kind e) @ frame (le_body e) @ r5 e =
      frame (le_bytes (le_seq f)) @ frame (le_at f) @ frame (le_kind f) @ frame (le_body f) @ r5 f"
    using eq by (simp add: event_payload_def r5_def)
  then have "le_bytes (le_seq e) = le_bytes (le_seq f) \<and> frame (le_at e) @ frame (le_kind e) @ frame (le_body e) @ r5 e =
      frame (le_at f) @ frame (le_kind f) @ frame (le_body f) @ r5 f"
    by (rule step) simp_all
  moreover from calculation have "le_at e = le_at f \<and> frame (le_kind e) @ frame (le_body e) @ r5 e =
      frame (le_kind f) @ frame (le_body f) @ r5 f"
    using e f by (intro step) (auto simp: event_small_def small_def)
  moreover from calculation have "le_kind e = le_kind f \<and> frame (le_body e) @ r5 e = frame (le_body f) @ r5 f"
    using e f by (intro step) (auto simp: event_small_def small_def)
  moreover from calculation have "le_body e = le_body f \<and> r5 e = r5 f"
    using e f by (intro step) (auto simp: event_small_def small_def)
  ultimately have head: "le_seq e = le_seq f" "le_at e = le_at f" "le_kind e = le_kind f" "le_body e = le_body f"
    and tail: "r5 e = r5 f" by simp_all
  define r8 where "r8 g = frame_text (le_causation_id g) @ frame_text (le_correlation_id g) @ frame_text (le_authority_token_hash g)" for g :: ledger_event
  have "le_event_id e = le_event_id f \<and> frame_text (le_stream_id e) @ frame_text (map_option show_u (le_sequence e)) @ r8 e =
      frame_text (le_stream_id f) @ frame_text (map_option show_u (le_sequence f)) @ r8 f"
    using tail e f by (intro opt) (auto simp: r5_def r8_def event_small_def)
  moreover from calculation have "le_stream_id e = le_stream_id f \<and> frame_text (map_option show_u (le_sequence e)) @ r8 e =
      frame_text (map_option show_u (le_sequence f)) @ r8 f"
    using e f by (intro opt) (auto simp: event_small_def)
  moreover from calculation have "map_option show_u (le_sequence e) = map_option show_u (le_sequence f) \<and> r8 e = r8 f"
    using sm by (intro opt) auto
  moreover from calculation have "le_causation_id e = le_causation_id f \<and>
      frame_text (le_correlation_id e) @ frame_text (le_authority_token_hash e) =
      frame_text (le_correlation_id f) @ frame_text (le_authority_token_hash f)"
    using e f by (intro opt) (auto simp: r8_def event_small_def)
  moreover from calculation have "le_correlation_id e = le_correlation_id f \<and>
      frame_text (le_authority_token_hash e) @ [] = frame_text (le_authority_token_hash f) @ []"
    using e f by (intro opt) (auto simp: event_small_def)
  moreover from calculation have "le_authority_token_hash e = le_authority_token_hash f"
    using e f opt [of "le_authority_token_hash e" "[]" "le_authority_token_hash f" "[]"] by (auto simp: event_small_def)
  moreover have "le_sequence e = le_sequence f" if "map_option show_u (le_sequence e) = map_option show_u (le_sequence f)"
    using that by (cases "le_sequence e"; cases "le_sequence f") simp_all
  ultimately show ?thesis using head by simp
qed

lemma leaf_message_inject: "leaf_message p = leaf_message q \<longleftrightarrow> p = q"
  by (auto simp: leaf_message_def frame_def)

section \<open>Binding\<close>

text \<open>Every message hashed for a list of events: one per leaf, and those of the tree.\<close>

definition audit_messages :: "'x hash_ext_scheme \<Rightarrow> ledger_event list \<Rightarrow> bytes set" where
  "audit_messages hx es = (\<lambda>e. leaf_message (event_payload e)) ` set es \<union> tree_messages hx (event_leaves hx es)"

lemma hex_laws_to_hex: "hex_laws hx \<Longrightarrow> length d = 32 \<Longrightarrow> is_hex_64 (to_hex hx d) \<and> from_hex hx (to_hex hx d) = Inr d"
  by (simp add: hex_laws_def to_hex_def from_hex_def)

lemma to_hex_inject: "hex_laws hx \<Longrightarrow> length d = 32 \<Longrightarrow> length d' = 32 \<Longrightarrow> to_hex hx d = to_hex hx d' \<longleftrightarrow> d = d'"
  by (metis hex_laws_to_hex sum.inject(2))

lemma event_leaf_width [simp]: "hash_width hx \<Longrightarrow> length (event_leaf hx e) = 32"
  by (simp add: event_leaf_def leaf_hash_def)

lemma digests_event_leaves: "hash_width hx \<Longrightarrow> digests (event_leaves hx es)"
  by (induction es) (simp_all add: event_leaves_def)

lemma length_event_leaves [simp]: "length (event_leaves hx es) = length es"
  by (simp add: event_leaves_def)

lemma root_of_width:
  assumes "hash_width hx" and "digests ds" and "root_of hx ds = Inr d"
  shows "length d = 32"
proof -
  have ds: "ds \<noteq> []" "d = hd (last (levels_of hx ds))" using assms(3) by (simp_all add: root_of_levels)
  then have "last (levels_of hx ds) \<noteq> []" using last_levels_of [of ds hx] by auto
  moreover have "digests (last (levels_of hx ds))" using digests_levels_of [OF assms(1,2)] by simp
  ultimately show ?thesis using ds(2) by (cases "last (levels_of hx ds)") simp_all
qed

lemma event_leaves_inject:
  assumes "event_leaves hx es = event_leaves hx fs" and "list_all event_small es" and "list_all event_small fs"
    and "inj_on (x_blake3 hx) ((\<lambda>e. leaf_message (event_payload e)) ` (set es \<union> set fs))"
  shows "es = fs"
proof -
  have "inj_on (event_leaf hx) (set es \<union> set fs)"
  proof (rule inj_onI)
    fix e f
    assume ef: "e \<in> set es \<union> set fs" "f \<in> set es \<union> set fs" "event_leaf hx e = event_leaf hx f"
    then have "x_blake3 hx (leaf_message (event_payload e)) = x_blake3 hx (leaf_message (event_payload f))"
      by (simp add: event_leaf_def leaf_hash_def digest_of_def)
    then have "leaf_message (event_payload e) = leaf_message (event_payload f)"
      by (rule inj_onD [OF assms(4)]) (use ef(1,2) in blast)+
    moreover have "event_small e" "event_small f" using ef(1,2) assms(2,3) by (auto simp: list_all_iff)
    ultimately show "e = f" using event_payload_inject by (simp add: leaf_message_inject)
  qed
  then show ?thesis using assms(1) unfolding event_leaves_def by (rule inj_on_map_eq_map [THEN iffD1])
qed

text \<open>C15: A batch commits its events: if one batch record verifies against two lists of events, the lists are equal,
  provided no two different messages hashed for them collide.\<close>

theorem batch_binds_events:
  assumes "verify_batch hx b es = Inr ()" and "verify_batch hx b fs = Inr ()"
    and "hash_width hx" and "hex_laws hx" and "list_all event_small es" and "list_all event_small fs"
    and "inj_on (x_blake3 hx) (audit_messages hx es \<union> audit_messages hx fs)"
  shows "es = fs"
proof -
  obtain d where d: "root_of hx (event_leaves hx es) = Inr d" "ab_merkle_root b = to_hex hx d"
    using assms(1) unfolding verify_batch_iff by blast
  obtain d' where d': "root_of hx (event_leaves hx fs) = Inr d'" "ab_merkle_root b = to_hex hx d'"
    using assms(2) unfolding verify_batch_iff by blast
  have "length es = length fs"
    using assms(1,2) unfolding verify_batch_iff contiguous_range_iff by linarith
  moreover have "d = d'"
    using d d' to_hex_inject [OF assms(4)] root_of_width [OF assms(3) digests_event_leaves [OF assms(3)]] by metis
  moreover have "inj_on (x_blake3 hx) (tree_messages hx (event_leaves hx es) \<union> tree_messages hx (event_leaves hx fs))"
    by (rule inj_on_subset [OF assms(7)]) (auto simp: audit_messages_def)
  ultimately have "event_leaves hx es = event_leaves hx fs"
    using root_inject [OF _ _ _ assms(3) digests_event_leaves [OF assms(3)] digests_event_leaves [OF assms(3)]] d(1) d'(1)
    by (simp add: root_of_levels)
  then show ?thesis
    using assms(5,6) by (rule event_leaves_inject) (rule inj_on_subset [OF assms(7)], auto simp: audit_messages_def)
qed

lemma validate_root_Ok: "validate_root hx field t = Inr d \<longleftrightarrow> is_hex_64 t \<and> from_hex hx t = Inr d"
  by (cases "from_hex hx t") (auto simp: validate_root_def)

lemma build_verifies:
  assumes "build_batch hx bld es = Inr b" and "hash_width hx" and "hex_laws hx" and "is_hex_64 (bb_previous_root bld)"
  shows "verify_batch hx b es = Inr () \<and> ab_previous_root b = bb_previous_root bld"
proof -
  obtain d where d: "root_of hx (event_leaves hx es) = Inr d" "contiguous_range es = Inr (ab_first_sequence b, ab_last_sequence b)"
    and b: "b = \<lparr>ab_schema_version = AUDIT_BATCH_SCHEMA_VERSION,
         ab_audit_batch_id = batch_id hx (bb_previous_root bld) (to_hex hx d) (ab_first_sequence b) (ab_last_sequence b),
         ab_first_sequence = ab_first_sequence b, ab_last_sequence = ab_last_sequence b,
         ab_previous_root = bb_previous_root bld, ab_merkle_root = to_hex hx d, ab_signer = UNSIGNED_SIGNER,
         ab_external_anchor_receipt = UNANCHORED_RECEIPT\<rparr>"
    using assms(1) by (auto simp: build_batch_def res_bind_Ok_iff Let_def)
  have fields: "ab_schema_version b = AUDIT_BATCH_SCHEMA_VERSION" "ab_signer b = UNSIGNED_SIGNER"
    "ab_external_anchor_receipt b = UNANCHORED_RECEIPT" "ab_previous_root b = bb_previous_root bld"
    "ab_merkle_root b = to_hex hx d"
    "ab_audit_batch_id b = batch_id hx (bb_previous_root bld) (to_hex hx d) (ab_first_sequence b) (ab_last_sequence b)"
    by (subst b, simp)+
  have "length d = 32" by (rule root_of_width [OF assms(2) digests_event_leaves [OF assms(2)] d(1)])
  then have root: "\<exists>x. validate_root hx ''merkle_root'' (ab_merkle_root b) = Inr x"
    using hex_laws_to_hex [OF assms(3)] by (simp add: validate_root_Ok fields)
  have prev: "\<exists>x. validate_root hx ''previous_root'' (ab_previous_root b) = Inr x"
    using assms(3,4) unfolding hex_laws_def validate_root_Ok fields from_hex_def by fastforce
  have "\<not> ab_last_sequence b < ab_first_sequence b"
    using d(2) unfolding contiguous_range_iff by (cases es) (auto simp: word_less_nat_alt)
  then have "validate_record hx b = Inr ()"
    using root prev by (auto simp: validate_record_def fields)
  with d fields show ?thesis by (simp add: verify_batch_iff)
qed

lemma build_run:
  assumes "run_from n es" and "es \<noteq> []"
  shows "\<exists>b. build_batch hx bld es = Inr b \<and> unat (ab_first_sequence b) = n \<and> unat (ab_last_sequence b) + 1 = n + length es"
proof -
  have hd: "unat (le_seq (hd es)) = n" using assms by (cases es) simp_all
  have "unat (le_seq (last es)) + 1 = n + length es"
    using run_from_nth [OF assms(1), of "length es - 1"] assms(2) by (simp add: last_conv_nth Suc_leI)
  with hd assms have "contiguous_range es = Inr (le_seq (hd es), le_seq (last es))"
    by (simp add: contiguous_range_iff)
  moreover obtain d where "root_of hx (event_leaves hx es) = Inr d"
    using assms(2) by (auto simp: root_of_levels event_leaves_def)
  ultimately show ?thesis
    using hd \<open>unat (le_seq (last es)) + 1 = n + length es\<close> by (simp add: build_batch_def Let_def)
qed

lemma plain_batch_verifies:
  "verify_batch audit_hash plain_batch plain_events = Inr ()"
  "ab_previous_root plain_batch = GENESIS_PREVIOUS_ROOT" "ab_first_sequence plain_batch = 1"
  "ab_last_sequence plain_batch = 2"
proof -
  have "run_from 1 plain_events" "plain_events \<noteq> []" by (simp_all add: plain_events_def plain_event_def)
  from build_run [OF this, of audit_hash builder_genesis]
  have b: "build_batch audit_hash builder_genesis plain_events = Inr plain_batch"
    "unat (ab_first_sequence plain_batch) = 1" "unat (ab_last_sequence plain_batch) = 2"
    by (auto simp: plain_batch_def plain_events_def)
  moreover have "is_hex_64 (bb_previous_root builder_genesis)"
    by (simp add: builder_genesis_def GENESIS_PREVIOUS_ROOT_def is_hex_64_def is_lower_hex_def is_ascii_digit_def)
  ultimately show "verify_batch audit_hash plain_batch plain_events = Inr ()"
    "ab_previous_root plain_batch = GENESIS_PREVIOUS_ROOT" "ab_first_sequence plain_batch = 1"
    "ab_last_sequence plain_batch = 2"
    using build_verifies [OF b(1) audit_hash_laws] by (simp_all add: builder_genesis_def word_unat_eq_iff)
qed

lemma plain_leaf_hash:
  "x_blake3 audit_hash (leaf_message (event_payload (plain_event n c))) = CHR ''l'' # replicate 31 c"
proof -
  have "leaf_message (event_payload (plain_event n c)) ! 35 = CHR ''l''"
    by (simp add: leaf_message_def frame_def LEAF_DOMAIN_def nth_append)
  moreover obtain pre where "leaf_message (event_payload (plain_event n c)) = pre @ replicate 32 c"
    by (simp add: leaf_message_def event_payload_def plain_event_def frame_def)
  moreover have "35 < length (leaf_message (event_payload (plain_event n c)))"
    by (simp add: leaf_message_def frame_def LEAF_DOMAIN_def)
  ultimately show ?thesis by (simp add: audit_hash_def)
qed

lemma plain_node_hash: "x_blake3 audit_hash (node_message l (d # replicate 31 c)) = CHR ''n'' # replicate 31 c"
proof -
  have "node_message l (d # replicate 31 c) ! 35 = CHR ''n''"
    by (simp add: node_message_def frame_def NODE_DOMAIN_def nth_append)
  moreover obtain pre where "node_message l (d # replicate 31 c) = pre @ replicate 31 c"
    by (simp add: node_message_def)
  moreover have "35 < length (node_message l (d # replicate 31 c))"
    by (simp add: node_message_def frame_def NODE_DOMAIN_def)
  ultimately show ?thesis by (simp add: audit_hash_def)
qed

lemma plain_events_small: "list_all event_small plain_events"
  by (simp add: plain_events_def plain_event_def event_small_def small_def)

text \<open>The leaf messages and the one node message of the two events.\<close>

definition plain_messages :: "bytes list" where
  "plain_messages = [leaf_message (event_payload (plain_events ! 0)), leaf_message (event_payload (plain_events ! 1)),
     node_message (event_leaf audit_hash (plain_events ! 0)) (event_leaf audit_hash (plain_events ! 1))]"

lemma plain_messages_inj: "inj_on (x_blake3 audit_hash) (set plain_messages)"
proof -
  have "distinct (map (x_blake3 audit_hash) plain_messages)"
    by (simp add: plain_messages_def plain_events_def event_leaf_def leaf_hash_def digest_of_def plain_leaf_hash plain_node_hash)
  then show ?thesis by (simp add: distinct_map)
qed

theorem batch_binds_events_witness:
  "verify_batch audit_hash plain_batch plain_events = Inr () \<and> plain_events = plain_events"
proof -
  have "audit_messages audit_hash plain_events \<subseteq> set plain_messages"
    by (auto simp: audit_messages_def tree_messages_def event_leaves_def plain_events_def plain_messages_def)
  then have "inj_on (x_blake3 audit_hash) (audit_messages audit_hash plain_events \<union> audit_messages audit_hash plain_events)"
    using inj_on_subset [OF plain_messages_inj] by simp
  then show ?thesis
    using batch_binds_events [OF plain_batch_verifies(1) plain_batch_verifies(1) audit_hash_laws plain_events_small
        plain_events_small] plain_batch_verifies(1) by blast
qed

section \<open>Proofs of single events\<close>

lemma verified_tree:
  assumes "verify_batch hx b es = Inr ()" and "hash_width hx" and "hex_laws hx"
  obtains t where "from_leaves hx (event_leaves hx es) = Inr t"
    "validate_root hx ''merkle_root'' (ab_merkle_root b) = Inr (tree_root t)" "es \<noteq> []" "length es \<le> 2 ^ 64"
    "run_from (unat (ab_first_sequence b)) es" "unat (ab_last_sequence b) + 1 = unat (ab_first_sequence b) + length es"
    "of_nat (length es) = ab_last_sequence b - ab_first_sequence b + 1"
proof -
  obtain d where d: "root_of hx (event_leaves hx es) = Inr d" "ab_merkle_root b = to_hex hx d"
    and run: "es \<noteq> []" "run_from (unat (ab_first_sequence b)) es"
      "unat (ab_last_sequence b) + 1 = unat (ab_first_sequence b) + length es"
    using assms(1) unfolding verify_batch_iff contiguous_range_iff by blast
  obtain t where t: "from_leaves hx (event_leaves hx es) = Inr t" "d = tree_root t"
    using d(1) by (auto simp: root_of_def res_bind_Ok_iff)
  have "length d = 32" by (rule root_of_width [OF assms(2) digests_event_leaves [OF assms(2)] d(1)])
  then have "validate_root hx ''merkle_root'' (ab_merkle_root b) = Inr (tree_root t)"
    using hex_laws_to_hex [OF assms(3)] d(2) t(2) by (simp add: validate_root_Ok)
  with t run range_length [OF run(3)] u64_less [of "ab_last_sequence b"] show thesis
    by (intro that [OF t(1)]) simp_all
qed

lemma batch_position_run:
  assumes "run_from (unat (ab_first_sequence b)) es"
    and "unat (ab_last_sequence b) + 1 = unat (ab_first_sequence b) + length es"
  shows "batch_position b s = Inr i \<longleftrightarrow> i < length es \<and> s = le_seq (es ! i)"
proof -
  have "batch_position b s = Inr i \<longleftrightarrow>
      unat (ab_first_sequence b) \<le> unat s \<and> unat s \<le> unat (ab_last_sequence b) \<and> i = unat s - unat (ab_first_sequence b)"
    by (auto simp: batch_position_def not_less word_le_nat_alt word_less_nat_alt unat_sub)
  also have "\<dots> \<longleftrightarrow> i < length es \<and> unat s = unat (ab_first_sequence b) + i" using assms(2) by auto
  also have "\<dots> \<longleftrightarrow> i < length es \<and> s = le_seq (es ! i)"
    using run_from_nth [OF assms(1)] by (auto simp: word_unat_eq_iff)
  finally show ?thesis .
qed

lemma event_proof_exists:
  assumes "verify_batch hx b es = Inr ()" and "hash_width hx" and "hex_laws hx" and "length es < 2 ^ 64"
    and "i < length es"
  shows "\<exists>p. prove_event hx b es (le_seq (es ! i)) = Inr p \<and> verify_event_inclusion hx b (es ! i) p = Inr ()"
  using assms(1-3)
proof (rule verified_tree)
  fix t
  assume t: "from_leaves hx (event_leaves hx es) = Inr t"
    "validate_root hx ''merkle_root'' (ab_merkle_root b) = Inr (tree_root t)"
    "run_from (unat (ab_first_sequence b)) es" "unat (ab_last_sequence b) + 1 = unat (ab_first_sequence b) + length es"
    "of_nat (length es) = ab_last_sequence b - ab_first_sequence b + 1"
  obtain p where p: "prove_leaf t i = Inr p" "verify_inclusion hx (tree_root t) (event_leaf hx (es ! i)) p = Inr ()"
    using prove_verifies [OF t(1), of i] assms(4,5) by (auto simp: event_leaves_def)
  have pos: "batch_position b (le_seq (es ! i)) = Inr i" using batch_position_run [OF t(3,4)] assms(5) by simp
  have "ip_leaf_index p = of_nat i" "ip_leaf_count p = of_nat (length es)"
    using p(1) leaf_count_built [OF t(1)] by (auto simp: prove_leaf_def split: if_splits)
  moreover have "validate_record hx b = Inr ()" using assms(1) by (simp add: verify_batch_iff)
  ultimately show ?thesis
    using assms(1) t p pos by (simp add: prove_event_def verify_event_inclusion_def)
qed

text \<open>Every event of a verified batch has an inclusion proof, and the proof verifies for that event.\<close>

theorem event_proof_roundtrip:
  assumes "verify_batch hx b es = Inr ()" and "hash_width hx" and "hex_laws hx" and "length es < 2 ^ 64"
    and "i < length es"
  shows "\<exists>p. prove_event hx b es (le_seq (es ! i)) = Inr p \<and> verify_event_inclusion hx b (es ! i) p = Inr ()"
  using assms by (rule event_proof_exists)

theorem event_proof_roundtrip_witness:
  "\<exists>p. prove_event audit_hash plain_batch plain_events 2 = Inr p \<and>
     verify_event_inclusion audit_hash plain_batch (plain_events ! 1) p = Inr ()"
  using event_proof_roundtrip [OF plain_batch_verifies(1) audit_hash_laws, of 1]
  by (auto simp: plain_events_def plain_event_def)

text \<open>C18: No event can be smuggled in: an inclusion proof accepted against a verified batch is for an event of the batch,
  provided no two different messages hashed for the two proofs and the leaves collide.\<close>

theorem event_proof_sound:
  assumes "verify_batch hx b es = Inr ()" and "hash_width hx" and "hex_laws hx" and "length es < 2 ^ 64"
    and "list_all event_small (e # es)" and "digests (ip_siblings p)"
    and "verify_event_inclusion hx b e p = Inr ()"
    and "prove_event hx b es (le_seq e) = Inr own"
    and "inj_on (x_blake3 hx) ((\<lambda>f. leaf_message (event_payload f)) ` set (e # es) \<union>
      path_messages hx (ip_leaf_index p) (event_leaf hx e) (ip_siblings p) \<union>
      path_messages hx (ip_leaf_index p) (event_leaf hx (es ! unat (ip_leaf_index p))) (ip_siblings own))"
  shows "e \<in> set es \<and> p = own"
  using assms(1-3)
proof (rule verified_tree)
  fix t
  assume t: "from_leaves hx (event_leaves hx es) = Inr t"
    "validate_root hx ''merkle_root'' (ab_merkle_root b) = Inr (tree_root t)"
    "run_from (unat (ab_first_sequence b)) es" "unat (ab_last_sequence b) + 1 = unat (ab_first_sequence b) + length es"
    "of_nat (length es) = ab_last_sequence b - ab_first_sequence b + 1"
  obtain i where pos: "batch_position b (le_seq e) = Inr i" and p: "ip_leaf_index p = of_nat i"
    "ip_leaf_count p = of_nat (length es)" "verify_inclusion hx (tree_root t) (event_leaf hx e) p = Inr ()"
    using assms(7) t(2,5) by (auto simp: verify_event_inclusion_def res_bind_Ok_iff Let_def split: if_splits)
  have i: "i < length es" using pos batch_position_run [OF t(3,4)] by simp
  then have ui: "unat (ip_leaf_index p) = i" using p(1) assms(4) by (simp add: unat_of_nat)
  have own: "prove_leaf t (unat (ip_leaf_index p)) = Inr own"
    using assms(1,8) pos t(1) by (auto simp: prove_event_def ui)
  have "event_leaf hx e = event_leaves hx es ! unat (ip_leaf_index p) \<and> p = own"
  proof (rule proof_binds_leaf [OF t(1) _ assms(2) digests_event_leaves [OF assms(2)] _ p(3) _ own])
    show "inj_on (x_blake3 hx) (path_messages hx (ip_leaf_index p) (event_leaf hx e) (ip_siblings p) \<union>
        path_messages hx (ip_leaf_index p) (event_leaves hx es ! unat (ip_leaf_index p)) (ip_siblings own))"
      using i ui by (intro inj_on_subset [OF assms(9)]) (auto simp: event_leaves_def)
  qed (use assms p in simp_all)
  then have leaf: "event_leaves hx [e] = event_leaves hx [es ! i]" and "p = own"
    using ui i by (simp_all add: event_leaves_def)
  have "[e] = [es ! i]"
  proof (rule event_leaves_inject [OF leaf])
    show "inj_on (x_blake3 hx) ((\<lambda>f. leaf_message (event_payload f)) ` (set [e] \<union> set [es ! i]))"
      using i by (intro inj_on_subset [OF assms(9)]) auto
  qed (use assms(5) i in \<open>auto simp: list_all_length\<close>)
  with i \<open>p = own\<close> show ?thesis by auto
qed

theorem event_proof_sound_witness:
  "\<exists>own. prove_event audit_hash plain_batch plain_events 1 = Inr own \<and> plain_event 1 (CHR ''x'') \<in> set plain_events"
proof -
  let ?e = "plain_event 1 (CHR ''x'')" and ?f = "plain_event 2 (CHR ''y'')"
  have es: "plain_events ! 0 = ?e" "length plain_events = 2" "le_seq ?e = 1"
    by (simp_all add: plain_events_def plain_event_def)
  have len: "length plain_events < 2 ^ 64" using es(2) by simp
  obtain own where own: "prove_event audit_hash plain_batch plain_events (le_seq ?e) = Inr own"
    and ok: "verify_event_inclusion audit_hash plain_batch ?e own = Inr ()"
    using event_proof_exists [OF plain_batch_verifies(1) audit_hash_laws len, of 0] es by auto
  have pos: "batch_position plain_batch (le_seq ?e) = Inr 0"
    using plain_batch_verifies(3,4) es(3) by (simp add: batch_position_def)
  have sib: "ip_leaf_index own = 0" "ip_siblings own = [event_leaf audit_hash ?f]"
    using own by (auto simp: prove_event_def plain_batch_verifies(1) pos res_bind_Ok_iff from_leaves_levels prove_leaf_def
        event_leaves_def plain_events_def sibling_def split: if_splits)
  have small: "list_all event_small (?e # plain_events)" using plain_events_small by (simp add: plain_events_def)
  have "inj_on (x_blake3 audit_hash) ((\<lambda>f. leaf_message (event_payload f)) ` set (?e # plain_events) \<union>
      path_messages audit_hash (ip_leaf_index own) (event_leaf audit_hash ?e) (ip_siblings own) \<union>
      path_messages audit_hash (ip_leaf_index own) (event_leaf audit_hash (plain_events ! unat (ip_leaf_index own))) (ip_siblings own))"
    by (rule inj_on_subset [OF plain_messages_inj]) (auto simp: plain_messages_def plain_events_def Let_def sib)
  moreover have "digests (ip_siblings own)" using audit_hash_laws(1) by (simp add: sib)
  ultimately have "?e \<in> set plain_events"
    using event_proof_sound [OF plain_batch_verifies(1) audit_hash_laws len small _ ok own] by blast
  with own es(3) show ?thesis by auto
qed

section \<open>Chains\<close>

lemma unat_successor: "(w :: u64) \<noteq> - 1 \<Longrightarrow> unat (w + 1) = unat w + 1"
proof -
  assume "w \<noteq> - 1"
  then have "unat w \<noteq> 18446744073709551615"
    using word_unat_eq_iff [of w "- 1"] by (simp add: unsigned_minus_1_eq_mask mask_eq_exp_minus_1)
  with u64_less [of w] show ?thesis by (simp add: unat_word_ariths)
qed

lemma chain_loop_run:
  assumes "chain_loop hx k root nxt (zip bs ess) = Inr ()" and "length bs = length ess" and "bs \<noteq> []"
    and "\<And>b. b \<in> set bs \<Longrightarrow> ab_last_sequence b \<noteq> - 1"
    and "\<And>s. nxt = Some s \<Longrightarrow> n = unat s" and "nxt = None \<Longrightarrow> n = unat (ab_first_sequence (hd bs))"
  shows "run_from n (concat ess) \<and> unat (ab_last_sequence (last bs)) + 1 = n + length (concat ess) \<and>
    map ab_previous_root bs = root # butlast (map ab_merkle_root bs)"
  using assms
proof (induction bs arbitrary: k root nxt n ess)
  case (Cons b bs)
  then obtain es rest where ess: "ess = es # rest" by (cases ess) auto
  from Cons.prems(1) ess have v: "verify_batch hx b es = Inr ()" "ab_previous_root b = root"
    "nxt = Some s \<Longrightarrow> ab_first_sequence b = s" "chain_loop hx (Suc k) (ab_merkle_root b) (Some (ab_last_sequence b + 1)) (zip bs rest) = Inr ()"
    for s
    by (auto simp: res_bind_Ok_iff split: if_splits option.splits)
  have first: "n = unat (ab_first_sequence b)"
    using v(3) Cons.prems(5,6) by (cases nxt) auto
  have es: "run_from n es" "unat (ab_last_sequence b) + 1 = n + length es"
    using v(1) first unfolding verify_batch_iff contiguous_range_iff by auto
  have next_seq: "unat (ab_last_sequence b + 1) = n + length es"
  proof -
    have "ab_last_sequence b \<noteq> - 1" using Cons.prems(4) by simp
    then have "unat (ab_last_sequence b + 1) = unat (ab_last_sequence b) + 1" by (rule unat_successor)
    with es(2) show ?thesis by simp
  qed
  show ?case
  proof (cases "bs = []")
    case True
    then have "rest = []" using Cons.prems(2) ess by simp
    with True es ess v(2) show ?thesis by simp
  next
    case False
    have "run_from (n + length es) (concat rest) \<and>
        unat (ab_last_sequence (last bs)) + 1 = n + length es + length (concat rest) \<and>
        map ab_previous_root bs = ab_merkle_root b # butlast (map ab_merkle_root bs)"
      using Cons.prems ess False next_seq by (intro Cons.IH [OF v(4)]) simp_all
    with es ess v(2) False show ?thesis by (simp add: run_from_append)
  qed
qed simp

text \<open>C17: A verified chain is one uninterrupted history: the events of its batches, in order, carry consecutive sequence
  numbers up to the head's, and each batch names the root of the one before it, the first the given head root. No
  batch may end at the largest \<open>u64\<close>, after which the successor wraps.\<close>

theorem verified_chain_contiguous:
  assumes "verify_chain_from hx root bs ess = Inr head"
    and "\<forall>b \<in> set bs. ab_last_sequence b \<noteq> - 1"
  shows "run_from (unat (ab_first_sequence (hd bs))) (concat ess) \<and>
    unat (ah_last_sequence head) + 1 = unat (ab_first_sequence (hd bs)) + length (concat ess) \<and>
    map ab_previous_root bs = root # butlast (map ab_merkle_root bs) \<and>
    ah_head_root head = ab_merkle_root (last bs) \<and> ah_batch_count head = length ess"
proof -
  have h: "length bs = length ess" "bs \<noteq> []" "chain_loop hx 0 root None (zip bs ess) = Inr ()"
    "head = \<lparr>ah_batch_count = length bs, ah_head_root = ab_merkle_root (last bs), ah_last_sequence = ab_last_sequence (last bs)\<rparr>"
    using assms(1) by (auto simp: verify_chain_from_def res_bind_Ok_iff split: if_splits)
  show ?thesis
    using chain_loop_run [OF h(3,1,2), of "unat (ab_first_sequence (hd bs))"] assms(2) h by simp
qed

theorem verified_chain_contiguous_witness:
  "\<exists>head. verify_chain audit_hash [plain_batch] [plain_events] = Inr head \<and> run_from 1 plain_events"
proof -
  let ?v = "verify_chain_from audit_hash GENESIS_PREVIOUS_ROOT [plain_batch] [plain_events]"
  have "\<exists>d. validate_root audit_hash ''head_root'' GENESIS_PREVIOUS_ROOT = Inr d"
  proof -
    have "is_hex_64 GENESIS_PREVIOUS_ROOT"
      by (simp add: GENESIS_PREVIOUS_ROOT_def is_hex_64_def is_lower_hex_def is_ascii_digit_def)
    then show ?thesis using audit_hash_laws(2) unfolding hex_laws_def validate_root_Ok from_hex_def by fastforce
  qed
  then obtain head where "?v = Inr head"
    using plain_batch_verifies(1,2) by (auto simp: verify_chain_from_def)
  moreover have "\<forall>b \<in> set [plain_batch]. ab_last_sequence b \<noteq> - 1"
    using plain_batch_verifies(4) by simp
  ultimately show ?thesis
    using verified_chain_contiguous [of audit_hash GENESIS_PREVIOUS_ROOT "[plain_batch]" "[plain_events]"] plain_batch_verifies(3)
    by (auto simp: verify_chain_def)
qed

end
