(* ===== verification/Ledger_Audit.thy ===== *)
theory Ledger_Audit
  imports Plain_Environment Audit_Guarantees
begin

text \<open>
  The event log of the in-process ledger is what the audit batches commit. However the log of a run is cut into
  consecutive non-empty pieces, building one batch per piece gives a chain that verifies and ends at the last event.
\<close>

fun audit_all ::
    "'x hash_ext_scheme \<Rightarrow> audit_batch_builder \<Rightarrow> ledger_event list list \<Rightarrow> audit_batch_error + audit_batch list" where
  "audit_all hx bld [] = Ok []"
| "audit_all hx bld (es # ess) =
     res_bind (build_batch hx bld es) (\<lambda>b.
     res_bind (builder_after hx b) (\<lambda>nxt.
     res_bind (audit_all hx nxt ess) (\<lambda>bs. Ok (b # bs))))"

lemma build_root_hex:
  assumes "build_batch hx bld es = Inr b" and "hash_width hx" and "hex_laws hx"
  shows "is_hex_64 (ab_merkle_root b) \<and> builder_after hx b = Inr \<lparr>bb_previous_root = ab_merkle_root b\<rparr>"
proof -
  obtain d where d: "root_of hx (event_leaves hx es) = Inr d" "ab_merkle_root b = to_hex hx d"
    using assms(1) by (auto simp: build_batch_def res_bind_Ok_iff Let_def)
  have "length d = 32" by (rule root_of_width [OF assms(2) digests_event_leaves [OF assms(2)] d(1)])
  then have hex: "is_hex_64 (to_hex hx d)" "from_hex hx (to_hex hx d) = Inr d"
    using hex_laws_to_hex [OF assms(3)] by simp_all
  then show ?thesis by (simp add: builder_after_def with_previous_root_def d(2) validate_root_def)
qed

lemma audit_all_chain:
  assumes "run_from n (concat ess)" and "[] \<notin> set ess" and "n + length (concat ess) < 2 ^ 64"
    and "hash_width hx" and "hex_laws hx" and "is_hex_64 (bb_previous_root bld)" and "nxt = None \<or> nxt = Some (of_nat n)"
  shows "\<exists>bs. audit_all hx bld ess = Inr bs \<and> length bs = length ess \<and>
    chain_loop hx k (bb_previous_root bld) nxt (zip bs ess) = Inr () \<and>
    (ess \<noteq> [] \<longrightarrow> unat (ab_last_sequence (last bs)) + 1 = n + length (concat ess))"
  using assms
proof (induction ess arbitrary: n bld nxt k)
  case (Cons es ess)
  have run: "run_from n es" "run_from (n + length es) (concat ess)" "es \<noteq> []"
    using Cons.prems(1,2) by (auto simp: run_from_append)
  obtain b where b: "build_batch hx bld es = Inr b" "unat (ab_first_sequence b) = n"
    "unat (ab_last_sequence b) + 1 = n + length es"
    using build_run [OF run(1,3)] by blast
  have v: "verify_batch hx b es = Inr ()" "ab_previous_root b = bb_previous_root bld"
    using build_verifies [OF b(1) Cons.prems(4-6)] by simp_all
  have r: "is_hex_64 (ab_merkle_root b)" "builder_after hx b = Inr \<lparr>bb_previous_root = ab_merkle_root b\<rparr>"
    using build_root_hex [OF b(1) Cons.prems(4,5)] by simp_all
  have small: "n + length es < 2 ^ 64" using Cons.prems(3) by simp
  have first: "ab_first_sequence b = of_nat n"
    using b(2) small by (simp add: word_unat_eq_iff unat_of_nat)
  have "ab_last_sequence b + 1 = of_nat (n + length es)"
    using arg_cong [OF b(3), of "of_nat :: nat \<Rightarrow> u64"] by (simp add: add.commute)
  then obtain bs where bs: "audit_all hx \<lparr>bb_previous_root = ab_merkle_root b\<rparr> ess = Inr bs" "length bs = length ess"
    "chain_loop hx (Suc k) (ab_merkle_root b) (Some (ab_last_sequence b + 1)) (zip bs ess) = Inr ()"
    "ess \<noteq> [] \<longrightarrow> unat (ab_last_sequence (last bs)) + 1 = n + length es + length (concat ess)"
    using Cons.IH [OF run(2), of "\<lparr>bb_previous_root = ab_merkle_root b\<rparr>" "Some (ab_last_sequence b + 1)" "Suc k"]
      Cons.prems(2-5) r(1) by auto
  have "chain_loop hx k (bb_previous_root bld) nxt (zip (b # bs) (es # ess)) = Inr ()"
    using v bs(3) first Cons.prems(7) by auto
  moreover have "unat (ab_last_sequence (last (b # bs))) + 1 = n + length (concat (es # ess))"
    using bs(2,4) b(3) by (cases "ess = []") auto
  ultimately show ?case using b(1) r(2) bs(1,2) by (intro exI [of _ "b # bs"]) simp
qed simp

text \<open>C16: The event log of any run can be audited: cut it into consecutive non-empty pieces in any way, build a batch for each
  on top of the one before, and the chain verifies from genesis with the number of events as its last sequence.\<close>

theorem ledger_log_auditable:
  assumes "concat ess = ml_events (ledger_run ex acts)" and "ess \<noteq> []" and "[] \<notin> set ess"
    and "length (ml_events (ledger_run ex acts)) < 2 ^ 64 - 1" and "hash_width ex" and "hex_laws ex"
  shows "\<exists>bs head. audit_all ex builder_genesis ess = Inr bs \<and> verify_chain ex bs ess = Inr head \<and>
    ah_batch_count head = length ess \<and> unat (ah_last_sequence head) = length (ml_events (ledger_run ex acts))"
proof -
  let ?log = "ml_events (ledger_run ex acts)"
  have "unat (le_seq (?log ! i)) = 1 + i" if "i < length ?log" for i
    using run_numbered [of ex acts] that assms(4) by (simp add: numbered_def unat_word_ariths unat_of_nat)
  then have run: "run_from 1 (concat ess)"
    unfolding run_from_def assms(1) by (intro nth_equalityI) (simp_all del: upt_Suc)
  have genesis: "is_hex_64 (bb_previous_root builder_genesis)"
    by (simp add: builder_genesis_def GENESIS_PREVIOUS_ROOT_def is_hex_64_def is_lower_hex_def is_ascii_digit_def)
  obtain bs where bs: "audit_all ex builder_genesis ess = Inr bs" "length bs = length ess"
    "chain_loop ex 0 (bb_previous_root builder_genesis) None (zip bs ess) = Inr ()"
    "unat (ab_last_sequence (last bs)) + 1 = 1 + length (concat ess)"
    using audit_all_chain [OF run assms(3) _ assms(5,6) genesis, of None 0] assms(1,2,4) by auto
  obtain d where "validate_root ex ''head_root'' GENESIS_PREVIOUS_ROOT = Inr d"
    using assms(6) genesis unfolding hex_laws_def validate_root_Ok from_hex_def builder_genesis_def by fastforce
  then have "verify_chain ex bs ess = Inr \<lparr>ah_batch_count = length bs, ah_head_root = ab_merkle_root (last bs),
      ah_last_sequence = ab_last_sequence (last bs)\<rparr>"
    using bs assms(2) by (auto simp: verify_chain_def verify_chain_from_def builder_genesis_def)
  with bs assms(1) show ?thesis by simp
qed

definition audit_plain_ext :: graph_ext where
  "audit_plain_ext = plain_ext\<lparr>x_blake3 := x_blake3 audit_hash, x_hex_encode := x_hex_encode audit_hash,
     x_hex_decode := x_hex_decode audit_hash\<rparr>"

lemma audit_plain_laws: "hash_width audit_plain_ext" "hex_laws audit_plain_ext"
  using audit_hash_laws by (simp_all add: hash_width_def hex_laws_def audit_plain_ext_def)

theorem ledger_log_auditable_witness:
  "\<exists>bs head. audit_all audit_plain_ext builder_genesis
      (map (\<lambda>e. [e]) (ml_events (ledger_run audit_plain_ext [ActAppendEvent ''k'' ''a'', ActAppendEvent ''k'' ''b'']))) = Inr bs \<and>
    verify_chain audit_plain_ext bs
      (map (\<lambda>e. [e]) (ml_events (ledger_run audit_plain_ext [ActAppendEvent ''k'' ''a'', ActAppendEvent ''k'' ''b'']))) = Inr head \<and>
    unat (ah_last_sequence head) = 2"
proof -
  let ?log = "ml_events (ledger_run audit_plain_ext [ActAppendEvent ''k'' ''a'', ActAppendEvent ''k'' ''b''])"
  have len: "length ?log = 2"
    by (simp add: ledger_run_def append_event_def st_bind_def tick_def memory_new_def push_event_def Let_def)
  then have "?log \<noteq> []" by auto
  then have "\<exists>bs head. audit_all audit_plain_ext builder_genesis (map (\<lambda>e. [e]) ?log) = Inr bs \<and>
      verify_chain audit_plain_ext bs (map (\<lambda>e. [e]) ?log) = Inr head \<and> ah_batch_count head = length (map (\<lambda>e. [e]) ?log) \<and>
      unat (ah_last_sequence head) = length ?log"
    using len by (intro ledger_log_auditable audit_plain_laws) auto
  with len show ?thesis by auto
qed

end
