(* ===== verification/Typed_Graph.thy ===== *)
theory Typed_Graph
  imports Ledger_Rows Ledger_Audit
begin

text \<open>
  The typed identifiers of a stored graph. In the code they are newtypes whose prefix is checked when they are
  parsed; in the model they are strings, so that their types are an invariant: the graph built for a plan has
  it and every accepted delta keeps it.
\<close>

definition typed :: "string \<Rightarrow> string \<Rightarrow> bool" where
  "typed prefix raw \<longleftrightarrow> typed_id_parse prefix raw = Inr raw"

definition graph_typed :: "stored_graph \<Rightarrow> bool" where
  "graph_typed g \<longleftrightarrow>
     typed ''mis'' (mi_id (sg_mission g)) \<and> typed ''org'' (mi_organization_id (sg_mission g)) \<and>
     typed ''rep'' (mi_repository_id (sg_mission g)) \<and> typed ''acc'' (mi_acceptance_contract_id (sg_mission g)) \<and>
     typed ''pln'' (pr_id (sg_plan g)) \<and> pr_mission_id (sg_plan g) = mi_id (sg_mission g) \<and>
     list_all (\<lambda>p. typed ''wpk'' (wp_id p) \<and> wp_mission_id p = mi_id (sg_mission g) \<and>
       wp_plan_revision_id p = pr_id (sg_plan g)) (sg_packages g) \<and>
     list_all (\<lambda>v. typed ''var'' (va_id v) \<and> typed ''sel'' (va_selection_group_id v) \<and>
       va_work_package_id v \<in> wp_id ` set (sg_packages g)) (sg_variants g)"

text \<open>A sequence of deltas, each evaluated on what the one before left.\<close>

fun evolve :: "'x graph_ext_scheme \<Rightarrow> stored_graph \<Rightarrow> graph_delta list \<Rightarrow> ledger_error + stored_graph" where
  "evolve ex g [] = Inr g"
| "evolve ex g (d # ds) = res_bind (evaluate_graph_delta ex g d) (\<lambda>h. evolve ex h ds)"

lemma typed_from_seed:
  assumes "hash_width ex" and "hex_laws ex"
  shows "typed prefix (typed_id_from_seed ex prefix seed)"
proof -
  have "is_hex_64 (to_hex ex (digest_of ex (prefix @ '':'' @ seed)))"
    using hex_laws_to_hex [OF assms(2)] assms(1) by simp
  then show ?thesis
    by (simp add: typed_def typed_id_parse_iff typed_id_from_seed_def Let_def is_hex_64_def)
qed

lemma built_graph_typed:
  assumes "hash_width ex" and "hex_laws ex"
  shows "graph_typed (build_graph ex seed inp h)"
proof -
  have row: "typed_id_from_seed ex ''wpk'' (package_seed seed i) \<in>
      wp_id ` built_package ex seed ` set (List.enumerate 0 (pi_packages inp))" if "i < length (pi_packages inp)" for i
  proof -
    have "(i, pi_packages inp ! i) \<in> set (List.enumerate 0 (pi_packages inp))"
      using that by (simp add: in_set_enumerate_eq)
    moreover have "wp_id (built_package ex seed (i, pi_packages inp ! i)) = typed_id_from_seed ex ''wpk'' (package_seed seed i)"
      by (simp add: built_package_def case_prod_beta)
    ultimately show ?thesis by (metis image_eqI)
  qed
  then show ?thesis
    using typed_from_seed [OF assms]
    by (auto simp: graph_typed_def build_graph_def built_variant_def list_all_iff) (auto simp: built_package_def)
qed

lemma same_shape_packages:
  assumes "same_shape g h"
  shows "map (\<lambda>p. (wp_id p, wp_mission_id p, wp_plan_revision_id p)) (sg_packages h) =
      map (\<lambda>p. (wp_id p, wp_mission_id p, wp_plan_revision_id p)) (sg_packages g)"
    and "map (\<lambda>v. (va_id v, va_selection_group_id v, va_work_package_id v)) (sg_variants h) =
      map (\<lambda>v. (va_id v, va_selection_group_id v, va_work_package_id v)) (sg_variants g)"
proof -
  have "map (f \<circ> wp_state_update (\<lambda>_. WpPending)) (sg_packages h) = map (f \<circ> wp_state_update (\<lambda>_. WpPending)) (sg_packages g)"
    for f :: "work_package \<Rightarrow> string \<times> string \<times> string"
    using assms unfolding same_shape_def map_map [symmetric] by (metis (no_types))
  from this [of "\<lambda>p. (wp_id p, wp_mission_id p, wp_plan_revision_id p)"]
  show "map (\<lambda>p. (wp_id p, wp_mission_id p, wp_plan_revision_id p)) (sg_packages h) =
      map (\<lambda>p. (wp_id p, wp_mission_id p, wp_plan_revision_id p)) (sg_packages g)" by (simp add: comp_def)
  have "map (f \<circ> va_fence_counter_update (\<lambda>_. 0)) (sg_variants h) = map (f \<circ> va_fence_counter_update (\<lambda>_. 0)) (sg_variants g)"
    for f :: "variant \<Rightarrow> string \<times> string \<times> string"
    using assms unfolding same_shape_def map_map [symmetric] by (metis (no_types))
  from this [of "\<lambda>v. (va_id v, va_selection_group_id v, va_work_package_id v)"]
  show "map (\<lambda>v. (va_id v, va_selection_group_id v, va_work_package_id v)) (sg_variants h) =
      map (\<lambda>v. (va_id v, va_selection_group_id v, va_work_package_id v)) (sg_variants g)" by (simp add: comp_def)
qed

text \<open>The invariant looks at the rows only through these columns.\<close>

lemma graph_typed_columns:
  "graph_typed g \<longleftrightarrow>
     typed ''mis'' (mi_id (sg_mission g)) \<and> typed ''org'' (mi_organization_id (sg_mission g)) \<and>
     typed ''rep'' (mi_repository_id (sg_mission g)) \<and> typed ''acc'' (mi_acceptance_contract_id (sg_mission g)) \<and>
     typed ''pln'' (pr_id (sg_plan g)) \<and> pr_mission_id (sg_plan g) = mi_id (sg_mission g) \<and>
     list_all (\<lambda>(i, m, r). typed ''wpk'' i \<and> m = mi_id (sg_mission g) \<and> r = pr_id (sg_plan g))
       (map (\<lambda>p. (wp_id p, wp_mission_id p, wp_plan_revision_id p)) (sg_packages g)) \<and>
     list_all (\<lambda>(i, s, p). typed ''var'' i \<and> typed ''sel'' s \<and>
         p \<in> fst ` set (map (\<lambda>p. (wp_id p, wp_mission_id p, wp_plan_revision_id p)) (sg_packages g)))
       (map (\<lambda>v. (va_id v, va_selection_group_id v, va_work_package_id v)) (sg_variants g))"
  by (simp add: graph_typed_def list_all_iff image_image)

lemma same_shape_typed: "same_shape g h \<Longrightarrow> graph_typed h \<longleftrightarrow> graph_typed g"
  unfolding graph_typed_columns by (simp only: same_shape_packages) (simp add: same_shape_def)

text \<open>C21: Every graph a plan is materialized into is well typed, and stays so: under a hash of 32 bytes printed as
  lowercase hex, after any sequence of accepted deltas each identifier of the graph parses as the type its
  field has, every package names the graph's own mission and plan, and every variant one of its packages.\<close>

theorem graph_types_preserved:
  assumes "hash_width ex" and "hex_laws ex"
    and "evolve ex (build_graph ex seed inp plan_hash) deltas = Inr g"
  shows "graph_typed g"
proof -
  have "graph_typed k" if "evolve ex h ds = Inr k" "graph_typed h" for h k ds
    using that by (induction ds arbitrary: h) (auto simp: res_bind_Ok_iff same_shape_typed dest!: evaluate_shape)
  with assms(3) built_graph_typed [OF assms(1,2)] show ?thesis by blast
qed

theorem graph_types_preserved_witness:
  "graph_typed (build_graph audit_plain_ext ''s'' \<lparr>pi_title = ''t'', pi_objective = ''o'', pi_packages = [(''p'', CodeReview)]\<rparr> [])"
  by (rule graph_types_preserved [OF audit_plain_laws, where deltas = "[]"]) simp

end
