(* ===== verification/Mutation_Reservation.thy ===== *)
theory Mutation_Reservation
  imports Memory_Leases
begin

text \<open>
  One-use mutation permits, \<^verbatim>\<open>crates/application/src/mutation_reservation.rs\<close>. The store owns a lease gate and
  repeats its check inside the write that issues a permit and inside the write that spends it. The gate is a
  type parameter of the store; the client lemmas are proved for every gate that only looks, and the in-process
  ledger's active-lease check is such a gate.
\<close>

section \<open>Records\<close>

record mutation_reserve_request =
  mr_mutation_id :: string
  mr_operation :: string
  mr_request_digest :: string

record one_use_permit =
  pm_reservation_id :: string
  pm_mutation_id :: string
  pm_operation :: string
  pm_request_digest :: string

record reservation_row =
  rv_permit :: one_use_permit
  rv_attempt_id :: string
  rv_fence :: u64
  rv_spent :: bool
  rv_settled :: bool

text \<open>\<open>LeaseRefused\<close> carries the printed ledger error; here it carries the error itself.\<close>

datatype reservation_error =
    LeaseRefused ledger_error | AlreadySpent string | ReservationNotFound string | ReservationMismatch string

fun reservation_reason_code :: "reservation_error \<Rightarrow> string" where
  "reservation_reason_code (LeaseRefused _) = ''LEASE_GATE_REFUSED''"
| "reservation_reason_code (AlreadySpent _) = ''PERMIT_ALREADY_SPENT''"
| "reservation_reason_code (ReservationNotFound _) = ''RESERVATION_NOT_FOUND''"
| "reservation_reason_code (ReservationMismatch _) = ''RESERVATION_SUBJECT_MISMATCH''"

record 'g reservation_store =
  rs_gate :: 'g
  rs_rows :: "(string, reservation_row) btree_map"

type_synonym 'g lease_check = "active_lease_subject \<Rightarrow> ('g, ledger_error, unit) mut_op"
type_synonym ('g, 'a) reservation_op = "('g reservation_store, reservation_error, 'a) mut_op"

section \<open>Operations\<close>

definition reservation_new :: "'g \<Rightarrow> 'g reservation_store" where
  "reservation_new gate = \<lparr>rs_gate = gate, rs_rows = bt_empty\<rparr>"

definition on_gate :: "'g lease_check \<Rightarrow> active_lease_subject \<Rightarrow> ('g, unit) reservation_op" where
  "on_gate check subj st =
     (case check subj (rs_gate st) of (r, g) \<Rightarrow> (map_err LeaseRefused r, st\<lparr>rs_gate := g\<rparr>))"

definition permit_for :: "'x hash_ext_scheme \<Rightarrow> mutation_reserve_request \<Rightarrow> one_use_permit" where
  "permit_for hx q =
     \<lparr>pm_reservation_id = ''rsv_'' @ to_hex hx (digest_of hx (mr_mutation_id q)), pm_mutation_id = mr_mutation_id q,
      pm_operation = mr_operation q, pm_request_digest = mr_request_digest q\<rparr>"

definition reserve_mutation ::
    "'x hash_ext_scheme \<Rightarrow> 'g lease_check \<Rightarrow> active_lease_subject \<Rightarrow> mutation_reserve_request \<Rightarrow> ('g, one_use_permit) reservation_op" where
  "reserve_mutation hx check subj q st =
     (case bt_get (rs_rows st) (mr_mutation_id q) of
        Some existing \<Rightarrow>
          if pm_request_digest (rv_permit existing) = mr_request_digest q
             \<and> pm_operation (rv_permit existing) = mr_operation q \<and> \<not> rv_spent existing
          then (Err (AlreadySpent ''exact mutation already reserved''), st)
          else (Err (ReservationMismatch ''mutation_id reused with a different subject''), st)
      | None \<Rightarrow>
          st_bind (on_gate check subj) (\<lambda>_ t.
            (Ok (permit_for hx q),
             t\<lparr>rs_rows := bt_insert (mr_mutation_id q)
               \<lparr>rv_permit = permit_for hx q, rv_attempt_id = as_attempt_id subj, rv_fence = as_fence subj,
                rv_spent = False, rv_settled = False\<rparr> (rs_rows t)\<rparr>)) st)"

definition settle_permit ::
    "'g lease_check \<Rightarrow> one_use_permit \<Rightarrow> active_lease_subject \<Rightarrow> ('g, unit) reservation_op" where
  "settle_permit check permit subj =
     st_bind (on_gate check subj) (\<lambda>_ t.
       case bt_get (rs_rows t) (pm_mutation_id permit) of
         None \<Rightarrow> (Err (ReservationNotFound (pm_mutation_id permit)), t)
       | Some row \<Rightarrow>
           if rv_permit row \<noteq> permit \<or> rv_attempt_id row \<noteq> as_attempt_id subj \<or> rv_fence row \<noteq> as_fence subj then
             (Err (ReservationMismatch ''settle does not bind the reserved subject''), t)
           else if rv_spent row \<or> rv_settled row then (Err (AlreadySpent (pm_reservation_id permit)), t)
           else (Ok (), t\<lparr>rs_rows := bt_insert (pm_mutation_id permit)
                   (row\<lparr>rv_spent := True, rv_settled := True\<rparr>) (rs_rows t)\<rparr>))"

definition is_settled :: "'g reservation_store \<Rightarrow> string \<Rightarrow> bool" where
  "is_settled st mutation = (case bt_get (rs_rows st) mutation of Some row \<Rightarrow> rv_settled row | None \<Rightarrow> False)"

text \<open>Asking again for a mutation that was spent is reported as a different subject, whatever was asked for.\<close>

lemma spent_reservation_misreported:
  assumes "bt_get (rs_rows st) (mr_mutation_id q) = Some row" and "rv_spent row"
  shows "reserve_mutation hx check subj q st = (Inl (ReservationMismatch ''mutation_id reused with a different subject''), st)"
  using assms by (simp add: reserve_mutation_def)

section \<open>Any gate that only looks\<close>

locale lease_gate =
  fixes check :: "'g lease_check"
  assumes check_looks: "snd (check subj g) = g"
begin

lemma on_gate_cases:
  obtains (refused) e where "on_gate check subj st = (Inl (LeaseRefused e), st)" "fst (check subj (rs_gate st)) = Inl e"
    | (passed) "on_gate check subj st = (Inr (), st)" "fst (check subj (rs_gate st)) = Inr ()"
proof (cases "check subj (rs_gate st)")
  case (Pair r g)
  then have g: "g = rs_gate st" using check_looks [of subj "rs_gate st"] by simp
  show thesis
  proof (cases r)
    case (Inl e)
    with Pair g show thesis by (intro refused [of e]) (simp_all add: on_gate_def map_err_def)
  next
    case (Inr u)
    with Pair g show thesis by (intro passed) (simp_all add: on_gate_def map_err_def)
  qed
qed

lemma reserve_cases:
  obtains (refused) e where "reserve_mutation hx check subj q st = (Inl e, st)"
    | (reserved) "reserve_mutation hx check subj q st = (Inr (permit_for hx q),
          st\<lparr>rs_rows := bt_insert (mr_mutation_id q) \<lparr>rv_permit = permit_for hx q, rv_attempt_id = as_attempt_id subj,
            rv_fence = as_fence subj, rv_spent = False, rv_settled = False\<rparr> (rs_rows st)\<rparr>)"
        "bt_get (rs_rows st) (mr_mutation_id q) = None" "fst (check subj (rs_gate st)) = Inr ()"
proof (cases "bt_get (rs_rows st) (mr_mutation_id q)")
  case (Some row)
  then show thesis
    by (cases "pm_request_digest (rv_permit row) = mr_request_digest q \<and> pm_operation (rv_permit row) = mr_operation q \<and> \<not> rv_spent row")
      (auto simp: reserve_mutation_def intro: refused)
next
  case None
  show thesis
  proof (cases rule: on_gate_cases [of subj st])
    case (refused e)
    with None show thesis by (intro that(1)) (simp add: reserve_mutation_def st_bind_def)
  next
    case passed
    with None show thesis by (intro that(2)) (simp_all add: reserve_mutation_def st_bind_def)
  qed
qed

lemma settle_cases:
  obtains (refused) e where "settle_permit check permit subj st = (Inl e, st)"
    | (spent) row where "settle_permit check permit subj st = (Inr (),
          st\<lparr>rs_rows := bt_insert (pm_mutation_id permit) (row\<lparr>rv_spent := True, rv_settled := True\<rparr>) (rs_rows st)\<rparr>)"
        "bt_get (rs_rows st) (pm_mutation_id permit) = Some row" "rv_permit row = permit"
        "rv_attempt_id row = as_attempt_id subj" "rv_fence row = as_fence subj" "\<not> rv_settled row"
        "fst (check subj (rs_gate st)) = Inr ()"
proof (cases rule: on_gate_cases [of subj st])
  case (refused e)
  then show thesis by (intro that(1)) (simp add: settle_permit_def st_bind_def)
next
  case passed
  note gate = this
  have step: "settle_permit check permit subj st =
      (case bt_get (rs_rows st) (pm_mutation_id permit) of
         None \<Rightarrow> (Err (ReservationNotFound (pm_mutation_id permit)), st)
       | Some row \<Rightarrow>
           if rv_permit row \<noteq> permit \<or> rv_attempt_id row \<noteq> as_attempt_id subj \<or> rv_fence row \<noteq> as_fence subj then
             (Err (ReservationMismatch ''settle does not bind the reserved subject''), st)
           else if rv_spent row \<or> rv_settled row then (Err (AlreadySpent (pm_reservation_id permit)), st)
           else (Ok (), st\<lparr>rs_rows := bt_insert (pm_mutation_id permit)
                   (row\<lparr>rv_spent := True, rv_settled := True\<rparr>) (rs_rows st)\<rparr>))"
    unfolding settle_permit_def using gate(1) by (simp add: st_bind_def)
  show thesis
  proof (cases "bt_get (rs_rows st) (pm_mutation_id permit)")
    case None
    then show thesis by (intro that(1)) (simp add: step)
  next
    case (Some row)
    show thesis
    proof (cases "rv_permit row = permit \<and> rv_attempt_id row = as_attempt_id subj \<and> rv_fence row = as_fence subj
        \<and> \<not> rv_spent row \<and> \<not> rv_settled row")
      case True
      with Some gate(2) show thesis by (intro that(2) [of row]) (simp_all add: step)
    next
      case False
      with Some have "\<exists>e. settle_permit check permit subj st = (Inl e, st)" unfolding step by auto
      then show thesis using that(1) by blast
    qed
  qed
qed

end

section \<open>The ledger as the gate\<close>

definition ledger_gate :: "'x ledger_ext_scheme \<Rightarrow> memory_ledger lease_check" where
  "ledger_gate ex subj s = (check_active_lease ex subj s, s)"

interpretation lg: lease_gate "ledger_gate ex" for ex
  by unfold_locales (simp add: ledger_gate_def)

end
