(* ===== verification/Reservation_Guarantees.thy ===== *)
theory Reservation_Guarantees
  imports Mutation_Reservation Lease_Fencing Plain_Environment
begin

text \<open>
  The permit store over the in-process ledger: reservations and settlements interleaved with every operation of
  the ledger.
\<close>

section \<open>Runs\<close>

datatype permit_action =
    PaLedger ledger_action
  | PaReserve active_lease_subject mutation_reserve_request
  | PaSettle one_use_permit active_lease_subject

fun permit_step :: "'x graph_ext_scheme \<Rightarrow> permit_action \<Rightarrow> memory_ledger reservation_store \<Rightarrow> memory_ledger reservation_store" where
  "permit_step ex (PaLedger act) st = st\<lparr>rs_gate := ledger_step ex act (rs_gate st)\<rparr>"
| "permit_step ex (PaReserve subj q) st = snd (reserve_mutation ex (ledger_gate ex) subj q st)"
| "permit_step ex (PaSettle p subj) st = snd (settle_permit (ledger_gate ex) p subj st)"

text \<open>The mutation a step spends, if it does.\<close>

fun permit_spends :: "'x graph_ext_scheme \<Rightarrow> permit_action \<Rightarrow> memory_ledger reservation_store \<Rightarrow> string list" where
  "permit_spends ex (PaSettle p subj) st =
     (if is_ok (fst (settle_permit (ledger_gate ex) p subj st)) then [pm_mutation_id p] else [])"
| "permit_spends ex _ st = []"

fun permit_log :: "'x graph_ext_scheme \<Rightarrow> permit_action list \<Rightarrow> memory_ledger reservation_store \<Rightarrow> string list" where
  "permit_log ex [] st = []"
| "permit_log ex (act # acts) st = permit_spends ex act st @ permit_log ex acts (permit_step ex act st)"

definition permit_run :: "'x graph_ext_scheme \<Rightarrow> permit_action list \<Rightarrow> memory_ledger reservation_store" where
  "permit_run ex acts = fold (permit_step ex) acts (reservation_new memory_new)"

fun ledger_part :: "permit_action list \<Rightarrow> ledger_action list" where
  "ledger_part [] = []"
| "ledger_part (PaLedger act # acts) = act # ledger_part acts"
| "ledger_part (_ # acts) = ledger_part acts"

lemma ledger_part_append: "ledger_part (xs @ ys) = ledger_part xs @ ledger_part ys"
  by (induction xs rule: ledger_part.induct) simp_all

lemma length_ledger_part: "length (ledger_part acts) \<le> length acts"
  by (induction acts rule: ledger_part.induct) simp_all

lemma reserve_gate: "rs_gate (snd (reserve_mutation hx (ledger_gate ex) subj q st)) = rs_gate st"
  by (cases rule: lg.reserve_cases [of hx ex subj q st]) simp_all

lemma settle_gate: "rs_gate (snd (settle_permit (ledger_gate ex) p subj st)) = rs_gate st"
  by (cases rule: lg.settle_cases [of ex p subj st]) simp_all

text \<open>The ledger inside the store is the ledger run of the ledger's own actions.\<close>

lemma fold_gate: "rs_gate (fold (permit_step ex) acts st) = fold (ledger_step ex) (ledger_part acts) (rs_gate st)"
proof (induction acts arbitrary: st)
  case (Cons act acts)
  then show ?case by (cases act) (simp_all add: reserve_gate settle_gate)
qed simp

lemma run_gate: "rs_gate (permit_run ex acts) = ledger_run ex (ledger_part acts)"
  by (simp add: permit_run_def fold_gate ledger_run_def reservation_new_def)

section \<open>Rows\<close>

text \<open>Rows are never removed, never change their permit or their writer, and are settled for good.\<close>

definition rows_kept :: "memory_ledger reservation_store \<Rightarrow> memory_ledger reservation_store \<Rightarrow> bool" where
  "rows_kept st t \<longleftrightarrow> (\<forall>m row. bt_get (rs_rows st) m = Some row \<longrightarrow>
     (\<exists>row'. bt_get (rs_rows t) m = Some row' \<and> rv_permit row' = rv_permit row \<and>
        rv_attempt_id row' = rv_attempt_id row \<and> rv_fence row' = rv_fence row \<and> (rv_settled row \<longrightarrow> rv_settled row')))"

lemma rows_kept_refl: "rows_kept st st"
  by (simp add: rows_kept_def)

lemma rows_kept_trans: "rows_kept st t \<Longrightarrow> rows_kept t u \<Longrightarrow> rows_kept st u"
  unfolding rows_kept_def by metis

lemma step_rows_kept: "rows_kept st (permit_step ex act st)"
proof (cases act)
  case (PaLedger a)
  then show ?thesis by (simp add: rows_kept_def)
next
  case (PaReserve subj q)
  then show ?thesis
    by (cases rule: lg.reserve_cases [of ex ex subj q st]) (auto simp: rows_kept_def)
next
  case (PaSettle p subj)
  then show ?thesis
    by (cases rule: lg.settle_cases [of ex p subj st]) (auto simp: rows_kept_def)
qed

lemma fold_rows_kept: "rows_kept st (fold (permit_step ex) acts st)"
proof (induction acts arbitrary: st)
  case (Cons act acts)
  then show ?case using step_rows_kept rows_kept_trans by fastforce
qed (simp add: rows_kept_refl)

lemma kept_settled: "rows_kept st t \<Longrightarrow> is_settled st m \<Longrightarrow> is_settled t m"
  unfolding rows_kept_def is_settled_def by (auto split: option.splits) (metis option.inject option.distinct(1))+

text \<open>A step spends a mutation exactly when it turns it from open to settled.\<close>

lemma step_spends:
  "count_list (permit_spends ex act st) m + (if is_settled st m then 1 else 0) =
     (if is_settled (permit_step ex act st) m then 1 else 0)"
proof (cases act)
  case (PaLedger a)
  then show ?thesis by (simp add: is_settled_def)
next
  case (PaReserve subj q)
  then show ?thesis
    by (cases rule: lg.reserve_cases [of ex ex subj q st]) (simp_all add: is_settled_def)
next
  case (PaSettle p subj)
  then show ?thesis
    by (cases rule: lg.settle_cases [of ex p subj st]) (simp_all add: is_settled_def)
qed

lemma log_spends:
  "count_list (permit_log ex acts st) m + (if is_settled st m then 1 else 0) =
     (if is_settled (fold (permit_step ex) acts st) m then 1 else 0)"
proof (induction acts arbitrary: st)
  case (Cons act acts)
  show ?case using step_spends [of ex act st m] Cons.IH [of "permit_step ex act st"] by simp
qed simp

text \<open>Where in a run a mutation is spent.\<close>

lemma log_split:
  assumes "m \<in> set (permit_log ex acts st)"
  obtains pre p subj post where "acts = pre @ PaSettle p subj # post" "pm_mutation_id p = m"
    "is_ok (fst (settle_permit (ledger_gate ex) p subj (fold (permit_step ex) pre st)))"
proof -
  have "\<exists>pre p subj post. acts = pre @ PaSettle p subj # post \<and> pm_mutation_id p = m \<and>
      is_ok (fst (settle_permit (ledger_gate ex) p subj (fold (permit_step ex) pre st)))"
    using assms
  proof (induction acts arbitrary: st)
    case (Cons act acts)
    show ?case
    proof (cases "m \<in> set (permit_spends ex act st)")
      case True
      then obtain p subj where "act = PaSettle p subj" "pm_mutation_id p = m"
        "is_ok (fst (settle_permit (ledger_gate ex) p subj st))"
        by (cases act) (auto split: if_splits)
      then show ?thesis by (intro exI [of _ "[]"]) auto
    next
      case False
      with Cons.prems have "m \<in> set (permit_log ex acts (permit_step ex act st))" by simp
      from Cons.IH [OF this] obtain pre p subj post where "acts = pre @ PaSettle p subj # post" "pm_mutation_id p = m"
        "is_ok (fst (settle_permit (ledger_gate ex) p subj (fold (permit_step ex) pre (permit_step ex act st))))" by blast
      then show ?thesis by (intro exI [of _ "act # pre"]) auto
    qed
  qed simp
  then show thesis using that by blast
qed

section \<open>A run\<close>

text \<open>A writer reserves a mutation under its lease; in the longer run the lease expires and another writer takes over.\<close>

abbreviation plain_subject :: active_lease_subject where
  "plain_subject \<equiv> lease_subject_from_attempt (plain_attempt ''a'' 1)"

definition plain_mutation :: mutation_reserve_request where
  "plain_mutation = \<lparr>mr_mutation_id = ''m'', mr_operation = ''o'', mr_request_digest = ''d''\<rparr>"

definition plain_permit_acts :: "permit_action list" where
  "plain_permit_acts = [PaLedger (ActMaterializeGraph plain_graph ''0''), PaLedger (ActAcquire (plain_request ''k'' ''a'')),
     PaReserve plain_subject plain_mutation]"

definition plain_outbid_acts :: "permit_action list" where
  "plain_outbid_acts = plain_permit_acts @ [PaLedger (ActAdvanceClock 20), PaLedger (ActAcquire (plain_request ''j'' ''b''))]"

lemma plain_permit_settles:
  "fst (settle_permit (ledger_gate plain_ext) (permit_for plain_ext plain_mutation) plain_subject
     (permit_run plain_ext plain_permit_acts)) = Inr ()"
  by code_simp

lemma plain_outbid:
  "(let st = permit_run plain_ext plain_outbid_acts in
     (map_option rv_attempt_id (bt_get (rs_rows st) ''m''),
      map_option (\<lambda>a. (at_variant_id a, at_fence a)) (bt_get (ml_attempts (rs_gate st)) ''atm_atm:a''),
      bt_get (ml_fences (rs_gate st)) ''var_var:s:wp:0'')) =
    (Some ''atm_atm:a'', Some (''var_var:s:wp:0'', 1), Some 2)"
  by code_simp

section \<open>Guarantees\<close>

text \<open>C12: A permit is one-use: in every interleaving of reservations, settlements and ledger operations each mutation is
  spent at most once, it counts as settled from then on and not before, and it is spent by the very attempt and
  fence that reserved it while that attempt passes the ledger's active-lease check.\<close>

theorem permit_spent_once:
  "count_list (permit_log ex acts (reservation_new memory_new)) m =
     (if is_settled (permit_run ex acts) m then 1 else 0) \<and>
   (settle_permit (ledger_gate ex) p subj (permit_run ex acts) = (Inr (), t) \<longrightarrow>
      \<not> is_settled (permit_run ex acts) (pm_mutation_id p) \<and> is_settled t (pm_mutation_id p) \<and>
      check_active_lease ex subj (ledger_run ex (ledger_part acts)) = Inr () \<and>
      (\<exists>row. bt_get (rs_rows (permit_run ex acts)) (pm_mutation_id p) = Some row \<and>
         rv_permit row = p \<and> rv_attempt_id row = as_attempt_id subj \<and> rv_fence row = as_fence subj))"
proof -
  have "count_list (permit_log ex acts (reservation_new memory_new)) m = (if is_settled (permit_run ex acts) m then 1 else 0)"
    using log_spends [of ex acts "reservation_new memory_new" m]
    by (simp add: permit_run_def reservation_new_def is_settled_def)
  then show ?thesis
    by (cases rule: lg.settle_cases [of ex p subj "permit_run ex acts"])
      (auto simp: ledger_gate_def run_gate is_settled_def)
qed

theorem permit_spent_once_witness:
  "\<not> is_settled (permit_run plain_ext plain_permit_acts) ''m'' \<and>
   check_active_lease plain_ext plain_subject (ledger_run plain_ext (ledger_part plain_permit_acts)) = Inr ()"
proof -
  let ?p = "permit_for plain_ext plain_mutation"
  obtain t where "settle_permit (ledger_gate plain_ext) ?p plain_subject (permit_run plain_ext plain_permit_acts) = (Inr (), t)"
    using plain_permit_settles by (metis prod.collapse)
  moreover have "pm_mutation_id ?p = ''m''" by (simp add: permit_for_def plain_mutation_def)
  ultimately show ?thesis using permit_spent_once [of plain_ext plain_permit_acts "''m''" ?p plain_subject t] by simp
qed

text \<open>C11: A permit dies with its writer's authority. Once the permanent fence of the variant of the reserving attempt is
  above that attempt's fence, no later sequence of steps spends the reserved mutation.\<close>

theorem outbid_permit_never_spent:
  assumes "length acts + length later < 2 ^ 64"
    and row: "bt_get (rs_rows (permit_run ex acts)) m = Some row"
    and attempt: "bt_get (ml_attempts (rs_gate (permit_run ex acts))) (rv_attempt_id row) = Some a"
    and outbid: "bt_get (ml_fences (rs_gate (permit_run ex acts))) (at_variant_id a) = Some f" "at_fence a < f"
  shows "m \<notin> set (permit_log ex later (permit_run ex acts))"
proof
  assume "m \<in> set (permit_log ex later (permit_run ex acts))"
  then obtain pre p subj post where split: "later = pre @ PaSettle p subj # post" "pm_mutation_id p = m"
    and ok: "is_ok (fst (settle_permit (ledger_gate ex) p subj (fold (permit_step ex) pre (permit_run ex acts))))"
    by (rule log_split)
  let ?t = "fold (permit_step ex) pre (permit_run ex acts)"
  from ok obtain row' where row': "bt_get (rs_rows ?t) m = Some row'" "rv_attempt_id row' = as_attempt_id subj"
    and pass: "check_active_lease ex subj (rs_gate ?t) = Inr ()"
    by (cases rule: lg.settle_cases [of ex p subj ?t]) (auto simp: split(2) ledger_gate_def is_ok_def)
  from fold_rows_kept [of "permit_run ex acts" ex pre] row row' have same: "as_attempt_id subj = rv_attempt_id row"
    unfolding rows_kept_def by fastforce
  have gate: "rs_gate ?t = ledger_run ex (ledger_part acts @ ledger_part pre)"
    by (simp add: fold_gate run_gate ledger_run_append)
  have "check_active_lease ex subj (ledger_run ex (ledger_part acts @ ledger_part pre)) \<noteq> Inr ()"
  proof (rule outbid_never_passes)
    show "length (ledger_part acts) + length (ledger_part pre) < 2 ^ 64"
      using assms(1) split(1) length_ledger_part [of acts] length_ledger_part [of pre] by simp
  qed (use attempt outbid same in \<open>simp_all add: run_gate\<close>)
  with pass gate show False by simp
qed

theorem outbid_permit_never_spent_witness:
  "''m'' \<notin> set (permit_log plain_ext [PaSettle (permit_for plain_ext plain_mutation) plain_subject]
     (permit_run plain_ext plain_outbid_acts))"
proof -
  let ?st = "permit_run plain_ext plain_outbid_acts"
  from plain_outbid obtain row a where row: "bt_get (rs_rows ?st) ''m'' = Some row" "rv_attempt_id row = ''atm_atm:a''"
    and a: "bt_get (ml_attempts (rs_gate ?st)) ''atm_atm:a'' = Some a" "at_variant_id a = ''var_var:s:wp:0''" "at_fence a = 1"
    and f: "bt_get (ml_fences (rs_gate ?st)) ''var_var:s:wp:0'' = Some 2"
    by (auto simp: Let_def)
  have len: "length plain_outbid_acts + length [PaSettle (permit_for plain_ext plain_mutation) plain_subject] < 2 ^ 64"
    by (simp add: plain_outbid_acts_def plain_permit_acts_def)
  show ?thesis
    by (rule outbid_permit_never_spent [OF len row(1), where a = a and f = 2]) (simp_all add: row a f)
qed

end
