(* ===== verification/Lease_Service.thy ===== *)
theory Lease_Service
  imports Memory_Leases
begin

text \<open>
  The lease service, \<^verbatim>\<open>crates/application/src/leases.rs\<close>: the deterministic acquisition request of a variant, the
  authority token of a grant, and the calls it makes on the ledger. \<open>rfc3339\<close> is the field of that name of the
  external crates.
\<close>

definition request_for :: "'x hash_ext_scheme \<Rightarrow> stored_graph \<Rightarrow> nat \<Rightarrow> string \<Rightarrow> int \<Rightarrow> ledger_error + lease_request" where
  "request_for ex g variant_index seed ttl =
     (if variant_index < length (sg_variants g) then
        Ok \<lparr>lq_idempotency_key = ''lease:'' @ seed, lq_mission_id = mi_id (sg_mission g),
           lq_variant_id = va_id (sg_variants g ! variant_index), lq_attempt_seed = seed,
           lq_runner_id = typed_id_from_seed ex ''run'' seed, lq_runner_epoch = 1,
           lq_workspace_id = typed_id_from_seed ex ''wsp'' seed, lq_workspace_nonce = digest_of ex seed,
           lq_scope_revision = 1, lq_context_revision = 1, lq_ttl_seconds = ttl\<rparr>
      else Err (LeStore ''variant missing''))"

definition token_for :: "'x hash_ext_scheme \<Rightarrow> stored_graph \<Rightarrow> attempt \<Rightarrow> ledger_error + authority_token" where
  "token_for ex g a =
     res_bind (ok_or (List.find (\<lambda>v. va_id v = at_variant_id a) (sg_variants g)) (LeStore ''attempt variant not in graph'')) (\<lambda>v.
       Ok \<lparr>tk_organization_id = mi_organization_id (sg_mission g), tk_repository_id = mi_repository_id (sg_mission g),
          tk_mission_id = mi_id (sg_mission g), tk_acceptance_contract_id = mi_acceptance_contract_id (sg_mission g),
          tk_plan_revision_id = pr_id (sg_plan g), tk_graph_sequence = 1, tk_work_package_id = at_work_package_id a,
          tk_selection_group_id = va_selection_group_id v, tk_variant_id = va_id v, tk_attempt_id = at_id a,
          tk_attempt_fence = at_fence a, tk_runner_id = at_runner_id a, tk_runner_epoch = at_runner_epoch a,
          tk_workspace_id = at_workspace_id a, tk_workspace_nonce = at_workspace_nonce a,
          tk_scope_revision = at_scope_revision a, tk_context_revision = at_context_revision a,
          tk_config_snapshot_hash = digest_of ex ''cfg'', tk_policy_snapshot_hash = digest_of ex ''pol'',
          tk_routing_policy_hash = digest_of ex ''route'', tk_credential_profile_id = None,
          tk_credential_generation = None\<rparr>)"

definition service_acquire ::
    "'x ledger_ext_scheme \<Rightarrow> stored_graph \<Rightarrow> nat \<Rightarrow> string \<Rightarrow> int \<Rightarrow> (attempt \<times> authority_token \<times> lease_grant) ledger_op" where
  "service_acquire ex g variant_index seed ttl =
     st_bind (st_lift (request_for ex g variant_index seed ttl)) (\<lambda>req.
     st_bind (acquire_lease ex req) (\<lambda>grant.
     st_bind (st_lift (token_for ex g (lg_attempt grant))) (\<lambda>tk.
       st_ok (lg_attempt grant, tk, grant))))"

definition expire_due :: "'x ledger_ext_scheme \<Rightarrow> expired_lease list ledger_op" where
  "expire_due ex = expire_leases ex"

definition heartbeat_of :: "lease_grant \<Rightarrow> heartbeat_request" where
  "heartbeat_of grant = \<lparr>hb_variant_id = al_variant_id (lg_lease grant), hb_attempt_id = al_attempt_id (lg_lease grant),
     hb_fence = al_fence (lg_lease grant), hb_runner_id = al_runner_id (lg_lease grant),
     hb_runner_epoch = al_runner_epoch (lg_lease grant), hb_workspace_nonce = al_workspace_nonce (lg_lease grant),
     hb_ttl_seconds = al_ttl_seconds (lg_lease grant)\<rparr>"

definition service_validate_ttl :: "int \<Rightarrow> ledger_error + int" where
  "service_validate_ttl ttl = from_domain (validate_lease_ttl ttl)"

definition service_release :: "'x ledger_ext_scheme \<Rightarrow> lease_grant \<Rightarrow> attempt_state \<Rightarrow> bool \<Rightarrow> unit ledger_op" where
  "service_release ex grant final_state requeue =
     release_lease ex \<lparr>rq_variant_id = al_variant_id (lg_lease grant), rq_attempt_id = al_attempt_id (lg_lease grant),
       rq_final_state = final_state, rq_requeue = requeue\<rparr>"

definition service_workspace_cleanup :: "preservation_decision \<Rightarrow> attempt \<Rightarrow> ledger_error + digest" where
  "service_workspace_cleanup decision a = from_domain (authorize_workspace_cleanup decision a)"

definition authorize_patch_application :: "authority_token \<Rightarrow> attempt \<Rightarrow> ledger_error + unit" where
  "authorize_patch_application tk a =
     res_bind (from_domain (token_verify tk (at_id a) (at_fence a))) (\<lambda>_.
       if \<not> permits_patch_application (at_state a) then
         Err (LeDomain (StaleAuthority (at_id a @ '' cannot apply a patch while '' @ attempt_state_debug (at_state a))))
       else Ok ())"

end
