(* ===== verification/Effect_Broker.thy ===== *)
theory Effect_Broker
  imports Memory_Effects Graph_Delta
begin

text \<open>
  The effect broker, \<^verbatim>\<open>crates/effects/src/broker.rs\<close>, over the in-process ledger and any forge, with the
  request guards of \<^verbatim>\<open>forge.rs\<close>, the failures of \<^verbatim>\<open>error.rs\<close> and the response-losing forge of
  \<^verbatim>\<open>lost.rs\<close>. The forge is a type parameter of the Rust functions; here it is the record of the two port
  operations the broker calls, over a state of any type.
\<close>

section \<open>Failures and the forge port\<close>

datatype effects_error =
    RefDenied string | BadOid string | ForgeUnauthenticated string | CapabilityUnprobed string
  | LiveAdmissionUnavailable string | PushRejected string "string option" | ResponseLost string
  | GitFailed string | EeIo string | DurableQueueInvalid string | IllegalPhase string string
  | RetryWithoutReconcile string | EeLedger ledger_error | UnsupportedByAdapter string
  | ProtectionMismatch string | CheckSubjectMismatch string | IntegrationSubjectAmbiguous string
  | IntegrationSubjectMismatch string | IntegrationPreconditionFailed string | OrphanedRemote string
  | MergeGroupOpaque string | TargetReadbackUnavailable string

fun effects_reason_code :: "effects_error \<Rightarrow> string" where
  "effects_reason_code (RefDenied _) = ''REF_DENIED''"
| "effects_reason_code (BadOid _) = ''BAD_OID''"
| "effects_reason_code (ForgeUnauthenticated _) = ''FORGE_UNAUTHENTICATED''"
| "effects_reason_code (CapabilityUnprobed _) = ''CAPABILITY_UNPROBED''"
| "effects_reason_code (LiveAdmissionUnavailable _) = ''LIVE_ADMISSION_UNAVAILABLE''"
| "effects_reason_code (PushRejected _ _) = ''PUSH_REJECTED''"
| "effects_reason_code (ResponseLost _) = ''RESPONSE_LOST''"
| "effects_reason_code (GitFailed _) = ''GIT_FAILED''"
| "effects_reason_code (EeIo _) = ''IO_FAILED''"
| "effects_reason_code (DurableQueueInvalid _) = ''DURABLE_QUEUE_INVALID''"
| "effects_reason_code (IllegalPhase _ _) = ''ILLEGAL_EFFECT_PHASE''"
| "effects_reason_code (RetryWithoutReconcile _) = ''RETRY_WITHOUT_RECONCILE''"
| "effects_reason_code (EeLedger e) = ledger_reason_code e"
| "effects_reason_code (UnsupportedByAdapter _) = ''UNSUPPORTED_BY_ADAPTER''"
| "effects_reason_code (ProtectionMismatch _) = ''PROTECTION_MISMATCH''"
| "effects_reason_code (CheckSubjectMismatch _) = ''CHECK_SUBJECT_MISMATCH''"
| "effects_reason_code (IntegrationSubjectAmbiguous _) = ''INTEGRATION_SUBJECT_AMBIGUOUS''"
| "effects_reason_code (IntegrationSubjectMismatch _) = ''INTEGRATION_SUBJECT_MISMATCH''"
| "effects_reason_code (IntegrationPreconditionFailed _) = ''INTEGRATION_PRECONDITION_FAILED''"
| "effects_reason_code (OrphanedRemote _) = ''ORPHANED_REMOTE''"
| "effects_reason_code (MergeGroupOpaque _) = ''MERGE_GROUP_OPAQUE''"
| "effects_reason_code (TargetReadbackUnavailable _) = ''TARGET_READBACK_UNAVAILABLE''"

definition CANDIDATE_REF_PREFIX :: string where
  "CANDIDATE_REF_PREFIX = ''refs/heads/bullet/candidate/''"

definition ZERO_OID :: string where
  "ZERO_OID = ''0000000000000000000000000000000000000000''"

record push_request =
  pr_workspace_repo :: string
  pr_ref_name :: string
  pr_expected_old_oid :: string
  pr_new_oid :: string

record 'f forge_effects =
  fe_push_candidate_ref :: "push_request \<Rightarrow> ('f, effects_error, unit) mut_op"
  fe_read_ref :: "'f \<Rightarrow> string \<Rightarrow> effects_error + string option"

definition require_candidate_ref :: "string \<Rightarrow> effects_error + unit" where
  "require_candidate_ref ref_name =
     (let suffix = (case strip_prefix CANDIDATE_REF_PREFIX ref_name of Some s \<Rightarrow> s | None \<Rightarrow> []) in
      if suffix = [] \<or> list_ex (\<lambda>part. part = [] \<or> part = ''.'' \<or> part = ''..'' \<or> part = ''HEAD''
           \<or> CHR 0x5C \<in> set part) (split_on (CHR ''/'') suffix)
      then Err (RefDenied (ref_name @ '' is outside '' @ CANDIDATE_REF_PREFIX))
      else Ok ())"

definition require_oid :: "string \<Rightarrow> string \<Rightarrow> effects_error + unit" where
  "require_oid name value =
     (if length value = 40 \<and> list_all is_lower_hex value then Ok ()
      else Err (BadOid (name @ '' must be 40 lowercase hex characters'')))"

definition is_create :: "string \<Rightarrow> bool" where
  "is_create expected_old_oid \<longleftrightarrow> expected_old_oid = ZERO_OID"

section \<open>A forge that loses responses\<close>

datatype loss_mode = AfterPush | BeforePush

record 'f lost_response_forge =
  lf_inner :: 'f
  lf_lose_next :: "loss_mode option"

definition lost_new :: "'f \<Rightarrow> 'f lost_response_forge" where
  "lost_new inner = \<lparr>lf_inner = inner, lf_lose_next = None\<rparr>"

definition lose_next :: "loss_mode \<Rightarrow> 'f lost_response_forge \<Rightarrow> 'f lost_response_forge" where
  "lose_next mode l = l\<lparr>lf_lose_next := Some mode\<rparr>"

definition into_inner :: "'f lost_response_forge \<Rightarrow> effects_error + 'f" where
  "into_inner l =
     (if lf_lose_next l \<noteq> None then Err (DurableQueueInvalid ''cannot discard an armed lost-response fault'')
      else Ok (lf_inner l))"

definition lost_push :: "'f forge_effects \<Rightarrow> push_request \<Rightarrow> ('f lost_response_forge, effects_error, unit) mut_op" where
  "lost_push fe request l =
     (let l' = l\<lparr>lf_lose_next := None\<rparr> in
      case lf_lose_next l of
        None \<Rightarrow> (case fe_push_candidate_ref fe request (lf_inner l) of (r, f) \<Rightarrow> (r, l'\<lparr>lf_inner := f\<rparr>))
      | Some AfterPush \<Rightarrow>
          (case fe_push_candidate_ref fe request (lf_inner l) of
             (Inl e, f) \<Rightarrow> (Err e, l'\<lparr>lf_inner := f\<rparr>)
           | (Inr _, f) \<Rightarrow> (Err (ResponseLost ''push executed; response dropped''), l'\<lparr>lf_inner := f\<rparr>))
      | Some BeforePush \<Rightarrow> (Err (ResponseLost ''push never dispatched; response dropped''), l'))"

definition lost_response :: "'f forge_effects \<Rightarrow> 'f lost_response_forge forge_effects" where
  "lost_response fe = \<lparr>fe_push_candidate_ref = lost_push fe, fe_read_ref = (\<lambda>l. fe_read_ref fe (lf_inner l))\<rparr>"

section \<open>The broker\<close>

text \<open>
  The broker's functions borrow the ledger and the forge mutably; both are one state here.
  \<open>on_ledger\<close> is the \<open>?\<close> on a ledger call, whose error converts by \<open>From<LedgerError>\<close>.
\<close>

record 'f broker_world =
  bw_ledger :: memory_ledger
  bw_forge :: 'f

type_synonym ('f, 'a) broker_op = "('f broker_world, effects_error, 'a) mut_op"

definition on_ledger :: "'a ledger_op \<Rightarrow> ('f, 'a) broker_op" where
  "on_ledger m w = (case m (bw_ledger w) of (r, s) \<Rightarrow> (map_err EeLedger r, w\<lparr>bw_ledger := s\<rparr>))"

text \<open>\<open>serde_json\<close> prints the outbox row of an authorized intent.\<close>

record broker_ext = graph_ext +
  x_enc_intent :: "effect_intent \<Rightarrow> string + string"

definition READ_BACK_METHOD :: string where
  "READ_BACK_METHOD = ''git-ls-remote-read-back''"

record intent_input =
  in_provider :: string
  in_logical_effect_key :: string
  in_target_ref :: string
  in_new_oid :: string
  in_expected_old_oid :: string
  in_attempt_id :: string
  in_fence :: u64
  in_policy_version :: string
  in_provider_idempotency_key :: "string option"

datatype reconcile_outcome = RoAdopted | RoRetried effect_state | RoQuarantined

definition load :: "string \<Rightarrow> ('f, effect_intent) broker_op" where
  "load eid = st_get (\<lambda>w. ok_or (bt_get (ml_effect_intents (bw_ledger w)) eid)
     (EeLedger (LeStore (''unknown effect intent '' @ eid))))"

definition mark :: "u64 option \<Rightarrow> command_phase \<Rightarrow> string \<Rightarrow> ('f, unit) broker_op" where
  "mark seq phase now =
     (case seq of Some n \<Rightarrow> on_ledger (outbox_mark n phase now) | None \<Rightarrow> st_ok ())"

definition intent_of :: "'x broker_ext_scheme \<Rightarrow> intent_input \<Rightarrow> string \<Rightarrow> effect_intent" where
  "intent_of ex i now =
     \<lparr>ei_id = typed_id_from_seed ex ''efi'' (in_provider i @ '':'' @ in_logical_effect_key i),
      ei_logical_effect_key = in_logical_effect_key i, ei_provider = in_provider i,
      ei_target_identity = in_target_ref i, ei_desired_state_hash = in_new_oid i,
      ei_expected_old_oid = in_expected_old_oid i, ei_attempt_id = in_attempt_id i, ei_fence = in_fence i,
      ei_policy_version = in_policy_version i, ei_payload_hash = [],
      ei_provider_idempotency_key = in_provider_idempotency_key i, ei_state = EfProposed,
      ei_unknown_retries = 0, ei_created_at = now\<rparr>"

definition propose :: "'x broker_ext_scheme \<Rightarrow> intent_input \<Rightarrow> string \<Rightarrow> ('f, effect_intent \<times> bool) broker_op" where
  "propose ex i now =
     st_bind (st_lift (require_candidate_ref (in_target_ref i))) (\<lambda>_.
     st_bind (st_lift (require_oid ''new_oid'' (in_new_oid i))) (\<lambda>_.
     st_bind (st_lift (require_oid ''expected_old_oid'' (in_expected_old_oid i))) (\<lambda>_.
       on_ledger (record_effect_intent ex (intent_of ex i now)))))"

definition authorize :: "'x broker_ext_scheme \<Rightarrow> string \<Rightarrow> authority_token \<Rightarrow> ('f, effect_intent \<times> u64) broker_op" where
  "authorize ex eid tk =
     st_bind (load eid) (\<lambda>row.
     st_bind (st_lift (map_err (EeLedger \<circ> LeDomain) (token_verify tk (ei_attempt_id row) (ei_fence row)))) (\<lambda>_.
     st_bind (st_get (\<lambda>w. ok_or (bt_get (ml_leases (bw_ledger w)) (tk_variant_id tk))
       (EeLedger (LeDomain (StaleAuthority (''no active lease for variant '' @ tk_variant_id tk)))))) (\<lambda>lease.
     if al_attempt_id lease \<noteq> tk_attempt_id tk \<or> al_fence lease \<noteq> tk_attempt_fence tk then
       st_err (EeLedger (LeDomain (StaleAuthority (''lease held by '' @ al_attempt_id lease @ '' at fence ''
         @ show_u (al_fence lease) @ '', not '' @ tk_attempt_id tk @ '' at fence '' @ show_u (tk_attempt_fence tk)))))
     else
       st_bind (on_ledger (transition_effect ex eid EfAuthorized)) (\<lambda>updated.
       st_bind (st_lift (map_err (\<lambda>e. EeIo (''encode outbox payload: '' @ e)) (x_enc_intent ex updated))) (\<lambda>payload.
       st_bind (on_ledger (outbox_enqueue ex None ''effect_dispatch'' payload)) (\<lambda>seq.
         st_ok (updated, seq)))))))"

definition verdict_of :: "effect_intent \<Rightarrow> string option \<Rightarrow> receipt_verdict" where
  "verdict_of row observed =
     (case observed of
        Some v \<Rightarrow> if v = ei_desired_state_hash row then RvMatch else RvMismatch
      | None \<Rightarrow> RvAbsent)"

definition settle_read_back ::
    "'x broker_ext_scheme \<Rightarrow> effect_intent \<Rightarrow> string option \<Rightarrow> bool \<Rightarrow> u64 option \<Rightarrow> string \<Rightarrow> ('f, effect_state) broker_op" where
  "settle_read_back ex row observed adopted outbox_seq now =
     (let verdict = verdict_of row observed;
          receipt = \<lparr>er_id = receipt_id ex (ei_id row @ '':'' @ verdict_as_str verdict @ '':''
                       @ (if adopted then ''true'' else ''false'') @ '':'' @ now),
                     er_effect_intent_id = ei_id row, er_observed_remote_identity = ei_target_identity row,
                     er_observed_state_hash = observed, er_verification_method = READ_BACK_METHOD,
                     er_verification_result = verdict, er_adopted_after_unknown = adopted,
                     er_recorded_at = now\<rparr> in
      st_bind (on_ledger (record_effect_receipt ex receipt)) (\<lambda>_.
      if verdict = RvMatch then
        st_bind (on_ledger (transition_effect ex (ei_id row) EfVerified)) (\<lambda>_.
        st_bind (on_ledger (transition_effect ex (ei_id row) EfCommitted)) (\<lambda>updated.
        st_bind (mark outbox_seq CpVerified now) (\<lambda>_. st_ok (ei_state updated))))
      else
        st_bind (on_ledger (transition_effect ex (ei_id row) EfQuarantined)) (\<lambda>updated.
        st_bind (mark outbox_seq CpUnknown now) (\<lambda>_. st_ok (ei_state updated)))))"

definition read_ref :: "'f forge_effects \<Rightarrow> string \<Rightarrow> ('f, string option) broker_op" where
  "read_ref fe ref_name = st_get (\<lambda>w. fe_read_ref fe (bw_forge w) ref_name)"

text \<open>The push itself never aborts the broker: its answer is the value the caller matches on.\<close>

definition push_candidate_ref :: "'f forge_effects \<Rightarrow> push_request \<Rightarrow> ('f, effects_error + unit) broker_op" where
  "push_candidate_ref fe request w =
     (case fe_push_candidate_ref fe request (bw_forge w) of (r, f) \<Rightarrow> (Ok r, w\<lparr>bw_forge := f\<rparr>))"

definition settle_answer ::
    "'x broker_ext_scheme \<Rightarrow> 'f forge_effects \<Rightarrow> effect_intent \<Rightarrow> u64 option \<Rightarrow> string \<Rightarrow> effects_error + unit \<Rightarrow>
     ('f, effect_state) broker_op" where
  "settle_answer ex fe row outbox_seq now answer =
     (case answer of
        Inr _ \<Rightarrow>
          st_bind (on_ledger (transition_effect ex (ei_id row) EfReceiptPending)) (\<lambda>_.
          st_bind (read_ref fe (ei_target_identity row)) (\<lambda>observed.
            settle_read_back ex row observed False outbox_seq now))
      | Inl (ResponseLost _) \<Rightarrow>
          st_bind (on_ledger (transition_effect ex (ei_id row) EfOutcomeUnknown)) (\<lambda>updated.
          st_bind (mark outbox_seq CpUnknown now) (\<lambda>_. st_ok (ei_state updated)))
      | Inl (PushRejected _ observed) \<Rightarrow>
          st_bind (on_ledger (record_effect_receipt ex
            \<lparr>er_id = receipt_id ex (ei_id row @ '':rejected:'' @ now), er_effect_intent_id = ei_id row,
             er_observed_remote_identity = ei_target_identity row, er_observed_state_hash = observed,
             er_verification_method = READ_BACK_METHOD,
             er_verification_result = (if observed \<noteq> None then RvMismatch else RvAbsent),
             er_adopted_after_unknown = False, er_recorded_at = now\<rparr>)) (\<lambda>_.
          st_bind (on_ledger (transition_effect ex (ei_id row) EfQuarantined)) (\<lambda>updated.
          st_bind (mark outbox_seq CpUnknown now) (\<lambda>_. st_ok (ei_state updated))))
      | Inl other \<Rightarrow> st_err other)"

definition push_and_settle ::
    "'x broker_ext_scheme \<Rightarrow> 'f forge_effects \<Rightarrow> effect_intent \<Rightarrow> string \<Rightarrow> u64 option \<Rightarrow> string \<Rightarrow> ('f, effect_state) broker_op" where
  "push_and_settle ex fe row workspace outbox_seq now =
     st_bind (push_candidate_ref fe
       \<lparr>pr_workspace_repo = workspace, pr_ref_name = ei_target_identity row,
        pr_expected_old_oid = ei_expected_old_oid row, pr_new_oid = ei_desired_state_hash row\<rparr>)
       (settle_answer ex fe row outbox_seq now)"

definition dispatch ::
    "'x broker_ext_scheme \<Rightarrow> 'f forge_effects \<Rightarrow> string \<Rightarrow> string \<Rightarrow> u64 option \<Rightarrow> string \<Rightarrow> ('f, effect_state) broker_op" where
  "dispatch ex fe eid workspace outbox_seq now =
     st_bind (load eid) (\<lambda>row.
     if ei_state row = EfOutcomeUnknown then st_err (RetryWithoutReconcile eid)
     else if ei_state row \<noteq> EfAuthorized then
       st_err (IllegalPhase (effect_as_str (ei_state row)) (effect_as_str EfAuthorized))
     else
       st_bind (on_ledger (transition_effect ex eid EfDispatching)) (\<lambda>row.
       st_bind (mark outbox_seq CpApplied now) (\<lambda>_.
         push_and_settle ex fe row workspace outbox_seq now)))"

definition non_execution :: "effect_intent \<Rightarrow> string option \<Rightarrow> bool" where
  "non_execution row observed \<longleftrightarrow>
     (if is_create (ei_expected_old_oid row) then observed = None
      else observed = Some (ei_expected_old_oid row))"

definition reconcile ::
    "'x broker_ext_scheme \<Rightarrow> 'f forge_effects \<Rightarrow> string \<Rightarrow> string \<Rightarrow> u64 option \<Rightarrow> string \<Rightarrow> ('f, reconcile_outcome) broker_op" where
  "reconcile ex fe eid workspace outbox_seq now =
     st_bind (load eid) (\<lambda>row.
     if ei_state row \<noteq> EfOutcomeUnknown then
       st_err (IllegalPhase (effect_as_str (ei_state row)) (effect_as_str EfOutcomeUnknown))
     else
       st_bind (read_ref fe (ei_target_identity row)) (\<lambda>observed.
       if observed = Some (ei_desired_state_hash row) then
         st_bind (settle_read_back ex row observed True outbox_seq now) (\<lambda>_. st_ok RoAdopted)
       else if non_execution row observed \<and> ei_unknown_retries row = 0 then
         st_bind (on_ledger (transition_effect ex eid EfDispatching)) (\<lambda>retried.
         st_bind (push_and_settle ex fe retried workspace outbox_seq now) (\<lambda>state. st_ok (RoRetried state)))
       else
         st_bind (settle_read_back ex row observed False outbox_seq now) (\<lambda>_. st_ok RoQuarantined)))"

end
