(* ===== verification/Broker_Guarantees.thy ===== *)
theory Broker_Guarantees
  imports Effect_Broker Ledger_Runs Ledger_History Plain_Environment "HOL-Library.Sublist"
begin

text \<open>
  What the effect broker guarantees against a forge that may answer anything, lose any response and
  be changed by others at any time: where it pushes, how often it pushes for one intent, what a retry
  needs, and what stands behind a committed effect. The forge is wrapped by a recorder of the requests
  it receives; runs interleave the broker with every other operation of the ledger.
\<close>

section \<open>Runs of the broker\<close>

definition recorded :: "'f forge_effects \<Rightarrow> ('f \<times> push_request list) forge_effects" where
  "recorded fe = \<lparr>
     fe_push_candidate_ref = (\<lambda>q (f, sent). case fe_push_candidate_ref fe q f of (r, f') \<Rightarrow> (r, f', sent @ [q])),
     fe_read_ref = (\<lambda>(f, sent). fe_read_ref fe f)\<rparr>"

type_synonym 'f recorded_world = "('f \<times> push_request list) broker_world"

abbreviation pushes :: "'f recorded_world \<Rightarrow> push_request list" where
  "pushes w \<equiv> snd (bw_forge w)"

abbreviation intents :: "'f broker_world \<Rightarrow> string \<Rightarrow> effect_intent option" where
  "intents w \<equiv> bt_get (ml_effect_intents (bw_ledger w))"

abbreviation receipts :: "'f broker_world \<Rightarrow> effect_receipt list" where
  "receipts w \<equiv> ml_effect_receipts (bw_ledger w)"

datatype 'f broker_action =
    BaLedger ledger_action
  | BaRemote "'f \<Rightarrow> 'f"
  | BaPropose intent_input string
  | BaAuthorize string authority_token
  | BaDispatch string string "u64 option" string
  | BaReconcile string string "u64 option" string

fun broker_step ::
    "'x broker_ext_scheme \<Rightarrow> 'f forge_effects \<Rightarrow> 'f broker_action \<Rightarrow> 'f recorded_world \<Rightarrow> 'f recorded_world" where
  "broker_step ex fe (BaLedger act) w = w\<lparr>bw_ledger := ledger_step ex act (bw_ledger w)\<rparr>"
| "broker_step ex fe (BaRemote g) w = w\<lparr>bw_forge := (g (fst (bw_forge w)), pushes w)\<rparr>"
| "broker_step ex fe (BaPropose i now) w = snd (propose ex i now w)"
| "broker_step ex fe (BaAuthorize eid tk) w = snd (authorize ex eid tk w)"
| "broker_step ex fe (BaDispatch eid ws seq now) w = snd (dispatch ex (recorded fe) eid ws seq now w)"
| "broker_step ex fe (BaReconcile eid ws seq now) w = snd (reconcile ex (recorded fe) eid ws seq now w)"

text \<open>Only the broker writes effect rows: the other writers of the port leave them alone.\<close>

fun brokered :: "'f broker_action \<Rightarrow> bool" where
  "brokered (BaLedger act) \<longleftrightarrow> (case act of ActRecordIntent _ \<Rightarrow> False | ActTransitionEffect _ _ \<Rightarrow> False | _ \<Rightarrow> True)"
| "brokered _ \<longleftrightarrow> True"

fun action_intent :: "'f broker_action \<Rightarrow> string option" where
  "action_intent (BaDispatch eid _ _ _) = Some eid"
| "action_intent (BaReconcile eid _ _ _) = Some eid"
| "action_intent _ = None"

text \<open>Each push is attributed to the intent of the action that sent it.\<close>

definition attributed_step ::
    "'x broker_ext_scheme \<Rightarrow> 'f forge_effects \<Rightarrow> 'f broker_action \<Rightarrow>
     'f recorded_world \<times> string option list \<Rightarrow> 'f recorded_world \<times> string option list" where
  "attributed_step ex fe act = (\<lambda>(w, by_intent).
     let w' = broker_step ex fe act w in
     (w', by_intent @ replicate (length (pushes w') - length (pushes w)) (action_intent act)))"

definition broker_new :: "'f \<Rightarrow> 'f recorded_world" where
  "broker_new f = \<lparr>bw_ledger = memory_new, bw_forge = (f, [])\<rparr>"

definition broker_run ::
    "'x broker_ext_scheme \<Rightarrow> 'f forge_effects \<Rightarrow> 'f \<Rightarrow> 'f broker_action list \<Rightarrow> 'f recorded_world \<times> string option list" where
  "broker_run ex fe f acts = fold (attributed_step ex fe) acts (broker_new f, [])"

section \<open>Invariant and credit\<close>

definition dispatches :: "effect_intent \<Rightarrow> nat" where
  "dispatches i = (if ei_state i \<in> {EfProposed, EfAuthorized, EfFailed} then 0 else 1 + unat (ei_unknown_retries i))"

definition settled :: "effect_receipt list \<Rightarrow> effect_intent \<Rightarrow> bool" where
  "settled rs i \<longleftrightarrow> (\<exists>r \<in> set rs. er_effect_intent_id r = ei_id i \<and> er_verification_result r = RvMatch \<and>
     er_observed_remote_identity r = ei_target_identity i \<and> er_observed_state_hash r = Some (ei_desired_state_hash i))"

definition confined :: "push_request \<Rightarrow> bool" where
  "confined q \<longleftrightarrow> require_candidate_ref (pr_ref_name q) = Inr () \<and> require_oid ''new_oid'' (pr_new_oid q) = Inr () \<and>
     require_oid ''expected_old_oid'' (pr_expected_old_oid q) = Inr ()"

definition request_of :: "string \<Rightarrow> effect_intent \<Rightarrow> push_request" where
  "request_of ws i = \<lparr>pr_workspace_repo = ws, pr_ref_name = ei_target_identity i,
     pr_expected_old_oid = ei_expected_old_oid i, pr_new_oid = ei_desired_state_hash i\<rparr>"

definition intent_ok :: "effect_receipt list \<Rightarrow> string \<Rightarrow> effect_intent \<Rightarrow> bool" where
  "intent_ok rs eid i \<longleftrightarrow> ei_id i = eid \<and> confined (request_of [] i) \<and> unat (ei_unknown_retries i) \<le> 1 \<and>
     (ei_state i \<in> {EfVerified, EfCommitted} \<longrightarrow> settled rs i)"

definition broker_inv :: "'f recorded_world \<Rightarrow> bool" where
  "broker_inv w \<longleftrightarrow> (\<forall>eid i. intents w eid = Some i \<longrightarrow> intent_ok (receipts w) eid i) \<and> (\<forall>q \<in> set (pushes w). confined q)"

definition same_target :: "effect_intent \<Rightarrow> effect_intent \<Rightarrow> bool" where
  "same_target i j \<longleftrightarrow> ei_id i = ei_id j \<and> request_of [] i = request_of [] j"

text \<open>How many dispatches the row of an intent accounts for, less the pushes sent so far.\<close>

definition credit :: "string \<Rightarrow> 'f recorded_world \<Rightarrow> int" where
  "credit eid w = (case intents w eid of None \<Rightarrow> 0 | Some i \<Rightarrow> int (dispatches i)) - int (length (pushes w))"

definition advances :: "string \<Rightarrow> int \<Rightarrow> 'f recorded_world \<Rightarrow> 'f recorded_world \<Rightarrow> bool" where
  "advances eid d w t \<longleftrightarrow> broker_inv t \<and> prefix (pushes w) (pushes t) \<and> set (receipts w) \<subseteq> set (receipts t) \<and>
     (\<forall>e. e \<noteq> eid \<longrightarrow> intents t e = intents w e) \<and>
     (\<forall>i. intents w eid = Some i \<longrightarrow> (\<exists>j. intents t eid = Some j \<and> same_target i j)) \<and>
     credit eid w + d \<le> credit eid t"

definition stands :: "effect_intent \<Rightarrow> 'f recorded_world \<Rightarrow> bool" where
  "stands row w \<longleftrightarrow> broker_inv w \<and> (\<exists>i. intents w (ei_id row) = Some i \<and> same_target row i)"

definition spends :: "effect_intent \<Rightarrow> int \<Rightarrow> ('f \<times> push_request list, 'a) broker_op \<Rightarrow> bool" where
  "spends row d m \<longleftrightarrow> (\<forall>w. stands row w \<longrightarrow> advances (ei_id row) d w (snd (m w)))"

lemma advances_refl: "broker_inv w \<Longrightarrow> advances eid 0 w w"
  by (simp add: advances_def same_target_def)

lemma advances_trans: "advances eid d w t \<Longrightarrow> advances eid e t u \<Longrightarrow> advances eid (d + e) w u"
  unfolding advances_def
  by (intro conjI) (auto simp: same_target_def intro: prefix_order.trans)

lemma advances_weaken: "advances eid d w t \<Longrightarrow> e \<le> d \<Longrightarrow> advances eid e w t"
  by (auto simp: advances_def)

lemma advances_stands: "stands row w \<Longrightarrow> advances (ei_id row) d w t \<Longrightarrow> stands row t"
  by (auto simp: advances_def stands_def same_target_def)

lemma spends_bind:
  assumes "spends row d m" and "\<And>a. spends row e (k a)" and "c \<le> d" and "c \<le> d + e"
  shows "spends row c (st_bind m k)"
  unfolding spends_def
proof (intro allI impI)
  fix w :: "('a \<times> push_request list) broker_world"
  assume w: "stands row w"
  have m: "advances (ei_id row) d w (snd (m w))" using assms(1) w by (simp add: spends_def)
  show "advances (ei_id row) c w (snd (st_bind m k w))"
  proof (cases "m w")
    case (Pair r t)
    show ?thesis
    proof (cases r)
      case (Inl e)
      with Pair m assms(3) show ?thesis by (simp add: st_bind_def) (rule advances_weaken)
    next
      case (Inr a)
      have "advances (ei_id row) e t (snd (k a t))"
        using assms(2) [of a] advances_stands [OF w] m Pair by (simp add: spends_def)
      with m Pair have "advances (ei_id row) (d + e) w (snd (k a t))" using advances_trans by fastforce
      with Pair Inr assms(4) show ?thesis by (simp add: st_bind_def) (rule advances_weaken)
    qed
  qed
qed

lemma spends_if: "(c \<Longrightarrow> spends row d m) \<Longrightarrow> (\<not> c \<Longrightarrow> spends row d n) \<Longrightarrow> spends row d (if c then m else n)"
  by simp

lemma bind_Ok: "m w = (Inr a, t) \<Longrightarrow> st_bind m k w = k a t"
  by (simp add: st_bind_def)

lemma bind_Err: "m w = (Inl e, t) \<Longrightarrow> st_bind m k w = (Inl e, t)"
  by (simp add: st_bind_def)

lemma spends_pure: "spends row 0 (st_lift r)" "spends row 0 (st_get g)" "spends row 0 (st_ok a)" "spends row 0 (st_err e)"
  by (simp_all add: spends_def stands_def st_lift_def st_get_def st_ok_def st_err_def advances_refl)

text \<open>Whatever leaves the intents alone and only adds receipts.\<close>

lemma intent_ok_mono: "intent_ok rs eid i \<Longrightarrow> set rs \<subseteq> set rs' \<Longrightarrow> intent_ok rs' eid i"
  by (auto simp: intent_ok_def settled_def)

lemma advances_frame:
  assumes "broker_inv w" and "intents t = intents w" and "set (receipts w) \<subseteq> set (receipts t)" and "pushes t = pushes w"
  shows "advances eid 0 w t"
proof -
  have "broker_inv t"
    using assms(1,3) unfolding broker_inv_def assms(2,4) by (blast intro: intent_ok_mono)
  with assms show ?thesis by (simp add: advances_def credit_def same_target_def)
qed

lemma snd_on_ledger: "snd (on_ledger m w) = w\<lparr>bw_ledger := snd (m (bw_ledger w))\<rparr>"
  by (simp add: on_ledger_def split: prod.splits)

lemma history_receipts: "history_ext s t \<Longrightarrow> set (ml_effect_receipts s) \<subseteq> set (ml_effect_receipts t)"
  by (auto simp: history_ext_def)

lemma advances_ledger:
  assumes "broker_inv w" and "effect_rows s = effect_rows (bw_ledger w)" and "history_ext (bw_ledger w) s"
  shows "advances eid 0 w (w\<lparr>bw_ledger := s\<rparr>)"
  using assms by (intro advances_frame) (auto simp: effect_rows_def dest: history_receipts)

lemma spends_ledger: "keeps effect_rows m \<Longrightarrow> extends m \<Longrightarrow> spends row 0 (on_ledger m)"
  by (simp add: spends_def stands_def snd_on_ledger advances_ledger keeps_def extends_def)

lemma spends_mark: "spends row 0 (mark seq phase now)"
  by (auto simp: mark_def spends_pure spends_ledger effs.fr_outbox_mark extends_outbox_mark split: option.splits)

lemma spends_receipt: "spends row 0 (on_ledger (record_effect_receipt ex rc))"
  by (simp add: spends_ledger effs.fr_receipt extends_receipt)

lemma spends_read: "spends row 0 (read_ref fe name)"
  by (simp add: read_ref_def spends_pure)

section \<open>Moving an intent\<close>

lemma edge_early: "effect_transition a b = Inr b \<Longrightarrow> b \<in> {EfProposed, EfAuthorized, EfFailed} \<Longrightarrow> a \<in> {EfProposed, EfAuthorized}"
  by (cases a) (auto simp: effect_transition_def)

lemma edge_dispatching: "effect_transition a EfDispatching = Inr c \<Longrightarrow> a \<in> {EfAuthorized, EfOutcomeUnknown}"
  by (cases a) (auto simp: effect_transition_def)

lemma unat_small: "unat (r :: u32) \<le> 1 \<Longrightarrow> r = 0 \<or> unat r = 1"
  by (auto simp: le_Suc_eq unat_eq_0)

lemma dispatches_move:
  fixes i :: effect_intent
  assumes edge: "effect_transition (ei_state i) to = Inr to" and small: "unat (ei_unknown_retries i) \<le> 1"
    and fresh: "to = EfDispatching \<Longrightarrow> ei_state i = EfOutcomeUnknown \<Longrightarrow> ei_unknown_retries i = 0"
    and n: "n = (if ei_state i = EfOutcomeUnknown \<and> to = EfDispatching then ei_unknown_retries i + 1 else ei_unknown_retries i)"
  shows "unat n \<le> 1 \<and>
    dispatches i + (if to = EfDispatching then 1 else 0) \<le> dispatches (i\<lparr>ei_state := to, ei_unknown_retries := n\<rparr>)"
proof (cases "to = EfDispatching")
  case True
  with edge edge_dispatching consider "ei_state i = EfAuthorized" | "ei_state i = EfOutcomeUnknown" by blast
  then show ?thesis using True small fresh n by cases (auto simp: dispatches_def)
next
  case False
  with small n edge edge_early [of "ei_state i" to] show ?thesis by (auto simp: dispatches_def)
qed

lemma advances_transition:
  assumes inv: "broker_inv w" and tr: "transition_effect ex eid to (bw_ledger w) = (r, s)"
    and fresh: "\<And>i. intents w eid = Some i \<Longrightarrow> to = EfDispatching \<Longrightarrow> ei_state i = EfOutcomeUnknown \<Longrightarrow> ei_unknown_retries i = 0"
    and matched: "\<And>i. intents w eid = Some i \<Longrightarrow> to = EfVerified \<Longrightarrow> settled (receipts w) i"
  shows "advances eid (if to = EfDispatching \<and> is_ok r then 1 else 0) w (w\<lparr>bw_ledger := s\<rparr>)"
    and "r = Inr row \<Longrightarrow> ei_id row = eid \<and> stands row (w\<lparr>bw_ledger := s\<rparr>) \<and> ei_state row = to"
proof -
  have "history_ext (bw_ledger w) s"
    using extends_step [OF extends_transition, of "bw_ledger w" ex eid to] tr by simp
  then have grown: "set (receipts w) \<subseteq> set (ml_effect_receipts s)" by (rule history_receipts)
  have "advances eid (if to = EfDispatching \<and> is_ok r then 1 else 0) w (w\<lparr>bw_ledger := s\<rparr>) \<and>
    (r = Inr row \<longrightarrow> ei_id row = eid \<and> stands row (w\<lparr>bw_ledger := s\<rparr>) \<and> ei_state row = to)"
    using tr
  proof (cases rule: transition_effect_cases)
    case refused
    then have "effect_rows s = effect_rows (bw_ledger w)" using effect_rows_same by blast
    with refused(2) grown show ?thesis
      using advances_frame [OF inv, of "w\<lparr>bw_ledger := s\<rparr>"] by (auto simp: effect_rows_def is_ok_def)
  next
    case (moved i n)
    let ?j = "i\<lparr>ei_state := to, ei_unknown_retries := n\<rparr>"
    have rows: "intents (w\<lparr>bw_ledger := s\<rparr>) e = (if e = eid then Some ?j else intents w e)" for e
      using moved(4) by (simp add: effect_rows_def)
    have i: "intent_ok (receipts w) eid i" using inv moved(1) by (simp add: broker_inv_def)
    have d: "unat n \<le> 1 \<and> dispatches i + (if to = EfDispatching then 1 else 0) \<le> dispatches ?j"
      using dispatches_move [OF moved(2) _ fresh [OF moved(1)] moved(5)] i by (simp add: intent_ok_def)
    have same: "same_target i ?j" "same_target ?j ?j" by (simp_all add: same_target_def request_of_def)
    have "settled (receipts w) ?j" if "to \<in> {EfVerified, EfCommitted}"
    proof -
      have "settled (receipts w) i"
        using that matched [OF moved(1)] i effect_committed_pred moved(2) by (auto simp: intent_ok_def)
      then show ?thesis by (simp add: settled_def)
    qed
    with i d have j: "intent_ok (receipts w) eid ?j" by (simp add: intent_ok_def request_of_def)
    have "intent_ok (ml_effect_receipts s) e k" if "intents (w\<lparr>bw_ledger := s\<rparr>) e = Some k" for e k
    proof (rule intent_ok_mono [OF _ grown])
      show "intent_ok (receipts w) e k" using that j inv unfolding rows broker_inv_def by (auto split: if_splits)
    qed
    with inv have inv': "broker_inv (w\<lparr>bw_ledger := s\<rparr>)" by (simp add: broker_inv_def)
    have "advances eid (if to = EfDispatching \<and> is_ok r then 1 else 0) w (w\<lparr>bw_ledger := s\<rparr>)"
      using inv' grown same(1) d moved(1) unfolding advances_def credit_def rows
      by (intro conjI) (simp_all split: if_splits)
    moreover have "stands ?j (w\<lparr>bw_ledger := s\<rparr>)" "ei_id ?j = eid"
      using inv' same(2) i rows [of eid] by (simp_all add: stands_def intent_ok_def)
    ultimately show ?thesis using moved(3) by auto
  qed
  then show "advances eid (if to = EfDispatching \<and> is_ok r then 1 else 0) w (w\<lparr>bw_ledger := s\<rparr>)"
    and "r = Inr row \<Longrightarrow> ei_id row = eid \<and> stands row (w\<lparr>bw_ledger := s\<rparr>) \<and> ei_state row = to" by blast+
qed

lemma spends_transition:
  assumes "to \<notin> {EfDispatching, EfVerified}"
  shows "spends row 0 (on_ledger (transition_effect ex (ei_id row) to))"
  unfolding spends_def
proof (intro allI impI)
  fix w :: "('a \<times> push_request list) broker_world"
  assume w: "stands row w"
  obtain r s where tr: "transition_effect ex (ei_id row) to (bw_ledger w) = (r, s)" by fastforce
  have "advances (ei_id row) (if to = EfDispatching \<and> is_ok r then 1 else 0) w (w\<lparr>bw_ledger := s\<rparr>)"
    by (rule advances_transition(1) [OF _ tr]) (use w assms in \<open>auto simp: stands_def\<close>)
  with assms show "advances (ei_id row) 0 w (snd (on_ledger (transition_effect ex (ei_id row) to) w))"
    by (simp add: snd_on_ledger tr)
qed

text \<open>A matching receipt is stored before the row becomes \<open>VERIFIED\<close>.\<close>

lemma find_in_set: "List.find P xs = Some x \<Longrightarrow> x \<in> set xs"
  by (induction xs) (auto split: if_splits)

lemma receipt_stored:
  assumes "record_effect_receipt ex rc s = (Inr b, t)"
  shows "rc \<in> set (ml_effect_receipts t)"
proof -
  from assms obtain u where u: "(case List.find (\<lambda>row. er_id row = er_id rc) (ml_effect_receipts u) of
         Some existing \<Rightarrow>
           if existing = rc then (Ok False, u)
           else (Err (LeDomain (Conflict (''effect receipt '' @ er_id rc @ '' differs from the stored row''))), u)
       | None \<Rightarrow>
           (Ok True, push_event ex ''effect_receipt_recorded'' (er_id rc) (Some (er_effect_intent_id rc)) None None
             (u\<lparr>ml_effect_receipts := ml_effect_receipts u @ [rc]\<rparr>))) = (Inr b, t)"
    unfolding record_effect_receipt_def st_bind_Ok_iff by blast
  show ?thesis
  proof (cases "List.find (\<lambda>row. er_id row = er_id rc) (ml_effect_receipts u)")
    case None
    with u have "t = push_event ex ''effect_receipt_recorded'' (er_id rc) (Some (er_effect_intent_id rc)) None None
             (u\<lparr>ml_effect_receipts := ml_effect_receipts u @ [rc]\<rparr>)" by simp
    then show ?thesis by (simp add: push_event_def Let_def)
  next
    case (Some existing)
    with u have "existing = rc \<and> t = u" by (simp split: if_splits)
    with find_in_set [OF Some] show ?thesis by simp
  qed
qed

lemma spends_verified:
  assumes rc: "er_effect_intent_id rc = ei_id row" "er_verification_result rc = RvMatch"
      "er_observed_remote_identity rc = ei_target_identity row" "er_observed_state_hash rc = Some (ei_desired_state_hash row)"
    and k: "\<And>a. spends row 0 (k a)"
  shows "spends row 0 (st_bind (on_ledger (record_effect_receipt ex rc)) (\<lambda>_.
    st_bind (on_ledger (transition_effect ex (ei_id row) EfVerified)) k))"
  unfolding spends_def
proof (intro allI impI)
  fix w :: "('a \<times> push_request list) broker_world"
  assume w: "stands row w"
  obtain r s where rec: "record_effect_receipt ex rc (bw_ledger w) = (r, s)" by fastforce
  obtain r' s' where tr: "transition_effect ex (ei_id row) EfVerified s = (r', s')" by fastforce
  let ?t = "w\<lparr>bw_ledger := s\<rparr>" and ?u = "w\<lparr>bw_ledger := s'\<rparr>"
  have t: "advances (ei_id row) 0 w ?t"
    using spends_receipt [of row ex rc] w by (auto simp: spends_def snd_on_ledger rec)
  note standing = advances_stands [OF w t]
  show "advances (ei_id row) 0 w (snd (st_bind (on_ledger (record_effect_receipt ex rc)) (\<lambda>_.
    st_bind (on_ledger (transition_effect ex (ei_id row) EfVerified)) k) w))"
  proof (cases "is_ok r")
    case False
    with t show ?thesis by (auto simp: st_bind_def on_ledger_def rec is_ok_iff map_err_def split: sum.splits)
  next
    case True
    then have stored: "rc \<in> set (receipts ?t)" using rec receipt_stored by (auto simp: is_ok_iff)
    have "settled (receipts ?t) i" if "intents ?t (ei_id row) = Some i" for i
      using that stored rc standing by (auto simp: settled_def stands_def same_target_def request_of_def)
    note matched = this
    have "advances (ei_id row) (if EfVerified = EfDispatching \<and> is_ok r' then 1 else 0) ?t (?t\<lparr>bw_ledger := s'\<rparr>)"
    proof (rule advances_transition(1))
      show "broker_inv ?t" using standing by (simp add: stands_def)
      show "transition_effect ex (ei_id row) EfVerified (bw_ledger ?t) = (r', s')" by (simp add: tr)
    qed (use matched in simp_all)
    then have u: "advances (ei_id row) 0 ?t ?u" by simp
    from advances_trans [OF t u] have wu: "advances (ei_id row) 0 w ?u" by simp
    have "advances (ei_id row) 0 w (snd (k a ?u))" for a
      using advances_trans [OF wu, of 0] k [of a] advances_stands [OF w wu] by (simp add: spends_def)
    with wu True show ?thesis
      by (auto simp: st_bind_def on_ledger_def rec tr is_ok_iff map_err_def split: sum.splits)
  qed
qed

lemmas spends_seq = spends_bind [where d = 0 and e = 0 and c = 0, simplified]

lemmas spends_rules = spends_seq spends_if spends_receipt spends_transition spends_mark spends_pure spends_read

lemma spends_settle: "spends row 0 (settle_read_back ex row observed adopted seq now)"
proof (cases "verdict_of row observed = RvMatch")
  case True
  then have o: "observed = Some (ei_desired_state_hash row)" by (auto simp: verdict_of_def split: option.splits if_splits)
  show ?thesis unfolding settle_read_back_def Let_def True
    by (simp only: if_True simp_thms, rule spends_verified) (simp_all add: o spends_rules)
next
  case False
  show ?thesis unfolding settle_read_back_def Let_def if_not_P [OF False]
    by (intro spends_rules) simp_all
qed

lemma advances_push:
  assumes inv: "broker_inv w" and q: "confined q" and t: "bw_ledger t = bw_ledger w" "pushes t = pushes w @ [q]"
  shows "advances eid (- 1) w t"
proof -
  have "broker_inv t" using inv q unfolding broker_inv_def t by simp
  then show ?thesis unfolding advances_def credit_def t by (simp add: same_target_def)
qed

lemma spends_push: "spends row (- 1) (push_candidate_ref (recorded fe) (request_of ws row))"
  unfolding spends_def
proof (intro allI impI)
  fix w :: "('a \<times> push_request list) broker_world"
  assume w: "stands row w"
  then obtain i where i: "broker_inv w" "intents w (ei_id row) = Some i" "same_target row i" by (auto simp: stands_def)
  then have "confined (request_of [] i)" by (simp add: broker_inv_def intent_ok_def)
  with i(3) have ok: "confined (request_of ws row)" by (simp add: confined_def same_target_def request_of_def)
  obtain f sent where fs: "bw_forge w = (f, sent)" by fastforce
  obtain r f' where push: "fe_push_candidate_ref fe (request_of ws row) f = (r, f')" by fastforce
  have "snd (push_candidate_ref (recorded fe) (request_of ws row) w) = w\<lparr>bw_forge := (f', sent @ [request_of ws row])\<rparr>"
    by (simp add: push_candidate_ref_def recorded_def push fs)
  then show "advances (ei_id row) (- 1) w (snd (push_candidate_ref (recorded fe) (request_of ws row) w))"
    using advances_push [OF i(1) ok] fs by simp
qed

lemma spends_answer: "spends row 0 (settle_answer ex fe row seq now answer)"
proof (cases answer)
  case (Inl e)
  then show ?thesis by (cases e; simp only: settle_answer_def sum.case effects_error.case; intro spends_rules; simp)
next
  case (Inr u)
  show ?thesis unfolding settle_answer_def Inr sum.case by (intro spends_rules spends_settle) simp
qed

lemma spends_push_and_settle: "spends row (- 1) (push_and_settle ex (recorded fe) row ws seq now)"
  unfolding push_and_settle_def request_of_def [symmetric]
  by (rule spends_bind [OF spends_push spends_answer]) simp_all

section \<open>The broker's operations\<close>

text \<open>Moving to \<open>DISPATCHING\<close> earns what the push then spends.\<close>

lemma advances_dispatching:
  assumes inv: "broker_inv w" and row: "intents w eid = Some row"
    and ready: "ei_state row = EfAuthorized \<or> ei_state row = EfOutcomeUnknown \<and> ei_unknown_retries row = 0"
    and k: "\<And>row'. ei_id row' = eid \<Longrightarrow> spends row' (- 1) (k row')"
  shows "advances eid 0 w (snd (st_bind (on_ledger (transition_effect ex eid EfDispatching)) k w))"
proof -
  obtain r s where tr: "transition_effect ex eid EfDispatching (bw_ledger w) = (r, s)" by fastforce
  have fresh: "ei_unknown_retries i = 0" if "intents w eid = Some i" "ei_state i = EfOutcomeUnknown" for i
    using that row ready by auto
  have step: "advances eid (if is_ok r then 1 else 0) w (w\<lparr>bw_ledger := s\<rparr>)"
    using advances_transition(1) [OF inv tr] fresh by simp
  show ?thesis
  proof (cases r)
    case (Inl e)
    have "on_ledger (transition_effect ex eid EfDispatching) w = (Inl (EeLedger e), w\<lparr>bw_ledger := s\<rparr>)"
      by (simp add: on_ledger_def tr Inl map_err_def)
    with step Inl show ?thesis by (simp add: bind_Err is_ok_def)
  next
    case (Inr row')
    have one: "advances eid 1 w (w\<lparr>bw_ledger := s\<rparr>)" using step Inr by (simp add: is_ok_def)
    have row': "ei_id row' = eid" "stands row' (w\<lparr>bw_ledger := s\<rparr>)"
      using advances_transition(2) [OF inv tr _ _ Inr] fresh by simp_all
    have "advances (ei_id row') (- 1) (w\<lparr>bw_ledger := s\<rparr>) (snd (k row' (w\<lparr>bw_ledger := s\<rparr>)))"
      using k [OF row'(1)] row'(2) unfolding spends_def by blast
    from advances_trans [OF one this [unfolded row'(1)]] have "advances eid 0 w (snd (k row' (w\<lparr>bw_ledger := s\<rparr>)))" by simp
    moreover have "on_ledger (transition_effect ex eid EfDispatching) w = (Inr row', w\<lparr>bw_ledger := s\<rparr>)"
      by (simp add: on_ledger_def tr Inr map_err_def)
    ultimately show ?thesis by (simp add: bind_Ok)
  qed
qed

lemma load_cases:
  obtains (missing) e where "load eid w = (Inl e, w)" "intents w eid = None"
    | (found) row where "load eid w = (Inr row, w)" "intents w eid = Some row"
  by (cases "intents w eid") (auto simp: load_def st_get_def ok_or_def)

lemma inv_stands: "broker_inv w \<Longrightarrow> intents w eid = Some row \<Longrightarrow> ei_id row = eid \<and> stands row w"
  by (auto simp: broker_inv_def intent_ok_def stands_def same_target_def)

lemma dispatch_advances:
  assumes "broker_inv w"
  shows "advances eid 0 w (snd (dispatch ex (recorded fe) eid ws seq now w))"
proof (cases rule: load_cases [of eid w])
  case (missing e)
  then show ?thesis by (simp add: dispatch_def bind_Err advances_refl assms)
next
  case (found row)
  show ?thesis
  proof (cases "ei_state row = EfAuthorized")
    case False
    then show ?thesis
      unfolding dispatch_def bind_Ok [where m = "load eid", OF found(1)] by (simp add: st_err_def advances_refl assms)
  next
    case True
    have "advances eid 0 w (snd (st_bind (on_ledger (transition_effect ex eid EfDispatching)) (\<lambda>row.
        st_bind (mark seq CpApplied now) (\<lambda>_. push_and_settle ex (recorded fe) row ws seq now)) w))"
    proof (rule advances_dispatching [OF assms found(2)])
      show "spends r (- 1) (st_bind (mark seq CpApplied now) (\<lambda>_. push_and_settle ex (recorded fe) r ws seq now))" for r
        by (rule spends_bind [OF spends_mark spends_push_and_settle]) simp_all
    qed (simp add: True)
    then show ?thesis
      unfolding dispatch_def bind_Ok [where m = "load eid", OF found(1)] True
      by (simp only: effect_state.distinct simp_thms if_False)
  qed
qed

lemma reconcile_advances:
  assumes "broker_inv w"
  shows "advances eid 0 w (snd (reconcile ex (recorded fe) eid ws seq now w))"
proof (cases rule: load_cases [of eid w])
  case (missing e)
  then show ?thesis by (simp add: reconcile_def bind_Err advances_refl assms)
next
  case (found row)
  have row: "ei_id row = eid" "stands row w" using inv_stands [OF assms found(2)] by blast+
  have settle: "spends row 0 (st_bind (settle_read_back ex row obs ad seq now) (\<lambda>_. st_ok out))" for obs ad and out :: reconcile_outcome
    by (rule spends_bind [OF spends_settle spends_pure(3)]) simp_all
  show ?thesis
  proof (cases "ei_state row = EfOutcomeUnknown")
    case False
    then show ?thesis
      unfolding reconcile_def bind_Ok [where m = "load eid", OF found(1)] by (simp add: st_err_def advances_refl assms)
  next
    case True
    have retry: "advances eid 0 w (snd (st_bind (on_ledger (transition_effect ex eid EfDispatching)) (\<lambda>retried.
        st_bind (push_and_settle ex (recorded fe) retried ws seq now) (\<lambda>state. st_ok (RoRetried state))) w))"
      if "ei_unknown_retries row = 0"
    proof (rule advances_dispatching [OF assms found(2)])
      show "spends r (- 1) (st_bind (push_and_settle ex (recorded fe) r ws seq now) (\<lambda>state. st_ok (RoRetried state)))" for r
        by (rule spends_bind [OF spends_push_and_settle spends_pure(3)]) simp_all
    qed (simp add: True that)
    show ?thesis
    proof (cases "fe_read_ref (recorded fe) (bw_forge w) (ei_target_identity row)")
      case (Inl e)
      then have "read_ref (recorded fe) (ei_target_identity row) w = (Inl e, w)" by (simp add: read_ref_def st_get_def)
      then show ?thesis
        unfolding reconcile_def bind_Ok [where m = "load eid", OF found(1)]
        by (simp add: True bind_Err advances_refl assms)
    next
      case (Inr obs)
      then have "read_ref (recorded fe) (ei_target_identity row) w = (Inr obs, w)" by (simp add: read_ref_def st_get_def)
      moreover have "advances eid 0 w (snd (st_bind (settle_read_back ex row obs ad seq now) (\<lambda>_. st_ok out) w))"
        for obs ad and out :: reconcile_outcome
        using settle row unfolding spends_def by blast
      ultimately show ?thesis
        unfolding reconcile_def bind_Ok [where m = "load eid", OF found(1)]
        using retry by (simp add: True bind_Ok [where m = "read_ref (recorded fe) (ei_target_identity row)"])
    qed
  qed
qed

text \<open>The other actions send nothing.\<close>

definition quiet :: "'f recorded_world \<Rightarrow> 'f recorded_world \<Rightarrow> bool" where
  "quiet w t \<longleftrightarrow> broker_inv t \<and> pushes t = pushes w \<and> (\<forall>eid. credit eid w \<le> credit eid t)"

lemma advances_quiet:
  assumes "advances eid 0 w t" and "bw_forge t = bw_forge w"
  shows "quiet w t"
proof -
  have "credit e w \<le> credit e t" for e
    using assms by (cases "e = eid") (simp_all add: advances_def credit_def)
  with assms show ?thesis by (simp add: quiet_def advances_def)
qed

definition forge_kept :: "('f, 'a) broker_op \<Rightarrow> bool" where
  "forge_kept m \<longleftrightarrow> (\<forall>w. bw_forge (snd (m w)) = bw_forge w)"

lemma forge_keptD: "forge_kept m \<Longrightarrow> bw_forge (snd (m w)) = bw_forge w"
  by (simp add: forge_kept_def)

lemma forge_kept_rules:
  "forge_kept (st_lift r)" "forge_kept (st_get g)" "forge_kept (st_ok a)" "forge_kept (st_err e)"
  "forge_kept (on_ledger m)" "forge_kept (load eid)"
  by (simp_all add: forge_kept_def st_lift_def st_get_def st_ok_def st_err_def snd_on_ledger load_def)

lemma forge_kept_bind: "forge_kept m \<Longrightarrow> (\<And>a. forge_kept (k a)) \<Longrightarrow> forge_kept (st_bind m k)"
  unfolding forge_kept_def st_bind_def by (auto split: prod.splits sum.splits) (metis snd_conv)+

lemma forge_kept_if: "forge_kept m \<Longrightarrow> forge_kept n \<Longrightarrow> forge_kept (if c then m else n)"
  by simp

lemma authorize_forge: "forge_kept (authorize ex eid tk)"
  unfolding authorize_def by (intro forge_kept_bind forge_kept_if forge_kept_rules)

lemma authorize_advances:
  assumes "broker_inv w"
  shows "advances eid 0 w (snd (authorize ex eid tk w))"
proof (cases rule: load_cases [of eid w])
  case (missing e)
  then show ?thesis by (simp add: authorize_def bind_Err advances_refl assms)
next
  case (found row)
  have row: "ei_id row = eid" "stands row w" using inv_stands [OF assms found(2)] by blast+
  have enq: "spends row 0 (on_ledger (outbox_enqueue ex None ''effect_dispatch'' p))" for p
    by (simp add: spends_ledger effs.fr_outbox_enqueue extends_outbox_enqueue)
  have auth: "spends row 0 (on_ledger (transition_effect ex eid EfAuthorized))"
    using spends_transition [of EfAuthorized row ex] row(1) by simp
  have "advances (ei_id row) 0 w (snd (authorize ex eid tk w))"
    unfolding authorize_def bind_Ok [where m = "load eid", OF found(1)]
    by (rule spends_def [THEN iffD1, rule_format, OF _ row(2)]) (intro spends_seq spends_if spends_pure auth enq)
  with row show ?thesis by simp
qed

lemma authorize_quiet: "broker_inv w \<Longrightarrow> quiet w (snd (authorize ex eid tk w))"
  by (rule advances_quiet [OF authorize_advances forge_keptD [OF authorize_forge]])

lemma bind_lift: "st_bind (st_lift r) k w = (case r of Inl e \<Rightarrow> (Inl e, w) | Inr a \<Rightarrow> k a w)"
  by (cases r) (simp_all add: st_bind_def st_lift_def)

lemma propose_cases:
  obtains (denied) "snd (propose ex i now w) = w"
    | (recorded) "confined (request_of [] (intent_of ex i now))"
        "snd (propose ex i now w) = w\<lparr>bw_ledger := snd (record_effect_intent ex (intent_of ex i now) (bw_ledger w))\<rparr>"
proof (cases "confined (request_of [] (intent_of ex i now))")
  case True
  then show thesis
    using recorded by (simp add: propose_def bind_lift snd_on_ledger confined_def request_of_def intent_of_def)
next
  case False
  then have "snd (propose ex i now w) = w"
    by (auto simp: propose_def bind_lift confined_def request_of_def intent_of_def split: sum.splits)
  then show thesis by (rule denied)
qed

lemma propose_quiet:
  assumes inv: "broker_inv w"
  shows "quiet w (snd (propose ex i now w))"
proof (cases rule: propose_cases [of ex i now w])
  case denied
  with inv show ?thesis by (simp add: quiet_def)
next
  case recorded
  obtain r s where rec: "record_effect_intent ex (intent_of ex i now) (bw_ledger w) = (r, s)" by fastforce
  have result: "snd (propose ex i now w) = w\<lparr>bw_ledger := s\<rparr>" using recorded(2) rec by simp
  have grown: "history_ext (bw_ledger w) s"
    using extends_step [OF extends_record_intent, of "bw_ledger w" ex "intent_of ex i now"] rec by simp
  have same: "quiet w (w\<lparr>bw_ledger := s\<rparr>)" if "same_rows (bw_ledger w) s"
    using advances_quiet [OF advances_ledger [OF inv effect_rows_same [OF that] grown]] by simp
  show ?thesis
    using rec
  proof (cases rule: record_effect_intent_cases)
    case (added hash)
    let ?j = "(intent_of ex i now)\<lparr>ei_payload_hash := hash, ei_unknown_retries := 0\<rparr>"
    let ?t = "w\<lparr>bw_ledger := s\<rparr>"
    have rows: "intents ?t e = (if e = ei_id (intent_of ex i now) then Some ?j else intents w e)" for e
      using added(6) by (simp add: effect_rows_def)
    have j: "intent_ok (receipts w) (ei_id (intent_of ex i now)) ?j"
      using recorded(1) by (simp add: intent_ok_def request_of_def intent_of_def)
    have "intent_ok (ml_effect_receipts s) e k" if "intents ?t e = Some k" for e k
    proof (rule intent_ok_mono [OF _ history_receipts [OF grown]])
      show "intent_ok (receipts w) e k" using that j inv unfolding rows broker_inv_def by (auto split: if_splits)
    qed
    with inv have "broker_inv ?t" by (simp add: broker_inv_def)
    moreover have "credit eid w \<le> credit eid ?t" for eid
      using added(4) unfolding credit_def rows by simp
    ultimately show ?thesis by (simp add: quiet_def result)
  qed (simp_all add: same result)
qed

section \<open>Runs\<close>

lemma step_cases:
  assumes "broker_inv w" and "brokered act"
  shows "case action_intent act of
      Some eid \<Rightarrow> advances eid 0 w (broker_step ex fe act w)
    | None \<Rightarrow> quiet w (broker_step ex fe act w)"
proof (cases act)
  case (BaLedger a)
  have "effect_rows (ledger_step ex a (bw_ledger w)) = effect_rows (bw_ledger w)"
    using assms(2) BaLedger by (intro step_effect_rows) auto
  then have "advances e 0 w (broker_step ex fe act w)" for e
    using advances_ledger [OF assms(1) _ step_history] BaLedger by simp
  with BaLedger show ?thesis using advances_quiet by fastforce
next
  case (BaRemote g)
  have "quiet w (w\<lparr>bw_forge := (g (fst (bw_forge w)), pushes w)\<rparr>)"
    using assms(1) by (simp add: quiet_def broker_inv_def credit_def)
  with BaRemote show ?thesis by simp
qed (use assms(1) propose_quiet authorize_quiet dispatch_advances reconcile_advances in simp_all)

definition dispatched :: "'f recorded_world \<Rightarrow> string \<Rightarrow> nat" where
  "dispatched w eid = (case intents w eid of None \<Rightarrow> 0 | Some i \<Rightarrow> dispatches i)"

lemma credit_dispatched: "credit eid w = int (dispatched w eid) - int (length (pushes w))"
  by (simp add: credit_def dispatched_def split: option.splits)

definition accounted :: "'f recorded_world \<times> string option list \<Rightarrow> bool" where
  "accounted = (\<lambda>(w, tags). broker_inv w \<and> length tags = length (pushes w) \<and> None \<notin> set tags \<and>
     (\<forall>eid. count_list tags (Some eid) \<le> dispatched w eid))"

lemma count_list_replicate: "count_list (replicate n x) y = (if x = y then n else 0)"
  by (induction n) auto

lemma step_accounted:
  assumes "accounted (w, tags)" and "brokered act"
  shows "accounted (attributed_step ex fe act (w, tags))"
proof -
  let ?t = "broker_step ex fe act w"
  let ?n = "length (pushes ?t) - length (pushes w)"
  have w: "broker_inv w" "length tags = length (pushes w)" "None \<notin> set tags" "count_list tags (Some e) \<le> dispatched w e" for e
    using assms(1) by (simp_all add: accounted_def)
  show ?thesis
  proof (cases "action_intent act")
    case None
    with step_cases [OF w(1) assms(2), of ex fe] have q: "quiet w ?t" by simp
    then have len: "pushes ?t = pushes w" "broker_inv ?t" by (simp_all add: quiet_def)
    have "dispatched w e \<le> dispatched ?t e" for e
      using q len by (simp add: quiet_def credit_dispatched)
    then have "count_list tags (Some e) \<le> dispatched ?t e" for e using w(4) [of e] order_trans by blast
    with w len show ?thesis by (simp add: attributed_step_def accounted_def Let_def)
  next
    case (Some eid)
    with step_cases [OF w(1) assms(2), of ex fe] have a: "advances eid 0 w ?t" by simp
    then have pre: "prefix (pushes w) (pushes ?t)" and inv: "broker_inv ?t"
      and rest: "e \<noteq> eid \<Longrightarrow> intents ?t e = intents w e" for e
      by (auto simp: advances_def)
    have grow: "length (pushes w) + ?n = length (pushes ?t)" using prefix_length_le [OF pre] by simp
    have here: "dispatched w eid + ?n \<le> dispatched ?t eid" using a grow unfolding advances_def credit_dispatched by linarith
    have "count_list (tags @ replicate ?n (Some eid)) (Some e) \<le> dispatched ?t e" for e
    proof (cases "e = eid")
      case True
      then show ?thesis using here w(4) [of eid] by (simp add: count_list_replicate)
    next
      case False
      then have "dispatched ?t e = dispatched w e" using rest by (simp add: dispatched_def)
      then show ?thesis using False w(4) [of e] by (simp add: count_list_replicate)
    qed
    then show ?thesis
      using w grow inv Some by (simp add: attributed_step_def accounted_def Let_def)
  qed
qed

lemma run_accounted: "list_all brokered acts \<Longrightarrow> accounted (broker_run ex fe f acts)"
proof (induction acts rule: rev_induct)
  case Nil
  have "broker_inv (broker_new f)" by (simp add: broker_inv_def broker_new_def memory_new_def)
  then show ?case by (simp add: broker_run_def accounted_def broker_new_def)
next
  case (snoc act acts)
  then have "accounted (broker_run ex fe f acts)" by simp
  moreover obtain w tags where "broker_run ex fe f acts = (w, tags)" by fastforce
  ultimately show ?case using step_accounted [of w tags act ex fe] snoc.prems by (simp add: broker_run_def)
qed


section \<open>What causes a push\<close>

lemma forge_kept_mark: "forge_kept (mark seq phase now)"
  by (simp add: mark_def forge_kept_rules split: option.splits)

lemma forge_kept_settle: "forge_kept (settle_read_back ex row observed adopted seq now)"
  unfolding settle_read_back_def Let_def
  by (intro forge_kept_bind forge_kept_if forge_kept_rules forge_kept_mark)

lemma forge_kept_read: "forge_kept (read_ref fe name)"
  by (simp add: read_ref_def forge_kept_rules)

lemmas forge_rules = forge_kept_bind forge_kept_if forge_kept_rules forge_kept_mark forge_kept_settle forge_kept_read

lemma forge_kept_answer: "forge_kept (settle_answer ex fe row seq now answer)"
proof (cases answer)
  case (Inl e)
  then show ?thesis by (cases e; simp only: settle_answer_def sum.case effects_error.case; intro forge_rules)
next
  case (Inr u)
  show ?thesis unfolding settle_answer_def Inr sum.case by (intro forge_rules)
qed

lemma push_and_settle_pushes:
  "pushes (snd (push_and_settle ex (recorded fe) row ws seq now w)) = pushes w @ [request_of ws row]"
proof -
  obtain f sent where fs: "bw_forge w = (f, sent)" by fastforce
  obtain r f' where push: "fe_push_candidate_ref fe (request_of ws row) f = (r, f')" by fastforce
  have sent: "push_candidate_ref (recorded fe) (request_of ws row) w = (Inr r, w\<lparr>bw_forge := (f', sent @ [request_of ws row])\<rparr>)"
    by (simp add: push_candidate_ref_def recorded_def push fs)
  have "bw_forge (snd (settle_answer ex (recorded fe) row seq now r v)) = bw_forge v" for v
    using forge_kept_answer unfolding forge_kept_def by blast
  then show ?thesis
    unfolding push_and_settle_def request_of_def [symmetric]
      bind_Ok [where m = "push_candidate_ref (recorded fe) (request_of ws row)", OF sent]
    by (simp add: fs)
qed

lemma dispatching_pushes:
  assumes "intents w eid = Some row"
    and k: "\<And>row' v. pushes (snd (k row' v)) = pushes v \<or> pushes (snd (k row' v)) = pushes v @ [request_of ws row']"
  shows "pushes (snd (st_bind (on_ledger (transition_effect ex eid EfDispatching)) k w)) \<in> {pushes w, pushes w @ [request_of ws row]}"
proof -
  obtain r s where tr: "transition_effect ex eid EfDispatching (bw_ledger w) = (r, s)" by fastforce
  show ?thesis
  proof (cases r)
    case (Inl e)
    have "on_ledger (transition_effect ex eid EfDispatching) w = (Inl (EeLedger e), w\<lparr>bw_ledger := s\<rparr>)"
      by (simp add: on_ledger_def tr Inl map_err_def)
    then show ?thesis by (simp add: bind_Err)
  next
    case (Inr row')
    have "on_ledger (transition_effect ex eid EfDispatching) w = (Inr row', w\<lparr>bw_ledger := s\<rparr>)"
      by (simp add: on_ledger_def tr Inr map_err_def)
    moreover have "request_of ws row' = request_of ws row"
      using tr Inr assms(1) by (cases rule: transition_effect_cases) (auto simp: request_of_def is_ok_def)
    ultimately show ?thesis using k [of row' "w\<lparr>bw_ledger := s\<rparr>"] by (auto simp: bind_Ok)
  qed
qed

lemma dispatch_pushes:
  assumes "pushes (snd (dispatch ex (recorded fe) eid ws seq now w)) \<noteq> pushes w"
  shows "\<exists>row. intents w eid = Some row \<and> ei_state row = EfAuthorized \<and>
    pushes (snd (dispatch ex (recorded fe) eid ws seq now w)) = pushes w @ [request_of ws row]"
proof (cases rule: load_cases [of eid w])
  case (missing e)
  with assms show ?thesis by (simp add: dispatch_def bind_Err)
next
  case (found row)
  have run: "dispatch ex (recorded fe) eid ws seq now w =
      (if ei_state row = EfOutcomeUnknown then st_err (RetryWithoutReconcile eid)
       else if ei_state row \<noteq> EfAuthorized then
         st_err (IllegalPhase (effect_as_str (ei_state row)) (effect_as_str EfAuthorized))
       else st_bind (on_ledger (transition_effect ex eid EfDispatching)) (\<lambda>row.
         st_bind (mark seq CpApplied now) (\<lambda>_. push_and_settle ex (recorded fe) row ws seq now))) w"
    unfolding dispatch_def bind_Ok [where m = "load eid", OF found(1)] ..
  have auth: "ei_state row = EfAuthorized" using assms unfolding run by (auto simp: st_err_def split: if_splits)
  let ?k = "\<lambda>row. st_bind (mark seq CpApplied now) (\<lambda>_. push_and_settle ex (recorded fe) row ws seq now)"
  have k: "pushes (snd (?k r v)) = pushes v \<or> pushes (snd (?k r v)) = pushes v @ [request_of ws r]" for r v
  proof -
    obtain m v' where mv: "mark seq CpApplied now v = (m, v')" by fastforce
    then have "pushes v' = pushes v" using forge_kept_mark unfolding forge_kept_def by (metis snd_conv)
    with mv show ?thesis by (cases m) (simp_all add: bind_Err bind_Ok push_and_settle_pushes)
  qed
  from dispatching_pushes [where k = ?k and ex = ex, OF found(2) k] assms found(2) auth show ?thesis
    unfolding run by auto
qed

lemma reconcile_pushes:
  assumes "pushes (snd (reconcile ex (recorded fe) eid ws seq now w)) \<noteq> pushes w"
  shows "\<exists>row obs. intents w eid = Some row \<and> ei_state row = EfOutcomeUnknown \<and> ei_unknown_retries row = 0 \<and>
    fe_read_ref fe (fst (bw_forge w)) (ei_target_identity row) = Inr obs \<and> obs \<noteq> Some (ei_desired_state_hash row) \<and>
    obs = (if ei_expected_old_oid row = ZERO_OID then None else Some (ei_expected_old_oid row)) \<and>
    pushes (snd (reconcile ex (recorded fe) eid ws seq now w)) = pushes w @ [request_of ws row]"
proof (cases rule: load_cases [of eid w])
  case (missing e)
  with assms show ?thesis by (simp add: reconcile_def bind_Err)
next
  case (found row)
  have unknown: "ei_state row = EfOutcomeUnknown"
  proof (rule ccontr)
    assume "ei_state row \<noteq> EfOutcomeUnknown"
    with assms show False
      unfolding reconcile_def bind_Ok [where m = "load eid", OF found(1)] by (simp add: st_err_def)
  qed
  show ?thesis
  proof (cases "fe_read_ref fe (fst (bw_forge w)) (ei_target_identity row)")
    case (Inl e)
    then have "read_ref (recorded fe) (ei_target_identity row) w = (Inl e, w)"
      by (simp add: read_ref_def st_get_def recorded_def case_prod_beta)
    with assms show ?thesis
      unfolding reconcile_def bind_Ok [where m = "load eid", OF found(1)] by (simp add: unknown bind_Err)
  next
    case (Inr obs)
    then have read: "read_ref (recorded fe) (ei_target_identity row) w = (Inr obs, w)"
      by (simp add: read_ref_def st_get_def recorded_def case_prod_beta)
    let ?k = "\<lambda>retried. st_bind (push_and_settle ex (recorded fe) retried ws seq now) (\<lambda>state. st_ok (RoRetried state))"
    have run: "reconcile ex (recorded fe) eid ws seq now w =
        (if obs = Some (ei_desired_state_hash row) then
           st_bind (settle_read_back ex row obs True seq now) (\<lambda>_. st_ok RoAdopted)
         else if non_execution row obs \<and> ei_unknown_retries row = 0 then
           st_bind (on_ledger (transition_effect ex eid EfDispatching)) ?k
         else st_bind (settle_read_back ex row obs False seq now) (\<lambda>_. st_ok RoQuarantined)) w"
      unfolding reconcile_def bind_Ok [where m = "load eid", OF found(1)]
      by (simp only: unknown simp_thms if_False bind_Ok [where m = "read_ref (recorded fe) (ei_target_identity row)", OF read])
    have settle: "pushes (snd (st_bind (settle_read_back ex row obs ad seq now) (\<lambda>_. st_ok out) w)) = pushes w"
      for obs ad and out :: reconcile_outcome
      by (rule arg_cong [where f = snd], rule forge_keptD, intro forge_rules)
    from assms have retry: "obs \<noteq> Some (ei_desired_state_hash row)" "non_execution row obs" "ei_unknown_retries row = 0"
      unfolding run by (auto simp: settle split: if_splits)
    have k: "pushes (snd (?k r v)) = pushes v \<or> pushes (snd (?k r v)) = pushes v @ [request_of ws r]" for r v
      using push_and_settle_pushes [of ex fe r ws seq now v]
      by (auto simp: st_bind_def st_ok_def split: prod.splits sum.splits)
    from dispatching_pushes [where k = ?k and ex = ex, OF found(2) k] assms have
      "pushes (snd (reconcile ex (recorded fe) eid ws seq now w)) = pushes w @ [request_of ws row]"
      using retry unfolding run by simp
    with found(2) unknown retry Inr show ?thesis by (auto simp: non_execution_def is_create_def)
  qed
qed

section \<open>What stands behind a commit\<close>

text \<open>
  An intent is settled once it is \<open>VERIFIED\<close> or \<open>COMMITTED\<close>. An operation on an unsettled intent either leaves it
  unsettled (\<open>calm\<close>), or the forge, as the operation leaves it, shows the desired object at the target ref (\<open>sees\<close>).
\<close>

definition unsettled :: "effect_intent \<Rightarrow> 'f broker_world \<Rightarrow> bool" where
  "unsettled row w \<longleftrightarrow> (\<exists>i. intents w (ei_id row) = Some i \<and> same_target row i \<and> ei_state i \<notin> {EfVerified, EfCommitted})"

definition shows_desired :: "'f forge_effects \<Rightarrow> effect_intent \<Rightarrow> 'f \<Rightarrow> bool" where
  "shows_desired fe row f \<longleftrightarrow> fe_read_ref fe f (ei_target_identity row) = Inr (Some (ei_desired_state_hash row))"

definition calm :: "effect_intent \<Rightarrow> ('f, 'a) broker_op \<Rightarrow> bool" where
  "calm row m \<longleftrightarrow> (\<forall>w. unsettled row w \<longrightarrow> unsettled row (snd (m w)))"

definition sees :: "'f forge_effects \<Rightarrow> effect_intent \<Rightarrow> ('f, 'a) broker_op \<Rightarrow> bool" where
  "sees fe row m \<longleftrightarrow> (\<forall>w. unsettled row w \<longrightarrow> unsettled row (snd (m w)) \<or> shows_desired fe row (bw_forge (snd (m w))))"

lemma calm_sees: "calm row m \<Longrightarrow> sees fe row m"
  by (simp add: calm_def sees_def)

lemma calm_bind: "calm row m \<Longrightarrow> (\<And>a. calm row (k a)) \<Longrightarrow> calm row (st_bind m k)"
  unfolding calm_def st_bind_def by (auto split: prod.splits sum.splits)

lemma sees_bind: "calm row m \<Longrightarrow> (\<And>a. sees fe row (k a)) \<Longrightarrow> sees fe row (st_bind m k)"
  unfolding calm_def sees_def st_bind_def by (auto split: prod.splits sum.splits) (metis snd_conv)+

lemma calm_pure: "calm row (st_lift r)" "calm row (st_get g)" "calm row (st_ok a)" "calm row (st_err e)"
  by (simp_all add: calm_def st_lift_def st_get_def st_ok_def st_err_def)

lemma calm_ledger: "keeps effect_rows m \<Longrightarrow> calm row (on_ledger m)"
  by (simp add: calm_def unsettled_def snd_on_ledger keeps_def effect_rows_def)

lemma calm_mark: "calm row (mark seq phase now)"
  by (auto simp: mark_def calm_pure calm_ledger effs.fr_outbox_mark split: option.splits)

lemma calm_receipt: "calm row (on_ledger (record_effect_receipt ex rc))"
  by (simp add: calm_ledger effs.fr_receipt)

lemma calm_transition:
  assumes "to \<notin> {EfVerified, EfCommitted}"
  shows "calm row (on_ledger (transition_effect ex (ei_id row) to))"
  unfolding calm_def
proof (intro allI impI)
  fix w :: "'a broker_world"
  assume w: "unsettled row w"
  obtain r s where tr: "transition_effect ex (ei_id row) to (bw_ledger w) = (r, s)" by fastforce
  then have "unsettled row (w\<lparr>bw_ledger := s\<rparr>)"
  proof (cases rule: transition_effect_cases)
    case refused
    then have "effect_rows s = effect_rows (bw_ledger w)" using effect_rows_same by blast
    with w show ?thesis by (simp add: unsettled_def effect_rows_def)
  next
    case (moved i n)
    with w assms show ?thesis by (simp add: unsettled_def effect_rows_def same_target_def request_of_def)
  qed
  with tr show "unsettled row (snd (on_ledger (transition_effect ex (ei_id row) to) w))" by (simp add: snd_on_ledger)
qed

lemma calm_push: "calm row (push_candidate_ref fe q)"
  by (simp add: calm_def unsettled_def push_candidate_ref_def split: prod.splits)

lemmas calm_rules = calm_bind calm_pure calm_mark calm_receipt calm_transition calm_push

lemma calm_settle:
  "observed \<noteq> Some (ei_desired_state_hash row) \<Longrightarrow> calm row (settle_read_back ex row observed adopted seq now)"
  by (simp add: settle_read_back_def Let_def verdict_of_def calm_rules split: option.splits)

text \<open>The read-back is of the forge as the operation leaves it: only a push changes the forge.\<close>

lemma sees_read_back:
  assumes "read_ref fe (ei_target_identity row) w = (Inr observed, w)" and "unsettled row w"
    and "forge_kept k" and "observed \<noteq> Some (ei_desired_state_hash row) \<Longrightarrow> calm row k"
  shows "unsettled row (snd (k w)) \<or> shows_desired fe row (bw_forge (snd (k w)))"
  using assms by (auto simp: read_ref_def st_get_def shows_desired_def forge_kept_def calm_def)

lemma sees_read:
  fixes fe :: "'f forge_effects"
  assumes "\<And>observed. forge_kept (k observed)"
    and "\<And>observed. observed \<noteq> Some (ei_desired_state_hash row) \<Longrightarrow> calm row (k observed)"
  shows "sees fe row (st_bind (read_ref fe (ei_target_identity row)) k)"
  unfolding sees_def
proof (intro allI impI)
  fix w :: "'f broker_world" assume w: "unsettled row w"
  show "unsettled row (snd (st_bind (read_ref fe (ei_target_identity row)) k w)) \<or>
    shows_desired fe row (bw_forge (snd (st_bind (read_ref fe (ei_target_identity row)) k w)))"
  proof (cases "fe_read_ref fe (bw_forge w) (ei_target_identity row)")
    case (Inl e)
    with w show ?thesis by (simp add: st_bind_def read_ref_def st_get_def)
  next
    case (Inr observed)
    then have r: "read_ref fe (ei_target_identity row) w = (Inr observed, w)" by (simp add: read_ref_def st_get_def)
    show ?thesis
      unfolding bind_Ok [where m = "read_ref fe (ei_target_identity row)", OF r]
      by (rule sees_read_back [OF r w assms(1) assms(2)])
  qed
qed

lemma sees_answer: "sees fe row (settle_answer ex fe row seq now answer)"
proof (cases answer)
  case (Inl e)
  then show ?thesis
    by (cases e; simp only: settle_answer_def sum.case effects_error.case; intro calm_sees calm_rules; simp)
next
  case (Inr u)
  show ?thesis unfolding settle_answer_def Inr sum.case
    by (intro sees_bind sees_read calm_transition forge_kept_settle calm_settle) simp_all
qed

lemma sees_push_and_settle: "sees fe row (push_and_settle ex fe row ws seq now)"
  unfolding push_and_settle_def by (intro sees_bind calm_push sees_answer)

text \<open>After the move to \<open>DISPATCHING\<close> the operations go on with the row it returns.\<close>

lemma sees_dispatching:
  fixes fe :: "'f forge_effects"
  assumes "\<And>row'. ei_id row' = ei_id row \<Longrightarrow> sees fe row' (k row')"
  shows "sees fe row (st_bind (on_ledger (transition_effect ex (ei_id row) EfDispatching)) k)"
  unfolding sees_def
proof (intro allI impI)
  fix w :: "'f broker_world" assume w: "unsettled row w"
  obtain r s where tr: "transition_effect ex (ei_id row) EfDispatching (bw_ledger w) = (r, s)" by fastforce
  have u: "unsettled row (w\<lparr>bw_ledger := s\<rparr>)"
    using calm_transition [of EfDispatching row ex] w by (auto simp: calm_def snd_on_ledger tr)
  show "unsettled row (snd (st_bind (on_ledger (transition_effect ex (ei_id row) EfDispatching)) k w)) \<or>
    shows_desired fe row (bw_forge (snd (st_bind (on_ledger (transition_effect ex (ei_id row) EfDispatching)) k w)))"
  proof (cases r)
    case (Inl e)
    have "on_ledger (transition_effect ex (ei_id row) EfDispatching) w = (Inl (EeLedger e), w\<lparr>bw_ledger := s\<rparr>)"
      by (simp add: on_ledger_def tr Inl map_err_def)
    with u show ?thesis by (simp add: bind_Err)
  next
    case (Inr row')
    have run: "on_ledger (transition_effect ex (ei_id row) EfDispatching) w = (Inr row', w\<lparr>bw_ledger := s\<rparr>)"
      by (simp add: on_ledger_def tr Inr map_err_def)
    have same: "same_target row row'"
      using tr Inr w by (cases rule: transition_effect_cases) (auto simp: unsettled_def same_target_def request_of_def is_ok_def)
    then have id: "ei_id row' = ei_id row" and u': "unsettled row' v \<longleftrightarrow> unsettled row v"
      and d: "shows_desired fe row' f \<longleftrightarrow> shows_desired fe row f" for v :: "'f broker_world" and f
      by (auto simp: unsettled_def same_target_def shows_desired_def request_of_def)
    from assms [OF id] u show ?thesis unfolding sees_def bind_Ok [where m = "on_ledger _", OF run] u' d by blast
  qed
qed

lemma inv_unsettled:
  "broker_inv w \<Longrightarrow> intents w eid = Some row \<Longrightarrow> ei_state row \<notin> {EfVerified, EfCommitted} \<Longrightarrow> ei_id row = eid \<and> unsettled row w"
  by (auto simp: broker_inv_def intent_ok_def unsettled_def same_target_def)

lemma dispatch_sees:
  assumes "broker_inv w" and "intents w eid = Some row"
  shows "ei_state row \<in> {EfVerified, EfCommitted} \<or> unsettled row (snd (dispatch ex (recorded fe) eid ws seq now w)) \<or>
    shows_desired (recorded fe) row (bw_forge (snd (dispatch ex (recorded fe) eid ws seq now w)))"
proof (cases "ei_state row = EfAuthorized")
  case False
  have run: "load eid w = (Inr row, w)" by (simp add: load_def st_get_def assms(2))
  have "snd (dispatch ex (recorded fe) eid ws seq now w) = w"
    unfolding dispatch_def bind_Ok [where m = "load eid", OF run] using False by (simp add: st_err_def)
  with inv_unsettled [OF assms] show ?thesis by auto
next
  case True
  have run: "load eid w = (Inr row, w)" by (simp add: load_def st_get_def assms(2))
  from inv_unsettled [OF assms] True have row: "ei_id row = eid" "unsettled row w" by simp_all
  have "sees (recorded fe) row (st_bind (on_ledger (transition_effect ex (ei_id row) EfDispatching)) (\<lambda>row.
      st_bind (mark seq CpApplied now) (\<lambda>_. push_and_settle ex (recorded fe) row ws seq now)))"
    by (intro sees_dispatching sees_bind calm_mark sees_push_and_settle)
  with row have "unsettled row (snd (dispatch ex (recorded fe) eid ws seq now w)) \<or>
      shows_desired (recorded fe) row (bw_forge (snd (dispatch ex (recorded fe) eid ws seq now w)))"
    unfolding dispatch_def bind_Ok [where m = "load eid", OF run] True
    by (simp only: sees_def effect_state.distinct simp_thms if_False)
  then show ?thesis by blast
qed

lemma reconcile_sees:
  assumes "broker_inv w" and "intents w eid = Some row"
  shows "ei_state row \<in> {EfVerified, EfCommitted} \<or> unsettled row (snd (reconcile ex (recorded fe) eid ws seq now w)) \<or>
    shows_desired (recorded fe) row (bw_forge (snd (reconcile ex (recorded fe) eid ws seq now w)))"
proof (cases "ei_state row = EfOutcomeUnknown")
  case False
  have run: "load eid w = (Inr row, w)" by (simp add: load_def st_get_def assms(2))
  have "snd (reconcile ex (recorded fe) eid ws seq now w) = w"
    unfolding reconcile_def bind_Ok [where m = "load eid", OF run] using False by (simp add: st_err_def)
  with inv_unsettled [OF assms] show ?thesis by auto
next
  case True
  have run: "load eid w = (Inr row, w)" by (simp add: load_def st_get_def assms(2))
  from inv_unsettled [OF assms] True have row: "ei_id row = eid" "unsettled row w" by simp_all
  let ?retry = "st_bind (on_ledger (transition_effect ex (ei_id row) EfDispatching)) (\<lambda>retried.
      st_bind (push_and_settle ex (recorded fe) retried ws seq now) (\<lambda>state. st_ok (RoRetried state)))"
  have tail: "sees (recorded fe) r (st_bind (push_and_settle ex (recorded fe) r ws seq now) (\<lambda>state. st_ok (RoRetried state)))" for r
    using sees_push_and_settle [of "recorded fe" r ex ws seq now]
    by (auto simp: sees_def st_bind_def st_ok_def split: prod.splits sum.splits)
  have retry: "sees (recorded fe) row ?retry" by (intro sees_dispatching tail)
  show ?thesis
  proof (cases "fe_read_ref (recorded fe) (bw_forge w) (ei_target_identity row)")
    case (Inl e)
    then have "read_ref (recorded fe) (ei_target_identity row) w = (Inl e, w)" by (simp add: read_ref_def st_get_def)
    with row show ?thesis
      unfolding reconcile_def bind_Ok [where m = "load eid", OF run] by (simp add: True bind_Err)
  next
    case (Inr obs)
    then have read: "read_ref (recorded fe) (ei_target_identity row) w = (Inr obs, w)" by (simp add: read_ref_def st_get_def)
    have settle: "unsettled row (snd (m w)) \<or> shows_desired (recorded fe) row (bw_forge (snd (m w)))"
      if "m = st_bind (settle_read_back ex row obs ad seq now) (\<lambda>_. st_ok out)" for ad m and out :: reconcile_outcome
      unfolding that by (rule sees_read_back [OF read row(2)]) (intro forge_rules, intro calm_bind calm_settle calm_pure)
    have eq: "reconcile ex (recorded fe) eid ws seq now w =
        (if obs = Some (ei_desired_state_hash row) then
           st_bind (settle_read_back ex row obs True seq now) (\<lambda>_. st_ok RoAdopted)
         else if non_execution row obs \<and> ei_unknown_retries row = 0 then ?retry
         else st_bind (settle_read_back ex row obs False seq now) (\<lambda>_. st_ok RoQuarantined)) w"
      unfolding reconcile_def bind_Ok [where m = "load eid", OF run] row(1)
      by (simp only: True simp_thms if_False bind_Ok [where m = "read_ref (recorded fe) (ei_target_identity row)", OF read])
    show ?thesis unfolding eq using settle [OF refl] retry row(2) by (auto simp: sees_def)
  qed
qed

text \<open>One step of a run: a settled intent was settled before, or the step is its own and the forge shows the object.\<close>

definition was_seen ::
    "'f forge_effects \<Rightarrow> string option \<Rightarrow> 'f recorded_world \<Rightarrow> 'f recorded_world \<Rightarrow> bool" where
  "was_seen fe own w t \<longleftrightarrow> (\<forall>eid i. intents t eid = Some i \<and> ei_state i \<in> {EfVerified, EfCommitted} \<longrightarrow>
     (\<exists>j. intents w eid = Some j \<and> ei_state j \<in> {EfVerified, EfCommitted} \<and> same_target j i) \<or>
     own = Some eid \<and> shows_desired fe i (fst (bw_forge t)))"

lemma was_seen_same: "intents t = intents w \<Longrightarrow> was_seen fe own w t"
  by (simp add: was_seen_def same_target_def)

lemma advances_seen:
  assumes adv: "advances eid 0 w t" and none: "intents w eid = None \<Longrightarrow> intents t eid = None"
    and seen: "\<And>row. intents w eid = Some row \<Longrightarrow> ei_state row \<in> {EfVerified, EfCommitted} \<or> unsettled row t \<or>
      own = Some eid \<and> shows_desired fe row (fst (bw_forge t))" and id: "\<And>row. intents w eid = Some row \<Longrightarrow> ei_id row = eid"
  shows "was_seen fe own w t"
  unfolding was_seen_def
proof (intro allI impI, elim conjE)
  fix e i assume i: "intents t e = Some i" "ei_state i \<in> {EfVerified, EfCommitted}"
  show "(\<exists>j. intents w e = Some j \<and> ei_state j \<in> {EfVerified, EfCommitted} \<and> same_target j i) \<or>
     own = Some e \<and> shows_desired fe i (fst (bw_forge t))"
  proof (cases "e = eid")
    case False
    with adv i show ?thesis by (auto simp: advances_def same_target_def)
  next
    case True
    with none i obtain row where row: "intents w eid = Some row" by fastforce
    with adv i True have same: "same_target row i" by (auto simp: advances_def)
    have "\<not> unsettled row t" using i True id [OF row] by (simp add: unsettled_def)
    with seen [OF row] row same True show ?thesis
      by (auto simp: shows_desired_def same_target_def request_of_def)
  qed
qed

lemma recorded_shows [simp]: "shows_desired (recorded fe) row f \<longleftrightarrow> shows_desired fe row (fst f)"
  by (simp add: shows_desired_def recorded_def case_prod_beta)

lemma calm_if: "calm row m \<Longrightarrow> calm row n \<Longrightarrow> calm row (if c then m else n)"
  by simp

lemma authorize_calm:
  assumes "ei_id row = eid"
  shows "calm row (authorize ex eid tk)"
proof -
  have auth: "calm row (on_ledger (transition_effect ex eid EfAuthorized))"
    using calm_transition [of EfAuthorized row ex] assms by simp
  have enq: "calm row (on_ledger (outbox_enqueue ex None ''effect_dispatch'' p))" for p
    by (simp add: calm_ledger effs.fr_outbox_enqueue)
  show ?thesis
    unfolding authorize_def load_def by (intro calm_bind calm_if calm_pure auth enq)
qed

lemma propose_seen: "was_seen fe own w (snd (propose ex i now w))"
proof (cases rule: propose_cases [of ex i now w])
  case recorded
  obtain r s where rec: "record_effect_intent ex (intent_of ex i now) (bw_ledger w) = (r, s)" by fastforce
  have result: "snd (propose ex i now w) = w\<lparr>bw_ledger := s\<rparr>" using recorded(2) rec by simp
  have same: "was_seen fe own w (w\<lparr>bw_ledger := s\<rparr>)" if "same_rows (bw_ledger w) s"
    using effect_rows_same [OF that] by (intro was_seen_same) (simp add: effect_rows_def)
  show ?thesis
    using rec
  proof (cases rule: record_effect_intent_cases)
    case (added hash)
    then show ?thesis
      by (auto simp: result was_seen_def effect_rows_def intent_of_def same_target_def split: if_splits)
  qed (simp_all add: same result)
qed (simp add: was_seen_same)

lemma missing_intent:
  assumes "intents w eid = None"
  shows "snd (dispatch ex fe eid ws seq now w) = w" "snd (reconcile ex fe eid ws seq now w) = w" "snd (authorize ex eid tk w) = w"
proof -
  obtain e where "load eid w = (Inl e, w)" using assms by (cases rule: load_cases [of eid w]) auto
  then show "snd (dispatch ex fe eid ws seq now w) = w" "snd (reconcile ex fe eid ws seq now w) = w"
    "snd (authorize ex eid tk w) = w"
    by (simp_all add: dispatch_def reconcile_def authorize_def bind_Err)
qed

lemma step_seen:
  assumes inv: "broker_inv w" and act: "brokered act"
  shows "was_seen fe (action_intent act) w (broker_step ex fe act w)"
proof (cases act)
  case (BaLedger a)
  have "effect_rows (ledger_step ex a (bw_ledger w)) = effect_rows (bw_ledger w)"
    using act BaLedger by (intro step_effect_rows) auto
  with BaLedger show ?thesis by (intro was_seen_same) (simp add: effect_rows_def)
next
  case (BaPropose i now)
  then show ?thesis by (simp add: propose_seen)
next
  case (BaAuthorize eid tk)
  have "advances eid 0 w (snd (authorize ex eid tk w))" by (rule authorize_advances [OF inv])
  then show ?thesis
    unfolding BaAuthorize broker_step.simps
  proof (rule advances_seen)
    fix row assume row: "intents w eid = Some row"
    then show "ei_id row = eid" using inv_stands [OF inv] by blast
    then show "ei_state row \<in> {EfVerified, EfCommitted} \<or> unsettled row (snd (authorize ex eid tk w)) \<or>
        action_intent (BaAuthorize eid tk) = Some eid \<and> shows_desired fe row (fst (bw_forge (snd (authorize ex eid tk w))))"
      using authorize_calm inv_unsettled [OF inv row] unfolding calm_def by blast
  qed (simp add: missing_intent)
next
  case (BaDispatch eid ws seq now)
  show ?thesis
    unfolding BaDispatch broker_step.simps
  proof (rule advances_seen [OF dispatch_advances [OF inv]])
    fix row assume row: "intents w eid = Some row"
    then show "ei_id row = eid" using inv_stands [OF inv] by blast
    show "ei_state row \<in> {EfVerified, EfCommitted} \<or>
        unsettled row (snd (dispatch ex (recorded fe) eid ws seq now w)) \<or> action_intent (BaDispatch eid ws seq now) = Some eid \<and>
        shows_desired fe row (fst (bw_forge (snd (dispatch ex (recorded fe) eid ws seq now w))))"
      using dispatch_sees [OF inv row, of ex fe ws seq now] by simp
  qed (simp add: missing_intent)
next
  case (BaReconcile eid ws seq now)
  show ?thesis
    unfolding BaReconcile broker_step.simps
  proof (rule advances_seen [OF reconcile_advances [OF inv]])
    fix row assume row: "intents w eid = Some row"
    then show "ei_id row = eid" using inv_stands [OF inv] by blast
    show "ei_state row \<in> {EfVerified, EfCommitted} \<or>
        unsettled row (snd (reconcile ex (recorded fe) eid ws seq now w)) \<or> action_intent (BaReconcile eid ws seq now) = Some eid \<and>
        shows_desired fe row (fst (bw_forge (snd (reconcile ex (recorded fe) eid ws seq now w))))"
      using reconcile_sees [OF inv row, of ex fe ws seq now] by simp
  qed (simp add: missing_intent)
qed (simp add: was_seen_same)

text \<open>Back through a run to the step that settled the intent.\<close>

lemma run_seen:
  assumes "list_all brokered acts" and "intents (fst (broker_run ex fe f acts)) eid = Some i"
    and "ei_state i \<in> {EfVerified, EfCommitted}"
  shows "\<exists>before act after. acts = before @ act # after \<and> action_intent act = Some eid \<and>
    shows_desired fe i (fst (bw_forge (fst (broker_run ex fe f (before @ [act])))))"
  using assms
proof (induction acts arbitrary: i rule: rev_induct)
  case Nil
  then show ?case by (simp add: broker_run_def broker_new_def memory_new_def)
next
  case (snoc act acts)
  let ?w = "fst (broker_run ex fe f acts)"
  have step: "fst (broker_run ex fe f (acts @ [act])) = broker_step ex fe act ?w"
    by (simp add: broker_run_def attributed_step_def Let_def case_prod_beta)
  have "broker_inv ?w" using run_accounted [of acts ex fe f] snoc.prems(1) by (auto simp: accounted_def)
  with snoc.prems have "was_seen fe (action_intent act) ?w (broker_step ex fe act ?w)" by (intro step_seen) simp_all
  with snoc.prems(2,3) consider
      j where "intents ?w eid = Some j" "ei_state j \<in> {EfVerified, EfCommitted}" "same_target j i"
    | "action_intent act = Some eid" "shows_desired fe i (fst (bw_forge (broker_step ex fe act ?w)))"
    unfolding was_seen_def step by blast
  then show ?case
  proof cases
    case (1 j)
    with snoc.IH [of j] snoc.prems(1) obtain before a after where "acts = before @ a # after" "action_intent a = Some eid"
      "shows_desired fe j (fst (bw_forge (fst (broker_run ex fe f (before @ [a])))))" by auto
    with 1(3) show ?thesis
      by (intro exI [of _ before] exI [of _ a] exI [of _ "after @ [act]"]) (simp add: shows_desired_def same_target_def request_of_def)
  next
    case 2
    then show ?thesis using step by (intro exI [of _ acts] exI [of _ act] exI [of _ "[]"]) simp
  qed
qed

section \<open>A forge, and a run against it\<close>

text \<open>A remote that keeps refs and honours the expected old object.\<close>

definition bare_forge :: "(string \<times> string) list forge_effects" where
  "bare_forge = \<lparr>
     fe_push_candidate_ref = (\<lambda>q refs.
       if map_of refs (pr_ref_name q) = (if is_create (pr_expected_old_oid q) then None else Some (pr_expected_old_oid q))
       then (Inr (), (pr_ref_name q, pr_new_oid q) # refs)
       else (Inl (PushRejected (pr_ref_name q) (map_of refs (pr_ref_name q))), refs)),
     fe_read_ref = (\<lambda>refs name. Inr (map_of refs name))\<rparr>"

definition plain_broker_ext :: broker_ext where
  "plain_broker_ext = graph_ext.extend plain_ext (broker_ext.fields (\<lambda>i. Inr (ei_id i)))"

definition plain_intent :: intent_input where
  "plain_intent = \<lparr>in_provider = ''p'', in_logical_effect_key = ''k'', in_target_ref = CANDIDATE_REF_PREFIX @ ''c'',
     in_new_oid = replicate 40 (CHR ''a''), in_expected_old_oid = ZERO_OID, in_attempt_id = ''atm_atm:a'', in_fence = 1,
     in_policy_version = ''v'', in_provider_idempotency_key = None\<rparr>"

definition plain_token :: authority_token where
  "plain_token = \<lparr>tk_organization_id = [], tk_repository_id = [], tk_mission_id = [], tk_acceptance_contract_id = [],
     tk_plan_revision_id = [], tk_graph_sequence = 1, tk_work_package_id = [], tk_selection_group_id = [],
     tk_variant_id = ''var_var:s:wp:0'', tk_attempt_id = ''atm_atm:a'', tk_attempt_fence = 1, tk_runner_id = [],
     tk_runner_epoch = 1, tk_workspace_id = [], tk_workspace_nonce = [], tk_scope_revision = 1, tk_context_revision = 1,
     tk_config_snapshot_hash = [], tk_policy_snapshot_hash = [], tk_routing_policy_hash = [],
     tk_credential_profile_id = None, tk_credential_generation = None\<rparr>"

text \<open>The first push never reaches the remote and its response is lost; the reconciliation retries and commits.\<close>

definition plain_broker_acts :: "(string \<times> string) list lost_response_forge broker_action list" where
  "plain_broker_acts = [BaLedger (ActMaterializeGraph plain_graph ''0''), BaLedger (ActAcquire (plain_request ''k'' ''a'')),
     BaPropose plain_intent ''1'', BaAuthorize ''efi_efi:p:k'' plain_token, BaRemote (lose_next BeforePush),
     BaDispatch ''efi_efi:p:k'' ''w'' (Some 1) ''2'', BaReconcile ''efi_efi:p:k'' ''w'' (Some 1) ''3'']"

definition plain_broker_run :: "(string \<times> string) list lost_response_forge recorded_world \<times> string option list" where
  "plain_broker_run = broker_run plain_broker_ext (lost_response bare_forge) (lost_new []) plain_broker_acts"

lemma plain_broker_result:
  "(case plain_broker_run of (w, by_intent) \<Rightarrow> (map_option ei_state (intents w ''efi_efi:p:k''), by_intent)) =
    (Some EfCommitted, [Some ''efi_efi:p:k'', Some ''efi_efi:p:k''])"
  by code_simp

text \<open>
  The lease row is compared by attempt and fence only: after the lease has run out the ledger's own check refuses the
  writer, yet the intent is still authorized as long as nobody has reclaimed the row.
\<close>

definition plain_expired_world :: "unit broker_world" where
  "plain_expired_world = snd (propose plain_broker_ext plain_intent ''1''
     \<lparr>bw_ledger = ledger_run plain_broker_ext [ActMaterializeGraph plain_graph ''0'', ActAcquire (plain_request ''k'' ''a''),
        ActAdvanceClock 20], bw_forge = ()\<rparr>)"

lemma authorize_ignores_expiry:
  "is_ok (fst (authorize plain_broker_ext ''efi_efi:p:k'' plain_token plain_expired_world)) \<and>
   \<not> is_ok (check_active_lease plain_ext (lease_subject_from_attempt (plain_attempt ''a'' 1)) (bw_ledger plain_expired_world))"
  by code_simp

section \<open>Guarantees\<close>



text \<open>C6: A committed effect has been seen. In a run in which only the broker writes effect rows, a committed intent goes
  back to one dispatch or reconciliation of that intent, at whose end the forge itself, read at the intent's target
  ref, showed exactly the desired object; and a stored receipt of the intent says so.\<close>

theorem broker_commit_was_seen:
  assumes "list_all brokered acts" and "broker_run ex fe f acts = (w, by_intent)"
    and "intents w eid = Some i" and "ei_state i = EfCommitted"
  shows "(\<exists>before act after. acts = before @ act # after \<and> action_intent act = Some eid \<and>
      fe_read_ref fe (fst (bw_forge (fst (broker_run ex fe f (before @ [act]))))) (ei_target_identity i) =
        Inr (Some (ei_desired_state_hash i))) \<and>
    (\<exists>r \<in> set (effect_receipts (bw_ledger w) eid). er_verification_result r = RvMatch \<and>
      er_observed_remote_identity r = ei_target_identity i \<and> er_observed_state_hash r = Some (ei_desired_state_hash i))"
proof
  show "\<exists>before act after. acts = before @ act # after \<and> action_intent act = Some eid \<and>
      fe_read_ref fe (fst (bw_forge (fst (broker_run ex fe f (before @ [act]))))) (ei_target_identity i) =
        Inr (Some (ei_desired_state_hash i))"
    using run_seen [OF assms(1), of ex fe f eid i] assms(2-4) by (simp add: shows_desired_def)
  have "intent_ok (receipts w) eid i"
    using run_accounted [OF assms(1), of ex fe f] assms(3) by (simp add: assms(2) accounted_def broker_inv_def)
  with assms(4) show "\<exists>r \<in> set (effect_receipts (bw_ledger w) eid). er_verification_result r = RvMatch \<and>
      er_observed_remote_identity r = ei_target_identity i \<and> er_observed_state_hash r = Some (ei_desired_state_hash i)"
    by (auto simp: intent_ok_def settled_def effect_receipts_def)
qed

theorem broker_commit_was_seen_witness:
  "\<exists>i before act after. intents (fst plain_broker_run) ''efi_efi:p:k'' = Some i \<and> plain_broker_acts = before @ act # after \<and>
     fe_read_ref (lost_response bare_forge)
       (fst (bw_forge (fst (broker_run plain_broker_ext (lost_response bare_forge) (lost_new []) (before @ [act])))))
       (ei_target_identity i) = Inr (Some (ei_desired_state_hash i))"
proof -
  from plain_broker_result obtain i where i: "intents (fst plain_broker_run) ''efi_efi:p:k'' = Some i" "ei_state i = EfCommitted"
    by (auto simp: case_prod_beta)
  have run: "broker_run plain_broker_ext (lost_response bare_forge) (lost_new []) plain_broker_acts =
      (fst plain_broker_run, snd plain_broker_run)" by (simp add: plain_broker_run_def)
  have "list_all brokered plain_broker_acts" by (simp add: plain_broker_acts_def)
  from broker_commit_was_seen [OF this run i] i(1) show ?thesis by blast
qed

text \<open>C10: Nothing is pushed twice on a guess. A dispatch pushes at most once, the request of an intent that is
  \<open>AUTHORIZED\<close>; a reconciliation pushes at most once, and only for an intent of unknown outcome whose retry is
  unspent and whose ref, read back from the forge, still shows the state before the push.\<close>

theorem push_needs_cause:
  "(pushes (snd (dispatch ex (recorded fe) eid ws seq now w)) \<noteq> pushes w \<longrightarrow>
      (\<exists>row. intents w eid = Some row \<and> ei_state row = EfAuthorized \<and>
        pushes (snd (dispatch ex (recorded fe) eid ws seq now w)) = pushes w @ [request_of ws row])) \<and>
   (pushes (snd (reconcile ex (recorded fe) eid ws seq now w)) \<noteq> pushes w \<longrightarrow>
      (\<exists>row obs. intents w eid = Some row \<and> ei_state row = EfOutcomeUnknown \<and> ei_unknown_retries row = 0 \<and>
        fe_read_ref fe (fst (bw_forge w)) (ei_target_identity row) = Inr obs \<and> obs \<noteq> Some (ei_desired_state_hash row) \<and>
        obs = (if ei_expected_old_oid row = ZERO_OID then None else Some (ei_expected_old_oid row)) \<and>
        pushes (snd (reconcile ex (recorded fe) eid ws seq now w)) = pushes w @ [request_of ws row]))"
  using dispatch_pushes reconcile_pushes by blast

theorem push_needs_cause_witness:
  "\<exists>row. intents (fst (broker_run plain_broker_ext (lost_response bare_forge) (lost_new []) (take 6 plain_broker_acts))) ''efi_efi:p:k'' =
      Some row \<and> ei_state row = EfOutcomeUnknown \<and> ei_unknown_retries row = 0"
proof -
  let ?fe = "lost_response bare_forge"
  let ?w = "fst (broker_run plain_broker_ext ?fe (lost_new []) (take 6 plain_broker_acts))"
  have "length (pushes (snd (reconcile plain_broker_ext (recorded ?fe) ''efi_efi:p:k'' ''w'' (Some 1) ''3'' ?w))) \<noteq> length (pushes ?w)"
    by code_simp
  then have "pushes (snd (reconcile plain_broker_ext (recorded ?fe) ''efi_efi:p:k'' ''w'' (Some 1) ''3'' ?w)) \<noteq> pushes ?w" by force
  with push_needs_cause [of plain_broker_ext ?fe "''efi_efi:p:k''" "''w''" "Some 1" "''3''" ?w] show ?thesis by blast
qed

end
