(* ===== verification/Service_Guarantees.thy ===== *)
theory Service_Guarantees
  imports Lease_Service Lease_Guarantees Broker_Guarantees
begin

text \<open>
  The lease service, the ledger and the effect broker together: what an acquisition through the service lets its
  holder do.
\<close>

lemma acquire_lease_row:
  assumes "acquire_lease ex req s = (Inr grant, t)" and "bt_get (ml_commands s) (lq_idempotency_key req) = None"
  shows "bt_get (ml_leases t) (lq_variant_id req) = Some (lg_lease grant) \<and>
    at_variant_id (lg_attempt grant) = lq_variant_id req \<and> lease_agrees (lg_lease grant) (lg_attempt grant)"
  using assms
proof (rule acquire_granted)
  fix u now e x w q rows
  assume prep: "acquire_prepare ex req q now e (lq_ttl_seconds req) w = Inr rows"
    and t: "t = acquire_commit ex req rows w" and grant: "grant = aq_grant rows"
  from prep show ?thesis
  proof (rule acquire_prepareE)
    fix g vidx pidx a
    assume "a = attempt_for ex req (wp_id (sg_packages g ! pidx)) (next_fence w (lq_variant_id req))"
      and "aq_grant rows = \<lparr>lg_attempt = a, lg_lease = lease_for req a (at_fence a) now e (lq_ttl_seconds req)\<rparr>"
    then show ?thesis by (simp add: t grant acquire_commit_rows lease_for_def lease_agrees_def attempt_for_def)
  qed
qed

lemma find_SomeD: "List.find P xs = Some x \<Longrightarrow> P x"
  by (induction xs) (auto split: if_splits)

text \<open>The token names the granted attempt and fence, under the variant whose lease row carries both.\<close>

lemma service_acquire_token:
  assumes "service_acquire ex g n seed ttl s = (Inr (a, tk, grant), t)" and "bt_get (ml_commands s) (''lease:'' @ seed) = None"
  shows "tk_attempt_id tk = at_id a \<and> tk_attempt_fence tk = at_fence a \<and> tk_variant_id tk = at_variant_id a \<and>
    a = lg_attempt grant \<and> bt_get (ml_leases t) (tk_variant_id tk) = Some (lg_lease grant) \<and> lease_agrees (lg_lease grant) a"
proof -
  from assms(1) obtain req where req: "request_for ex g n seed ttl = Inr req" "acquire_lease ex req s = (Inr grant, t)"
    "token_for ex g (lg_attempt grant) = Inr tk" "a = lg_attempt grant"
    unfolding service_acquire_def st_bind_Ok_iff by (auto simp: st_lift_def st_ok_def)
  have "lq_idempotency_key req = ''lease:'' @ seed" using req(1) by (auto simp: request_for_def split: if_splits)
  with acquire_lease_row [OF req(2)] assms(2) have row: "bt_get (ml_leases t) (lq_variant_id req) = Some (lg_lease grant)"
    "at_variant_id a = lq_variant_id req" "lease_agrees (lg_lease grant) a" by (simp_all add: req(4))
  from req(3,4) have "tk_attempt_id tk = at_id a \<and> tk_attempt_fence tk = at_fence a \<and> tk_variant_id tk = at_variant_id a"
    by (auto simp: token_for_def res_bind_Ok_iff ok_or_Ok_iff dest: find_SomeD)
  with row req(4) show ?thesis by simp
qed

lemma authorize_holder:
  assumes row: "intents w eid = Some row" "ei_state row = EfProposed"
    and tk: "tk_attempt_id tk = ei_attempt_id row" "tk_attempt_fence tk = ei_fence row"
    and lease: "bt_get (ml_leases (bw_ledger w)) (tk_variant_id tk) = Some l" "al_attempt_id l = ei_attempt_id row" "al_fence l = ei_fence row"
    and up: "ml_fail_after_writes (bw_ledger w) = None" and enc: "x_enc_intent ex (row\<lparr>ei_state := EfAuthorized\<rparr>) = Inr payload"
  shows "\<exists>seq t. authorize ex eid tk w = (Inr (row\<lparr>ei_state := EfAuthorized\<rparr>, seq), t) \<and>
    intents t eid = Some (row\<lparr>ei_state := EfAuthorized\<rparr>) \<and> ml_outbox (bw_ledger t) = ml_outbox (bw_ledger w) @
      [\<lparr>ob_seq = seq, ob_command_id = None, ob_kind = ''effect_dispatch'', ob_payload = payload, ob_phase = CpPending,
        ob_delivered_at = None, ob_acked_at = None\<rparr>]"
proof -
  let ?row = "row\<lparr>ei_state := EfAuthorized\<rparr>"
  have edge: "effect_transition EfProposed EfAuthorized = Inr EfAuthorized" by (simp add: effect_transition_def)
  obtain s where tr: "transition_effect ex eid EfAuthorized (bw_ledger w) = (Inr ?row, s)"
    and s: "bt_get (ml_effect_intents s) eid = Some ?row" "ml_outbox s = ml_outbox (bw_ledger w)" "ml_fail_after_writes s = None"
    using row up edge
    by (simp add: transition_effect_def st_bind_def tick_no_failpoint st_get_def st_lift_def st_modify_def st_ok_def
        push_event_def Let_def)
  define seq where "seq = (of_nat (length (ml_outbox s)) + 1 :: u64)"
  define u where "u = s\<lparr>ml_outbox := ml_outbox s @ [\<lparr>ob_seq = seq, ob_command_id = None, ob_kind = ''effect_dispatch'',
      ob_payload = payload, ob_phase = CpPending, ob_delivered_at = None, ob_acked_at = None\<rparr>]\<rparr>"
  have enq: "outbox_enqueue ex None ''effect_dispatch'' payload s = (Inr seq, u)"
    using s(3) by (simp add: outbox_enqueue_def st_bind_def st_get_def tick_no_failpoint seq_def u_def Let_def)
  have "authorize ex eid tk w = (Inr (?row, seq), w\<lparr>bw_ledger := u\<rparr>)"
    using row tk lease enc
    by (simp add: authorize_def load_def st_bind_def st_get_def st_lift_def st_ok_def on_ledger_def tr enq token_verify_def)
  then show ?thesis using s by (simp add: u_def)
qed

lemma authorize_not_holder:
  assumes row: "intents w eid = Some row" and tk: "tk_attempt_id tk = ei_attempt_id row" "tk_attempt_fence tk = ei_fence row"
    and lease: "\<And>l. bt_get (ml_leases (bw_ledger w)) (tk_variant_id tk) = Some l \<Longrightarrow>
      al_attempt_id l \<noteq> ei_attempt_id row \<or> al_fence l \<noteq> ei_fence row"
  shows "\<exists>e. authorize ex eid tk w = (Inl (EeLedger (LeDomain (StaleAuthority e))), w)"
proof (cases "bt_get (ml_leases (bw_ledger w)) (tk_variant_id tk)")
  case None
  then show ?thesis
    using row tk by (simp add: authorize_def load_def st_bind_def st_get_def st_lift_def token_verify_def)
next
  case (Some l)
  then show ?thesis
    using row tk lease [OF Some]
    by (simp add: authorize_def load_def st_bind_def st_get_def st_lift_def st_err_def token_verify_def)
qed

lemma active_lease_row:
  assumes "check_active_lease ex (lease_subject_from_attempt a) s = Inr ()"
  shows "\<exists>l. bt_get (ml_leases s) (at_variant_id a) = Some l \<and> al_attempt_id l = at_id a \<and> al_fence l = at_fence a"
  using assms unfolding check_active_lease_def
  by (auto elim!: res_bind_OkE simp: check_active_lease_snapshot_iff lease_subject_from_attempt_def)

text \<open>C22: The token of a first acquisition through the lease service works for the holder, on a proposed effect
  of the granted attempt and fence, in any later state. While the ledger's own active-lease check accepts the granted
  Attempt, the token authorizes the effect and the dispatch is queued with the authorized row, provided the ledger
  accepts writes and the row encodes. Once the variant's lease row is gone or names another attempt or fence, the token
  is refused as stale and nothing changes. (A lease that has run out but still stands in its row is in neither case.)\<close>

theorem service_token_authorizes:
  assumes "service_acquire ex g n seed ttl s = (Inr (a, tk, grant), t)"
    and "bt_get (ml_commands s) (''lease:'' @ seed) = None"
    and "intents w eid = Some row" and "ei_state row = EfProposed"
    and "ei_attempt_id row = at_id a" and "ei_fence row = at_fence a"
  shows "(check_active_lease ex (lease_subject_from_attempt a) (bw_ledger w) = Inr () \<and>
      ml_fail_after_writes (bw_ledger w) = None \<and> x_enc_intent ex (row\<lparr>ei_state := EfAuthorized\<rparr>) = Inr payload \<longrightarrow>
      (\<exists>seq u. authorize ex eid tk w = (Inr (row\<lparr>ei_state := EfAuthorized\<rparr>, seq), u) \<and>
        intents u eid = Some (row\<lparr>ei_state := EfAuthorized\<rparr>) \<and> ml_outbox (bw_ledger u) = ml_outbox (bw_ledger w) @
          [\<lparr>ob_seq = seq, ob_command_id = None, ob_kind = ''effect_dispatch'', ob_payload = payload, ob_phase = CpPending,
            ob_delivered_at = None, ob_acked_at = None\<rparr>])) \<and>
    ((\<forall>l. bt_get (ml_leases (bw_ledger w)) (at_variant_id a) = Some l \<longrightarrow>
        al_attempt_id l \<noteq> at_id a \<or> al_fence l \<noteq> at_fence a) \<longrightarrow>
      (\<exists>e. authorize ex eid tk w = (Inl (EeLedger (LeDomain (StaleAuthority e))), w)))"
proof (intro conjI impI; (elim conjE)?)
  note tk = service_acquire_token [OF assms(1,2)]
  have held: "tk_attempt_id tk = ei_attempt_id row" "tk_attempt_fence tk = ei_fence row" using tk assms(5,6) by simp_all
  {
    assume live: "check_active_lease ex (lease_subject_from_attempt a) (bw_ledger w) = Inr ()"
      and up: "ml_fail_after_writes (bw_ledger w) = None" and enc: "x_enc_intent ex (row\<lparr>ei_state := EfAuthorized\<rparr>) = Inr payload"
    from active_lease_row [OF live] tk assms(5,6) obtain l where l: "bt_get (ml_leases (bw_ledger w)) (tk_variant_id tk) = Some l"
      "al_attempt_id l = ei_attempt_id row" "al_fence l = ei_fence row" by auto
    show "\<exists>seq u. authorize ex eid tk w = (Inr (row\<lparr>ei_state := EfAuthorized\<rparr>, seq), u) \<and>
        intents u eid = Some (row\<lparr>ei_state := EfAuthorized\<rparr>) \<and> ml_outbox (bw_ledger u) = ml_outbox (bw_ledger w) @
          [\<lparr>ob_seq = seq, ob_command_id = None, ob_kind = ''effect_dispatch'', ob_payload = payload, ob_phase = CpPending,
            ob_delivered_at = None, ob_acked_at = None\<rparr>]"
      by (rule authorize_holder [OF assms(3,4) held l up enc])
  }
  assume "\<forall>l. bt_get (ml_leases (bw_ledger w)) (at_variant_id a) = Some l \<longrightarrow> al_attempt_id l \<noteq> at_id a \<or> al_fence l \<noteq> at_fence a"
  then show "\<exists>e. authorize ex eid tk w = (Inl (EeLedger (LeDomain (StaleAuthority e))), w)"
    using tk assms(5,6) by (intro authorize_not_holder [OF assms(3) held]) auto
qed

definition plain_service :: "(ledger_error + attempt \<times> authority_token \<times> lease_grant) \<times> memory_ledger" where
  "plain_service = service_acquire plain_broker_ext plain_graph 0 ''a'' 10
     (ledger_run plain_broker_ext [ActMaterializeGraph plain_graph ''0''])"

definition plain_proposed :: "unit broker_world" where
  "plain_proposed = snd (propose plain_broker_ext plain_intent ''1'' \<lparr>bw_ledger = snd plain_service, bw_forge = ()\<rparr>)"

lemma plain_service_run:
  "(case fst plain_service of
      Inl _ \<Rightarrow> None
    | Inr (a, tk, grant) \<Rightarrow> Some (at_id a, at_fence a,
        is_ok (check_active_lease plain_broker_ext (lease_subject_from_attempt a) (bw_ledger plain_proposed)),
        map_option (\<lambda>i. (ei_state i, ei_attempt_id i, ei_fence i)) (intents plain_proposed ''efi_efi:p:k''),
        ml_fail_after_writes (bw_ledger plain_proposed))) =
    Some (''atm_atm:a'', 1, True, Some (EfProposed, ''atm_atm:a'', 1), None)"
  by code_simp

lemma plain_service_fresh:
  "bt_get (ml_commands (ledger_run plain_broker_ext [ActMaterializeGraph plain_graph ''0''])) (''lease:'' @ ''a'') = None"
  by code_simp

theorem service_token_authorizes_witness:
  "\<exists>a tk grant row seq u. fst plain_service = Inr (a, tk, grant) \<and>
     authorize plain_broker_ext ''efi_efi:p:k'' tk plain_proposed = (Inr (row\<lparr>ei_state := EfAuthorized\<rparr>, seq), u)"
proof -
  from plain_service_run obtain a tk grant row where ok: "fst plain_service = Inr (a, tk, grant)"
    and live: "is_ok (check_active_lease plain_broker_ext (lease_subject_from_attempt a) (bw_ledger plain_proposed))"
    and row: "intents plain_proposed ''efi_efi:p:k'' = Some row" "ei_state row = EfProposed" "ei_attempt_id row = at_id a" "ei_fence row = at_fence a"
    and up: "ml_fail_after_writes (bw_ledger plain_proposed) = None"
    by (auto split: sum.splits prod.splits)
  have run: "service_acquire plain_broker_ext plain_graph 0 ''a'' 10
      (ledger_run plain_broker_ext [ActMaterializeGraph plain_graph ''0'']) = (Inr (a, tk, grant), snd plain_service)"
    using ok by (metis plain_service_def prod.collapse)
  have enc: "x_enc_intent plain_broker_ext i = Inr (ei_id i)" for i
    by (simp add: plain_broker_ext_def broker_ext.defs graph_ext.defs)
  from live have "check_active_lease plain_broker_ext (lease_subject_from_attempt a) (bw_ledger plain_proposed) = Inr ()"
    by (auto simp: is_ok_iff)
  with service_token_authorizes [OF run plain_service_fresh row, of "ei_id (row\<lparr>ei_state := EfAuthorized\<rparr>)"] up enc ok
  show ?thesis by blast
qed

end
