(* ===== verification/Verifier_Gates.thy ===== *)
theory Verifier_Gates
  imports Domain_Gates "HOL-Library.Code_Target_Nat"
begin

text \<open>
  The verifier's verdicts: the validation of a request (\<^verbatim>\<open>crates/verifier/src/request.rs\<close>), the classification of
  a gate's process (\<^verbatim>\<open>gate.rs\<close>) and the aggregation of several gates (\<^verbatim>\<open>aggregate.rs\<close>). Spawning the process, the
  clean clone and the evidence file are input and output; what the operating system reports of the process is an
  argument.
\<close>

section \<open>Requests\<close>

datatype verifier_error = AuthorOverlap string | BadInput string | VerifierIo string | VerifierGit string string

record verifier_request =
  vr_workspace_repo_path :: string
  vr_base_sha :: string
  vr_head_sha :: string
  vr_tree_sha :: string
  vr_gate_id :: string
  vr_author_attempt_id :: string

definition is_full_sha :: "string \<Rightarrow> bool" where
  "is_full_sha t \<longleftrightarrow> length t = 40 \<and> list_all is_lower_hex t"

definition verifier_validate :: "verifier_request \<Rightarrow> verifier_error + unit" where
  "verifier_validate r =
     (if vr_workspace_repo_path r = [] then Err (BadInput ''workspace_repo_path is empty'')
      else if \<not> is_full_sha (vr_base_sha r) then Err (BadInput ''base_sha is not 40 lowercase hex characters'')
      else if \<not> is_full_sha (vr_head_sha r) then Err (BadInput ''head_sha is not 40 lowercase hex characters'')
      else if \<not> is_full_sha (vr_tree_sha r) then Err (BadInput ''tree_sha is not 40 lowercase hex characters'')
      else if gate_definition_of (vr_gate_id r) = None then
        Err (BadInput (''unknown gate_id '' @ [CHR 0x22] @ vr_gate_id r @ [CHR 0x22]))
      else if vr_author_attempt_id r = [] then Err (BadInput ''author_attempt_id is empty'')
      else Ok ())"

section \<open>One gate\<close>

record gate_run =
  gr_outcome :: gate_outcome
  gr_reason :: "string option"
  gr_detail :: "string option"
  gr_exit_code :: "int option"

text \<open>What the operating system reports: the process could not be spawned, outlived its budget, could not be waited
  for, or ended with an exit code or by a signal, and how the status prints.\<close>

datatype gate_process = SpawnFailed string | Elapsed | WaitFailed string | Exited "int option" string

definition classify_status :: "int option \<Rightarrow> string \<Rightarrow> gate_run" where
  "classify_status status shown =
     (case status of
        None \<Rightarrow> \<lparr>gr_outcome = GoInfraError, gr_reason = Some ''GATE_SIGNALED'',
          gr_detail = Some (''gate terminated by signal: '' @ shown), gr_exit_code = None\<rparr>
      | Some code \<Rightarrow>
          if code \<noteq> 0 then \<lparr>gr_outcome = GoFail, gr_reason = Some ''GATE_NONZERO_EXIT'', gr_detail = None,
            gr_exit_code = Some code\<rparr>
          else \<lparr>gr_outcome = GoPass, gr_reason = None, gr_detail = None, gr_exit_code = Some code\<rparr>)"

fun run_gate :: "gate_definition \<Rightarrow> gate_process \<Rightarrow> gate_run" where
  "run_gate gate (SpawnFailed e) = \<lparr>gr_outcome = GoInfraError, gr_reason = Some ''GATE_SPAWN_FAILED'',
     gr_detail = Some e, gr_exit_code = None\<rparr>"
| "run_gate gate Elapsed = \<lparr>gr_outcome = GoTimedOut, gr_reason = Some ''GATE_TIMEOUT'',
     gr_detail = Some (''gate exceeded '' @ show_u (gd_timeout_secs gate) @ ''s budget''), gr_exit_code = None\<rparr>"
| "run_gate gate (WaitFailed e) = \<lparr>gr_outcome = GoInfraError, gr_reason = Some ''GATE_SPAWN_FAILED'',
     gr_detail = Some e, gr_exit_code = None\<rparr>"
| "run_gate gate (Exited status shown) = classify_status status shown"

section \<open>Many gates\<close>

datatype oracle_class = Independent | OracleModifyingDiff

record aggregated_gate =
  ag_catalog_argv_digest :: digest
  ag_executable_bytes_digest :: digest
  ag_outcome :: gate_outcome
  ag_oracle_class :: oracle_class

datatype aggregation_error = EmptyGateSet

definition catalog_argv_digest :: "'x hash_ext_scheme \<Rightarrow> string list \<Rightarrow> digest" where
  "catalog_argv_digest hx argv =
     digest_of hx (frame ''bullet.verifier.executable.v1'' @ le_bytes (of_nat (length argv)) @ concat (map frame argv))"

definition aggregate ::
    "'x hash_ext_scheme \<Rightarrow> (string \<times> string list \<times> digest \<times> gate_run \<times> oracle_class) list \<Rightarrow>
     aggregation_error + aggregated_gate list" where
  "aggregate hx runs =
     (if runs = [] then Err EmptyGateSet
      else Ok (map (\<lambda>(hint, argv, executable, run, cls).
        let tested = (if gr_outcome run = GoPass \<and> (gr_reason run = Some REASON_ZERO_TESTS \<or> hint = REASON_ZERO_TESTS)
              then GoNotRun else gr_outcome run);
            outcome = (if tested = GoPass \<and> cls = OracleModifyingDiff then GoInvalidated else tested) in
        \<lparr>ag_catalog_argv_digest = catalog_argv_digest hx argv, ag_executable_bytes_digest = executable,
         ag_outcome = outcome, ag_oracle_class = cls\<rparr>) runs))"

section \<open>Verdicts\<close>

lemma run_gate_pass: "gr_outcome (run_gate gate p) = GoPass \<longleftrightarrow> (\<exists>shown. p = Exited (Some 0) shown)"
  by (cases p) (auto simp: classify_status_def split: option.splits)

text \<open>The bytes hashed for an argv determine it: the number of arguments, then each argument framed.\<close>

definition catalog_argv_bytes :: "string list \<Rightarrow> bytes" where
  "catalog_argv_bytes argv = frame ''bullet.verifier.executable.v1'' @ le_bytes (of_nat (length argv)) @ concat (map frame argv)"

definition argv_small :: "string list \<Rightarrow> bool" where
  "argv_small argv \<longleftrightarrow> length argv < 2 ^ 64 \<and> list_all (\<lambda>a. length a < 2 ^ 64) argv"

lemma frames_inject:
  assumes "length xs = length ys" and "concat (map frame xs) = concat (map frame ys)"
    and "list_all (\<lambda>a. length a < 2 ^ 64) xs" and "list_all (\<lambda>a. length a < 2 ^ 64) ys"
  shows "xs = ys"
  using assms
proof (induction rule: list_induct2)
  case (Cons x xs y ys)
  then have "x = y \<and> concat (map frame xs) = concat (map frame ys)" by (intro frame_append_inject) simp_all
  with Cons show ?case by simp
qed simp

lemma catalog_argv_bytes_inject:
  assumes "catalog_argv_bytes xs = catalog_argv_bytes ys" and "argv_small xs" and "argv_small ys"
  shows "xs = ys"
proof (rule frames_inject)
  from assms(1) have "le_bytes (of_nat (length xs)) = le_bytes (of_nat (length ys))"
    by (simp add: catalog_argv_bytes_def)
  then have "(of_nat (length xs) :: u64) = of_nat (length ys)" by simp
  with assms(2,3) show "length xs = length ys" by (simp add: word_unat_eq_iff unat_of_nat argv_small_def)
qed (use assms in \<open>simp_all add: catalog_argv_bytes_def argv_small_def\<close>)

lemma aggregate_nth:
  assumes "aggregate hx runs = Inr out" and "i < length runs" and "runs ! i = (hint, argv, bytes, run, cls)"
  shows "length out = length runs" and "out ! i = (
      let tested = (if gr_outcome run = GoPass \<and> (gr_reason run = Some REASON_ZERO_TESTS \<or> hint = REASON_ZERO_TESTS)
          then GoNotRun else gr_outcome run) in
      \<lparr>ag_catalog_argv_digest = x_blake3 hx (catalog_argv_bytes argv), ag_executable_bytes_digest = bytes,
       ag_outcome = (if tested = GoPass \<and> cls = OracleModifyingDiff then GoInvalidated else tested), ag_oracle_class = cls\<rparr>)"
  using assms
  by (auto simp: aggregate_def Let_def catalog_argv_digest_def catalog_argv_bytes_def digest_of_def split: if_splits)

text \<open>C23: Aggregation never makes a gate look better than its run, whatever runs the caller supplies. A non-empty list
  always aggregates and an empty one is refused. In the order of the runs, an aggregated gate is PASS exactly when its
  run is PASS, neither the run's reason nor the caller's hint says that no tests ran, and the caller does not classify
  the oracle as changed by the writer; a run that is not PASS keeps its outcome, and a PASS that is withheld becomes
  NOT_RUN or INVALIDATED. For a run of the verifier itself, PASS means that its process exited with code 0. The
  executable digest and the class are the caller's, and where the hash has no collision on the two messages, equal argv
  digests mean equal argvs.\<close>

theorem aggregate_never_promotes:
  assumes "i < length runs" and "runs ! i = (hint, argv, bytes, run, cls)"
    and "j < length runs" and "runs ! j = (hint', argv', bytes', run', cls')" and "argv_small argv" and "argv_small argv'"
    and "x_blake3 hx (catalog_argv_bytes argv) = x_blake3 hx (catalog_argv_bytes argv') \<longrightarrow>
      catalog_argv_bytes argv = catalog_argv_bytes argv'"
  shows "aggregate hx [] = Inl EmptyGateSet \<and> (\<exists>out. aggregate hx runs = Inr out \<and> length out = length runs \<and>
      (ag_outcome (out ! i) = GoPass \<longleftrightarrow> gr_outcome run = GoPass \<and> gr_reason run \<noteq> Some REASON_ZERO_TESTS \<and>
        hint \<noteq> REASON_ZERO_TESTS \<and> cls = Independent) \<and>
      (gr_outcome run \<noteq> GoPass \<longrightarrow> ag_outcome (out ! i) = gr_outcome run) \<and>
      (gr_outcome run = GoPass \<and> ag_outcome (out ! i) \<noteq> GoPass \<longrightarrow> ag_outcome (out ! i) \<in> {GoNotRun, GoInvalidated}) \<and>
      (\<forall>gate p. run = run_gate gate p \<and> ag_outcome (out ! i) = GoPass \<longrightarrow> (\<exists>shown. p = Exited (Some 0) shown)) \<and>
      ag_executable_bytes_digest (out ! i) = bytes \<and> ag_oracle_class (out ! i) = cls \<and>
      (ag_catalog_argv_digest (out ! i) = ag_catalog_argv_digest (out ! j) \<longleftrightarrow> argv = argv'))"
proof -
  have "runs \<noteq> []" using assms(1) by auto
  then obtain out where out: "aggregate hx runs = Inr out" by (simp add: aggregate_def)
  note row = aggregate_nth [OF out assms(1,2)] and other = aggregate_nth(2) [OF out assms(3,4)]
  have pass: "ag_outcome (out ! i) = GoPass \<longleftrightarrow> gr_outcome run = GoPass \<and> gr_reason run \<noteq> Some REASON_ZERO_TESTS \<and>
      hint \<noteq> REASON_ZERO_TESTS \<and> cls = Independent"
    by (cases cls) (auto simp: row(2) Let_def)
  have kept: "gr_outcome run \<noteq> GoPass \<longrightarrow> ag_outcome (out ! i) = gr_outcome run"
    "gr_outcome run = GoPass \<and> ag_outcome (out ! i) \<noteq> GoPass \<longrightarrow> ag_outcome (out ! i) \<in> {GoNotRun, GoInvalidated}"
    "ag_executable_bytes_digest (out ! i) = bytes" "ag_oracle_class (out ! i) = cls"
    by (simp_all add: row(2) Let_def)
  have exited: "\<forall>gate p. run = run_gate gate p \<and> ag_outcome (out ! i) = GoPass \<longrightarrow> (\<exists>shown. p = Exited (Some 0) shown)"
    using pass run_gate_pass by blast
  have bound: "ag_catalog_argv_digest (out ! i) = ag_catalog_argv_digest (out ! j) \<longleftrightarrow> argv = argv'"
    using catalog_argv_bytes_inject [OF _ assms(5,6)] assms(7) by (auto simp: row(2) other Let_def)
  have "aggregate hx [] = Inl EmptyGateSet" by (simp add: aggregate_def)
  with out row(1) pass kept exited bound show ?thesis by blast
qed

theorem aggregate_never_promotes_witness:
  "\<exists>out. aggregate \<lparr>x_blake3 = id, x_hex_encode = id, x_hex_decode = Inr\<rparr>
      [([], [''make''], [], run_gate (hd GATES) (Exited (Some 0) []), Independent),
       ([], [''make'', ''test''], [], run_gate (hd GATES) Elapsed, Independent)] = Inr out \<and>
    ag_outcome (out ! 0) = GoPass \<and> ag_catalog_argv_digest (out ! 0) \<noteq> ag_catalog_argv_digest (out ! 1)"
proof -
  let ?hx = "\<lparr>x_blake3 = id, x_hex_encode = id, x_hex_decode = Inr\<rparr> :: hash_ext"
  let ?runs = "[([], [''make''], [], run_gate (hd GATES) (Exited (Some 0) []), Independent),
      ([], [''make'', ''test''], [], run_gate (hd GATES) Elapsed, Independent)]"
  have "gr_reason (run_gate (hd GATES) (Exited (Some 0) [])) = None" "gr_outcome (run_gate (hd GATES) (Exited (Some 0) [])) = GoPass"
    by (simp_all add: classify_status_def)
  with aggregate_never_promotes [of 0 ?runs "[]" "[''make'']" "[]" "run_gate (hd GATES) (Exited (Some 0) [])" Independent
      1 "[]" "[''make'', ''test'']" "[]" "run_gate (hd GATES) Elapsed" Independent ?hx]
  show ?thesis by (auto simp: REASON_ZERO_TESTS_def argv_small_def)
qed

end
