(* ===== verification/Spec2Isabelle.thy ===== *)
theory Spec2Isabelle
  imports Domain_Gates Mutation_Guard Budget_Ledger Vector_Ledger
    Lease_Guarantees Lease_Expiry Record_Guarantees Command_Guarantees
    Ledger_Audit Typed_Graph Reservation_Guarantees Service_Guarantees Verifier_Gates
begin

text \<open>
  Bullet kernel: a verification library for the authority core of the repository. The kernel decides which
  worker may write to which variant of a work package, admits commands and effects exactly once, meters
  budgets, and keeps an audit log. This library models that core and proves what it promises.

  \<^bold>\<open>The program's parts.\<close> A plan is materialized into a graph of packages and variants. A runner acquires
  a writer lease on a variant and gets an Attempt with a fence, a number that only grows; every later write
  must show the current fence. Commands, graph deltas, effect intents, receipts, nonces and events are rows of
  a ledger. The effect broker turns a proposed intent into a push to a forge and settles it by reading the ref
  back. Audit batches commit the ledger's events in a Merkle tree. Gates, budgets and the mutation guard are
  pure components beside the ledger.

  \<^bold>\<open>Theories and sources\<close> (paths below \<^verbatim>\<open>src/crates\<close>).
  \<^item> \<open>Kernel_Prelude\<close>: \<open>Result\<close> as a sum type (\<open>Err\<close> is \<open>Inl\<close>), a method on \<open>&mut self\<close> as a function from a
    state to a result and a state, checked, saturating and wrapping arithmetic on machine words,
    \<open>BTreeMap\<close> as a type of sorted association lists, length-framed bytes.
  \<^item> \<open>Domain_States\<close>, \<open>Domain_Core\<close>, \<open>Domain_Gates\<close>, \<open>Mutation_Guard\<close>: \<^verbatim>\<open>domain/src\<close>. State machines, digests, typed
    identifiers, entities and tokens, preservation decisions, gates and evidence, the guard of mutations.
  \<^item> \<open>Budget_Classes\<close>, \<open>Budget_Ledger\<close>, \<open>Vector_Ledger\<close>: \<^verbatim>\<open>budgets/src\<close>. Policies with reserve floors, the
    single-dimension and the multi-dimension ledger.
  \<^item> \<open>Nonce_Ledger\<close>, \<open>Coding_Tasks\<close>, \<open>Commands\<close>, \<open>Effect_Records\<close>, \<open>Ledger_Records\<close>: the rows of \<^verbatim>\<open>application/src\<close>
    and the checks on them.
  \<^item> \<open>Memory_Ledger\<close>, \<open>Memory_Leases\<close>, \<open>Memory_Commands\<close>, \<open>Graph_Delta\<close>, \<open>Memory_Effects\<close>: the in-process ledger,
    \<^verbatim>\<open>application/src/memory\<close>, with \<^verbatim>\<open>graph_delta.rs\<close> and \<^verbatim>\<open>materializer.rs\<close>. Its state is one record with the
    source's maps; its failpoint (\<open>tick\<close>) and its rollback of a failed transaction are modelled, so that every
    theorem about runs covers operations that stop half-way.
  \<^item> \<open>Lease_Protocol\<close>: an abstract fencing protocol, as an inductive step relation, which the ledger refines.
  \<^item> \<open>Ledger_System\<close>, \<open>Ledger_Runs\<close>, \<open>Ledger_History\<close>, \<open>Ledger_Rows\<close>, \<open>Lease_Fencing\<close>: the ledger as one system of actions,
    and what holds after every sequence of them.
  \<^item> \<open>Lease_Guarantees\<close>, \<open>Lease_Expiry\<close>, \<open>Record_Guarantees\<close>, \<open>Command_Guarantees\<close>: the guarantees of the ledger.
  \<^item> \<open>Merkle_Tree\<close>, \<open>Audit_Batch\<close>, \<open>Audit_Guarantees\<close>, \<open>Ledger_Audit\<close>: \<^verbatim>\<open>application/src/audit_batch\<close>, its
    guarantees, and the ledger's log as what it commits.
  \<^item> \<open>Effect_Broker\<close>, \<open>Broker_Guarantees\<close>: \<^verbatim>\<open>effects/src/broker.rs\<close>, \<^verbatim>\<open>forge.rs\<close> and \<^verbatim>\<open>lost.rs\<close> over the in-process ledger.
  \<^item> \<open>Lease_Service\<close>, \<open>Service_Guarantees\<close>: \<^verbatim>\<open>application/src/leases.rs\<close>, and service, ledger and broker together.
  \<^item> \<open>Mutation_Reservation\<close>, \<open>Reservation_Guarantees\<close>: \<^verbatim>\<open>application/src/mutation_reservation.rs\<close> with the ledger as its gate.
  \<^item> \<open>Typed_Graph\<close>: the types of the identifiers of a graph. \<open>Verifier_Gates\<close>: the verdicts of \<^verbatim>\<open>verifier/src\<close>.
  \<^item> \<open>Plain_Environment\<close>: a concrete instance of the external crates and a short run, for the examples.

  \<^bold>\<open>What the lemmas show.\<close>
  \<^item> Leases: at most one writer per variant passes the active-lease check, a writer that was outbid or has released
    never passes it again, only the current holder renews, the operations refine the protocol, and
    acquisition, its replay and the expiry sweep write exactly the rows they should.
  \<^item> Commands and deltas: an exact replay changes nothing and returns the first answer; coding admission never
    exceeds its quota and spends a launch nonce once; an offline settlement never claims success.
  \<^item> Effects: intents are unique per provider and key, move only along the machine, and are pushed at most twice
    and only into the candidate namespace; a retry needs a read-back that shows the first push did not
    happen; a committed effect goes back to a step at whose end the forge itself showed the object, and has a
    receipt that says so; a token of the lease service authorizes while its lease is active.
  \<^item> Permits: spent at most once, by the writer that reserved them, and never after it was outbid.
  \<^item> Audit: a batch binds its events, an accepted inclusion proof is about an event of the batch, a verified chain
    is one uninterrupted run, the log of every run can be audited, and the iterative tree equals its recursive
    definition and terminates.
  \<^item> Graphs keep their identifier types; packages reach \<open>Integrated\<close> only through verification; aggregation never makes
    a gate look better than its run; budgets conserve their units, keep the emergency reserve, give released
    units back and book overrun and unobserved spend as liability.

  \<^bold>\<open>Interfaces.\<close> State machines (\<open>transition_machine\<close>), wire names (\<open>wire_catalog\<close>), nonce stores (\<open>nonce_store\<close>),
  invariants of runs (\<open>invariant_system\<close>), frames of ledger operations (\<open>ledger_frame\<close> and its extensions) and lease gates (\<open>lease_gate\<close>) are locales, each interpreted
  on the model's own definitions.

  \<^bold>\<open>External code.\<close> blake3, hex, \<open>serde_json\<close> and chrono are fields of the records \<open>hash_ext\<close> up to \<open>broker_ext\<close>,
  arguments of every definition that calls them. Where a theorem needs a law of them it is a hypothesis:
  \<open>hash_width\<close> (digests have 32 bytes), \<open>hex_laws\<close> (64 lowercase digits, read back), and for binding, that the hash has
  no collision among the finitely many messages at hand; for the liveness of a lease, that the timestamps of the
  two instants of its window parse back, which RFC 3339 gives for years up to 9999. A forge is any pair of functions on any state.

  \<^bold>\<open>Bounds.\<close> \<open>u64\<close> and \<open>u32\<close> are words and wrap as in a release build. Theorems about fences assume runs of fewer than
  \<open>2^64\<close> actions, theorems about audit chains that no batch ends at the last \<open>u64\<close>; no run of the program gets there.
  All loops are structural or have a termination proof; there is no fuel. Strings are lists of bytes, so a
  length is a number of bytes as in the source.

  \<^bold>\<open>Not modelled.\<close> The sqlite adapter, the daemon, the command line, the runner, the provider harnesses, the concrete
  forges and the verifier's clean clone are processes, files, SQL and HTTP around this core: their code is
  input and output and calls into libraries. Restart recovery, operator sessions, policy snapshot generations and
  conversation projections are implemented only over sqlite. The lease-transport transaction of the ledger port
  (\<open>with_lease_transport\<close>, its grants and settlements) carries the wire records of that protocol, which are not
  modelled; it writes two maps of its own and logs through \<open>push_event\<close>. Signed envelopes are ed25519 calls. Routing,
  fusion and behaviour detection are offline scaffolds that nothing reads. Generated contracts are serde
  structures. Printed error texts are modelled where the code compares or stores them; a refused lease gate
  carries its error unprinted.
\<close>

section \<open>State machines\<close>

text \<open>C32: A work package that has not yet been prepared reaches \<open>Integrated\<close> only through the whole
  verification line: any legal path to it ends with Prepared, Verifying, Verified, Reviewing,
  IntegrationReady, Integrating and Integrated, in this order and without a detour.\<close>

theorem integrated_only_verified:
  assumes "s \<in> {WpPending, WpReady, WpLeased, WpExecuting, WpStruggling, WpEscalating}"
    and "run_path work_package_transition s ts = Inr WpIntegrated"
  shows "\<exists>pre. ts = pre @ [WpPrepared, WpVerifying, WpVerified, WpReviewing, WpIntegrationReady,
                           WpIntegrating, WpIntegrated]"
proof -
  have s: "s \<noteq> WpIntegrated" "s \<noteq> WpIntegrating" "s \<noteq> WpIntegrationReady" "s \<noteq> WpReviewing"
    "s \<noteq> WpVerified" "s \<noteq> WpVerifying" "s \<noteq> WpPrepared"
    using assms(1) by auto
  note pred = work_package_machine.path_pred
  obtain p1 where p1: "ts = p1 @ [WpIntegrated]" "run_path work_package_transition s p1 = Inr WpIntegrating"
    using pred [OF integration_line(7) assms(2) s(1)] by blast
  obtain p2 where p2: "p1 = p2 @ [WpIntegrating]" "run_path work_package_transition s p2 = Inr WpIntegrationReady"
    using pred [OF integration_line(6) p1(2) s(2)] by blast
  obtain p3 where p3: "p2 = p3 @ [WpIntegrationReady]" "run_path work_package_transition s p3 = Inr WpReviewing"
    using pred [OF integration_line(5) p2(2) s(3)] by blast
  obtain p4 where p4: "p3 = p4 @ [WpReviewing]" "run_path work_package_transition s p4 = Inr WpVerified"
    using pred [OF integration_line(4) p3(2) s(4)] by blast
  obtain p5 where p5: "p4 = p5 @ [WpVerified]" "run_path work_package_transition s p5 = Inr WpVerifying"
    using pred [OF integration_line(3) p4(2) s(5)] by blast
  obtain p6 where p6: "p5 = p6 @ [WpVerifying]" "run_path work_package_transition s p6 = Inr WpPrepared"
    using pred [OF integration_line(2) p5(2) s(6)] by blast
  obtain p7 where p7: "p6 = p7 @ [WpPrepared]"
    using pred [OF integration_line(1) p6(2) s(7)] by blast
  show ?thesis using p1(1) p2(1) p3(1) p4(1) p5(1) p6(1) p7 by simp
qed

theorem integrated_only_verified_witness:
  "\<exists>pre. [WpReady, WpLeased, WpExecuting, WpStruggling, WpExecuting, WpPrepared, WpVerifying, WpVerified,
          WpReviewing, WpIntegrationReady, WpIntegrating, WpIntegrated] =
     pre @ [WpPrepared, WpVerifying, WpVerified, WpReviewing, WpIntegrationReady, WpIntegrating, WpIntegrated]"
  by (rule integrated_only_verified [of WpPending]) (simp_all add: transition_defs)

text \<open>The terminal states are exactly the absorbing ones: a mission, a work package or an attempt
  has no legal successor if and only if it is terminal, so a finished attempt never acts again.\<close>

theorem terminal_states_absorbing:
  "(mission_terminal m \<longleftrightarrow> (\<forall>b. \<not> is_ok (mission_transition m b))) \<and>
   (work_package_terminal w \<longleftrightarrow> (\<forall>b. \<not> is_ok (work_package_transition w b))) \<and>
   (is_terminal_release_target a \<longleftrightarrow> (\<forall>b. \<not> is_ok (attempt_transition a b)))"
  using mission_machine.terminal_iff work_package_machine.terminal_iff attempt_machine.terminal_iff
  by blast

section \<open>Evidence, gates and preservation\<close>

text \<open>An evidence row satisfies a blocking requirement exactly when its stored result is the wire
  name of a pass; a typed row keeps its tier and outcome, and it satisfies a requirement exactly when
  the outcome it was built from is a pass.\<close>

theorem evidence_pass_only:
  "(evidence_satisfies e \<longleftrightarrow> ev_result e = ''PASS'') \<and>
   evidence_tier_typed (evidence_typed i c t g out) = Inr t \<and>
   evidence_outcome (evidence_typed i c t g out) = out \<and>
   (evidence_satisfies (evidence_typed i c t g out) \<longleftrightarrow> out = GoPass)"
proof -
  have "tier_parse (tier_as_str t) = Inr t" by (rule tier_wire.parse_as_str)
  then show ?thesis
    by (simp add: evidence_satisfies_def outcome_satisfies_def evidence_outcome_def
        evidence_tier_typed_def evidence_typed_def)
qed

text \<open>A gate selection is admitted exactly when it has between one and sixteen entries, all of them
  the prefix followed by 64 lowercase hex digits and pairwise different; it is returned unchanged.\<close>

theorem gate_selection_iff:
  "parse_gate_ids vs = Inr r \<longleftrightarrow>
     r = vs \<and> 1 \<le> length vs \<and> length vs \<le> 16 \<and> distinct vs \<and>
     list_all (\<lambda>v. \<exists>body. v = ''gat_'' @ body \<and> is_hex_64 body) vs"
  unfolding parse_gate_ids_iff by (simp add: list_all_iff gate_id_parse_iff)

text \<open>C39: A workspace is cleaned up only on proof of preservation: whatever observation produced the
  decision and however the attempt changed since, an authorised cleanup hands out the receipt of a
  verified record that says Preserved for exactly this attempt, fence, workspace and nonce, and the
  attempt is finished and not quarantined both times.\<close>

theorem cleanup_only_preserved:
  assumes "for_workspace_cleanup obs a = Inr d" and "authorize_workspace_cleanup d a' = Inr receipt"
  shows "obs = ObsValue (record_for_attempt a CleanupWorkspace receipt PoPreserved) \<and>
     subject_from_attempt a' = subject_from_attempt a \<and>
     is_terminal_release_target (at_state a') \<and> at_state a' \<noteq> AsQuarantined \<and>
     is_terminal_release_target (at_state a) \<and> at_state a \<noteq> AsQuarantined"
  using assms unfolding for_workspace_cleanup_iff authorize_workspace_cleanup_iff
  by (auto simp: permits_preserved_workspace_cleanup_def is_terminal_release_target_def)

definition sample_attempt :: attempt where
  "sample_attempt =
     \<lparr>at_id = ''atm_1'', at_variant_id = ''var_1'', at_work_package_id = ''wpk_1'', at_fence = 3,
      at_runner_id = ''run_1'', at_runner_epoch = 1, at_workspace_id = ''wsp_1'',
      at_workspace_nonce = ''n'', at_scope_revision = 1, at_context_revision = 1, at_state = AsCrashed\<rparr>"

theorem cleanup_only_preserved_witness:
  "at_state sample_attempt \<noteq> AsQuarantined"
  using cleanup_only_preserved
    [of "ObsValue (record_for_attempt sample_attempt CleanupWorkspace ''r'' PoPreserved)" sample_attempt
      "\<lparr>pd_subject = subject_from_attempt sample_attempt, pd_operation = CleanupWorkspace,
        pd_receipt_digest = ''r''\<rparr>" sample_attempt "''r''"]
  by (simp add: for_workspace_cleanup_iff authorize_workspace_cleanup_iff
      permits_preserved_workspace_cleanup_def sample_attempt_def)

section \<open>The mutation guard\<close>

text \<open>C33: Authority lost is never regained: if a request is accepted before and after a run of fewer than
  2^64 operations, of any kind and in any order, then no freeze, no restore and no effective scope
  amendment happened in between.\<close>

theorem guard_no_resurrection:
  assumes "authorize_apply g r = Inr ()" and "authorize_apply (guard_run ops g) r = Inr ()"
    and "length ops < 2 ^ 64"
  shows "OpFreeze \<notin> set ops \<and> OpRestore \<notin> set ops \<and> amendments ops g = 0"
proof -
  have count: "count_list ops op < 2 ^ 64" for op
    using count_le_length [of ops op] assms(3) by linarith
  have eqs: "mg_freeze_generation g = mg_freeze_generation g + of_nat (count_list ops OpFreeze)"
    "mg_authority_epoch g = mg_authority_epoch g + of_nat (count_list ops OpRestore)"
    "mg_scope_revision g = mg_scope_revision g + of_nat (amendments ops g)"
    using assms(1,2) guard_run_counters [of ops g] by (auto simp: authorize_apply_iff)
  from add_of_nat_fixed [OF eqs(1) count] add_of_nat_fixed [OF eqs(2) count]
    add_of_nat_fixed [OF eqs(3)] amendments_le [of ops g] assms(3)
  show ?thesis by (simp add: count_list_0_iff)
qed

theorem guard_no_resurrection_witness:
  "amendments [OpEnterBarrier, OpResume] (guard_new 1 2 3 4) = 0"
proof -
  have "authorize_apply (guard_new 1 2 3 4)
      \<lparr>mc_fence = 1, mc_scope_revision = 2, mc_authority_epoch = 3, mc_freeze_generation = 4\<rparr> = Inr ()"
    by (simp add: authorize_apply_def guard_new_def)
  moreover have "authorize_apply (guard_run [OpEnterBarrier, OpResume] (guard_new 1 2 3 4))
      \<lparr>mc_fence = 1, mc_scope_revision = 2, mc_authority_epoch = 3, mc_freeze_generation = 4\<rparr> = Inr ()"
    by (simp add: authorize_apply_def guard_new_def guard_defs)
  ultimately show ?thesis
    using guard_no_resurrection [of "guard_new 1 2 3 4" _ "[OpEnterBarrier, OpResume]"] by simp
qed

text \<open>A scope amendment goes through: from any guard that is not frozen, entering the
  barrier, appending a revision, acknowledging exactly that revision and resuming all succeed, no
  request is accepted until the resume, and afterwards exactly one request is accepted, the one that
  carries the new revision.\<close>

theorem guard_amendment:
  assumes "\<not> mg_frozen g"
  shows "\<exists>g1 g2 g3 g4. enter_barrier g = (Inr (), g1) \<and>
     append_scope_revision g1 = (Inr (mg_scope_revision g + 1), g2) \<and>
     acknowledge_scope (mg_scope_revision g + 1) g2 = (Inr (), g3) \<and> resume g3 = (Inr (), g4) \<and>
     (\<forall>r. \<not> is_ok (authorize_apply g1 r) \<and> \<not> is_ok (authorize_apply g2 r) \<and> \<not> is_ok (authorize_apply g3 r)) \<and>
     (\<forall>r. authorize_apply g4 r = Inr () \<longleftrightarrow>
        r = \<lparr>mc_fence = mg_fence g, mc_scope_revision = mg_scope_revision g + 1,
             mc_authority_epoch = mg_authority_epoch g, mc_freeze_generation = mg_freeze_generation g\<rparr>)"
proof -
  let ?g1 = "g\<lparr>mg_barrier := True\<rparr>"
  let ?g2 = "?g1\<lparr>mg_scope_revision := mg_scope_revision g + 1\<rparr>"
  let ?g3 = "?g2\<lparr>mg_acknowledged_scope := mg_scope_revision g + 1\<rparr>"
  let ?g4 = "?g3\<lparr>mg_barrier := False\<rparr>"
  have "enter_barrier g = (Inr (), ?g1)" "append_scope_revision ?g1 = (Inr (mg_scope_revision g + 1), ?g2)"
    "acknowledge_scope (mg_scope_revision g + 1) ?g2 = (Inr (), ?g3)" "resume ?g3 = (Inr (), ?g4)"
    using assms by (simp_all add: guard_defs)
  moreover have "\<not> is_ok (authorize_apply h r)" if "mg_barrier h" for h r
    using that authorize_apply_iff [of h r] by (auto simp: is_ok_iff)
  moreover have "authorize_apply ?g4 r = Inr () \<longleftrightarrow>
      r = \<lparr>mc_fence = mg_fence g, mc_scope_revision = mg_scope_revision g + 1,
           mc_authority_epoch = mg_authority_epoch g, mc_freeze_generation = mg_freeze_generation g\<rparr>" for r
    using assms by (simp add: authorize_apply_iff)
  ultimately show ?thesis
    by (intro exI [of _ ?g1] exI [of _ ?g2] exI [of _ ?g3] exI [of _ ?g4]) simp
qed

theorem guard_amendment_witness: "\<exists>g1. enter_barrier (guard_new 1 2 3 4) = (Inr (), g1)"
  using guard_amendment [of "guard_new 1 2 3 4"] by (auto simp: guard_new_def)

section \<open>Budgets\<close>

text \<open>C40: The single ledger conserves its pot: after any sequence of reserve and settle calls, whatever
  they return, the code's own conservation check passes, the reserved units are the sum of the open
  rows, no two open rows share an identity and every open identity is marked as issued.\<close>

theorem budget_conservation:
  "bl_conserved (fold bl_step ops (bl_new known unknown)) \<and>
   unat (bl_reserved (fold bl_step ops (bl_new known unknown))) =
     open_units (bl_open (fold bl_step ops (bl_new known unknown))) \<and>
   distinct (map rs_id (bl_open (fold bl_step ops (bl_new known unknown)))) \<and>
   rs_id ` set (bl_open (fold bl_step ops (bl_new known unknown))) \<subseteq>
     bl_issued_ids (fold bl_step ops (bl_new known unknown))"
  using budget_system.run_inv [OF bl_new_inv, of ops known unknown]
  by (simp add: bl_inv_def bl_conserved_iff)

text \<open>From any reachable single ledger the internal refusals are unreachable: reserve never reports
  an overflow or a conservation failure, and settling an open row is refused only when the unknown
  liability counter itself cannot hold the overspend; a refusal leaves the ledger as it was.\<close>

theorem budget_internal_errors_unreachable:
  assumes "l = fold bl_step ops (bl_new known unknown)"
  shows "(\<forall>rid amount l'. bl_reserve rid amount l \<noteq> (Inl BeArithmeticOverflow, l') \<and>
            bl_reserve rid amount l \<noteq> (Inl BeConservation, l')) \<and>
     (\<forall>rid actual e l'. bl_settle rid actual l = (Inl e, l') \<longrightarrow> l' = l \<and>
        (e = BeNotFound \<and> rid \<notin> rs_id ` set (bl_open l) \<or>
         e = BeArithmeticOverflow \<and>
           (\<exists>row \<in> set (bl_open l). rs_id row = rid \<and>
              2 ^ 64 \<le> unat (bl_unknown_liability l) + (unat actual - unat (rs_amount row)))))"
proof -
  have inv: "bl_inv l"
    unfolding assms by (rule budget_system.run_inv [OF bl_new_inv])
  have settle: "l' = l \<and> (e = BeNotFound \<and> rid \<notin> rs_id ` set (bl_open l) \<or>
      e = BeArithmeticOverflow \<and> (\<exists>row \<in> set (bl_open l). rs_id row = rid \<and>
        2 ^ 64 \<le> unat (bl_unknown_liability l) + (unat actual - unat (rs_amount row))))"
    if res: "bl_settle rid actual l = (Inl e, l')" for rid actual e l'
  proof (cases "position (\<lambda>row. rs_id row = rid) (bl_open l)")
    case None
    with res show ?thesis by (auto simp: bl_settle_def position_None_iff)
  next
    case (Some i)
    from position_Some [OF Some] obtain ys row zs where
      split: "bl_open l = ys @ row # zs" "length ys = i" "rs_id row = rid" by blast
    then have "bl_open l ! i = row" and "row \<in> set (bl_open l)" by auto
    with res Some split(3) bl_settle_amounts_cases [OF inv, of row actual] show ?thesis
      by (auto simp: bl_settle_def split: if_splits)
  qed
  show ?thesis
    using settle by (auto simp: bl_reserve_cases [OF inv])
qed

theorem budget_internal_errors_unreachable_witness:
  "bl_settle ''a'' 4 (fold bl_step [BoReserve ''a'' 3] (bl_new 5 0)) \<noteq>
     (Inl BeConservation, fold bl_step [BoReserve ''a'' 3] (bl_new 5 0))"
  using budget_internal_errors_unreachable [OF refl, of "[BoReserve ''a'' 3]" 5 0] by blast

text \<open>C34: The vector ledger conserves every dimension: after any sequence of reserve, settle and release
  calls under any policies, the code's own conservation check passes and the reserved units of each
  dimension are exactly the sum of the open forecasts.\<close>

theorem vector_conservation:
  "vl_conserved (fold vl_step ops (vl_new opn unknown policy)) \<and>
   (\<forall>d. unat (ds_reserved (vl_pots (fold vl_step ops (vl_new opn unknown policy)) d)) =
      bt_sum (\<lambda>row. unat (vr_forecast row d)) (vl_open (fold vl_step ops (vl_new opn unknown policy))))"
  using vector_system.run_inv [OF vl_new_inv, of ops opn unknown policy]
  by (simp add: vl_inv_def vl_conserved_iff)

text \<open>C36: A reservation is admitted exactly when the caller presents the pinned policy snapshot, the
  identity is new and not empty, something is requested, and every requested dimension covers the
  request and still keeps the floor of the class; then exactly the requested units move from
  remaining to reserved, in all dimensions at once.\<close>

theorem vector_reserve_iff:
  assumes "l = fold vl_step ops (vl_new opn unknown policy)"
  shows "vl_reserve rid cls forecast supplied l = (Inr row, l') \<longleftrightarrow>
     supplied = Some (vl_policy l) \<and> rid \<noteq> [] \<and> forecast \<noteq> vec_zero \<and> rid \<notin> vl_issued l \<and>
     (\<forall>d. forecast d = 0 \<or>
        unat (forecast d) + unat (policy_floor_units (vl_policy l) cls (ds_opening (vl_pots l d)))
          \<le> unat (ds_remaining (vl_pots l d))) \<and>
     row = reserve_row l rid cls forecast \<and>
     l' = l\<lparr>vl_pots := (\<lambda>d. (vl_pots l d)\<lparr>ds_reserved := ds_reserved (vl_pots l d) + forecast d,
                                          ds_remaining := ds_remaining (vl_pots l d) - forecast d\<rparr>),
            vl_issued := insert rid (vl_issued l), vl_open := bt_insert rid row (vl_open l)\<rparr>"
proof -
  have "vl_inv l"
    unfolding assms by (rule vector_system.run_inv [OF vl_new_inv])
  from vl_reserve_Ok_iff [OF this] show ?thesis
    by (auto simp: reserve_fits_def fits_def reserve_state_def reserve_pot_def)
qed

definition sample_policy :: policy_snapshot where
  "sample_policy =
     \<lparr>sn_subject = \<lparr>bp_policy_id = ''p'', bp_provenance = ''p'', bp_generation = 1\<rparr>,
      sn_floors = (\<lambda>_. 10)\<rparr>"

definition sample_ledger :: vector_ledger where
  "sample_ledger = vl_new (\<lambda>_. 100) vec_zero sample_policy"

definition sample_forecast :: reservation_vector where
  "sample_forecast = vec_zero(DmCost := 5)"

definition sample_row :: vector_reservation where
  "sample_row = reserve_row sample_ledger ''a'' RcNormal sample_forecast"

lemma sample_ledger_policy [simp]: "vl_policy sample_ledger = sample_policy"
  by (simp add: sample_ledger_def vl_new_def)

lemma sample_reserve:
  "vl_reserve ''a'' RcNormal sample_forecast (Some sample_policy) sample_ledger =
     (Inr sample_row, reserve_state sample_ledger ''a'' RcNormal sample_forecast)"
proof -
  have "sample_forecast \<noteq> vec_zero" by (simp add: sample_forecast_def fun_upd_idem_iff vec_zero_def)
  moreover have "unat (policy_floor_units sample_policy RcNormal 100) = 10"
    by (simp add: policy_floor_units_def floor_percent_def unat_floor_units sample_policy_def)
  ultimately show ?thesis
    unfolding sample_ledger_def sample_row_def vl_reserve_Ok_iff [OF vl_new_inv]
    by (auto simp: reserve_fits_def fits_def vl_new_def vec_zero_def sample_forecast_def)
qed

theorem vector_reserve_iff_witness:
  "ds_remaining (vl_pots (snd (vl_reserve ''a'' RcNormal sample_forecast (Some sample_policy) sample_ledger)) DmCost) = 95"
proof -
  let ?l' = "reserve_state sample_ledger ''a'' RcNormal sample_forecast"
  have "?l' = sample_ledger
     \<lparr>vl_pots := (\<lambda>d. (vl_pots sample_ledger d)
        \<lparr>ds_reserved := ds_reserved (vl_pots sample_ledger d) + sample_forecast d,
         ds_remaining := ds_remaining (vl_pots sample_ledger d) - sample_forecast d\<rparr>),
      vl_issued := insert ''a'' (vl_issued sample_ledger), vl_open := bt_insert ''a'' sample_row (vl_open sample_ledger)\<rparr>"
    using sample_reserve
      vector_reserve_iff [of sample_ledger "[]" "\<lambda>_. 100" vec_zero sample_policy "''a''" RcNormal sample_forecast
        "Some sample_policy" sample_row ?l']
    by (simp add: sample_ledger_def)
  then show ?thesis
    unfolding sample_reserve by (simp add: sample_ledger_def vl_new_def sample_forecast_def)
qed

text \<open>A reservation refused for lack of units names the first dimension in canonical order that
  cannot cover its request: every requested dimension before it fits, it does not, the error is
  exhaustion or the class floor of that dimension with the exact numbers, and nothing changed.\<close>

theorem vector_refusal_first_dimension:
  assumes "l = fold vl_step ops (vl_new opn unknown policy)"
    and "vl_reserve rid cls forecast supplied l = (Inl e, l')" and "error_dimension e = Some d"
  shows "l' = l \<and> \<not> fits (vl_policy l) cls (vl_pots l d) (forecast d) \<and>
     e = shortfall (vl_policy l) cls d (vl_pots l d) (forecast d) \<and>
     (\<exists>before after. DIMENSION_ALL = before @ d # after \<and>
        (\<forall>d' \<in> set before. forecast d' = 0 \<or> fits (vl_policy l) cls (vl_pots l d') (forecast d')))"
proof -
  have inv: "vl_inv l"
    unfolding assms(1) by (rule vector_system.run_inv [OF vl_new_inv])
  have "error_dimension e = Some d \<Longrightarrow> reserve_loop (vl_policy l) cls (vl_pots l) (vec_nonzero forecast) = Inl e"
    using assms(2) by (auto simp: vl_reserve_def Let_def map_err_def split: sum.splits if_splits)
  from reserve_loop_Err [OF vl_inv_conserving [OF inv] distinct_vec_nonzero this [OF assms(3)]]
  obtain pre d' q post where split: "vec_nonzero forecast = pre @ (d', q) # post"
      and fit: "\<forall>(d', q') \<in> set pre. fits (vl_policy l) cls (vl_pots l d') q'"
      and nofit: "\<not> fits (vl_policy l) cls (vl_pots l d') q"
      and e: "e = shortfall (vl_policy l) cls d' (vl_pots l d') q"
    by blast
  have d': "d' = d" using e assms(3) by (simp add: shortfall_def split: if_splits)
  have q: "q = forecast d" "q \<noteq> 0"
    using vec_nonzero_iff [of d' q forecast] split d' by auto
  obtain before after where all: "DIMENSION_ALL = before @ d # after"
    using split_list [of d DIMENSION_ALL] by auto
  have "fits (vl_policy l) cls (vl_pots l x) (forecast x)" if x: "x \<in> set before" "forecast x \<noteq> 0" for x
  proof -
    let ?nz = "\<lambda>ds. filter (\<lambda>(_, units). 0 < units) (map (\<lambda>d. (d, forecast d)) ds)"
    have "vec_nonzero forecast = ?nz before @ (d, q) # ?nz after"
      using q by (simp add: vec_nonzero_def vec_iter_def all word_gt_0)
    moreover have "(d, q) \<notin> set (?nz before)"
      using distinct_DIMENSION_ALL unfolding all by auto
    moreover have "(d, q) \<notin> set pre"
      using distinct_vec_nonzero [of forecast] split d' by force
    ultimately have "pre = ?nz before"
      using split split_at_sep [of pre "(d, q)" post "?nz before" "?nz after"] d' by metis
    with x have "(x, forecast x) \<in> set pre" by (auto simp: word_gt_0)
    with fit show ?thesis by auto
  qed
  with all nofit e d' q(1) vl_reserve_refused [OF assms(2)] show ?thesis by blast
qed

theorem vector_refusal_first_dimension_witness:
  "\<not> fits sample_policy RcNormal (vl_pots (vl_new (\<lambda>_. 4) vec_zero sample_policy) DmToken) 5"
proof -
  let ?l = "vl_new (\<lambda>_. 4) vec_zero sample_policy"
  have "vec_nonzero (\<lambda>_. 5) = map (\<lambda>d. (d, 5)) DIMENSION_ALL"
    by (simp add: vec_nonzero_def vec_iter_def)
  then have "vl_reserve ''a'' RcNormal (\<lambda>_. 5) (Some sample_policy) ?l = (Inl (DeExhausted DmToken 5 4), ?l)"
    by (simp add: vl_reserve_def vl_new_def vec_is_zero_def DIMENSION_ALL_def)
  from vector_refusal_first_dimension [of ?l "[]" "\<lambda>_. 4" vec_zero sample_policy, OF _ this]
  show ?thesis by (simp add: vl_new_def)
qed

text \<open>C37: After any calls, every open reservation can be released: the call hands back its forecast, every
  dimension gets exactly the forecast units back from reserved to remaining and keeps everything else, the row is
  closed, and a second release is refused and changes nothing. Releasing what was just reserved therefore restores
  the ledger: only the identity stays used.\<close>

theorem vector_reserve_release:
  assumes "l = fold vl_step ops (vl_new opn unknown policy)"
  shows "(\<forall>rid row. bt_get (vl_open l) rid = Some row \<longrightarrow>
      (\<exists>l'. vl_release rid l = (Inr (vr_forecast row), l') \<and> vl_release rid l' = (Inl DeNotFound, l') \<and>
        bt_get (vl_open l') = (bt_get (vl_open l))(rid := None) \<and> vl_issued l' = vl_issued l \<and> vl_policy l' = vl_policy l \<and>
        (\<forall>d. unat (ds_remaining (vl_pots l' d)) = unat (ds_remaining (vl_pots l d)) + unat (vr_forecast row d) \<and>
          unat (ds_reserved (vl_pots l' d)) + unat (vr_forecast row d) = unat (ds_reserved (vl_pots l d)) \<and>
          vl_pots l' d = (vl_pots l d)\<lparr>ds_remaining := ds_remaining (vl_pots l' d), ds_reserved := ds_reserved (vl_pots l' d)\<rparr>))) \<and>
    (\<forall>rid cls forecast supplied row l'. vl_reserve rid cls forecast supplied l = (Inr row, l') \<longrightarrow>
      vl_release rid l' = (Inr forecast, l\<lparr>vl_issued := insert rid (vl_issued l)\<rparr>))"
proof -
  have inv: "vl_inv l"
    unfolding assms by (rule vector_system.run_inv [OF vl_new_inv])
  show ?thesis using release_gives_back [OF inv] release_undoes_reserve [OF inv] by blast
qed

theorem vector_reserve_release_witness:
  "vl_release ''a'' (reserve_state sample_ledger ''a'' RcNormal sample_forecast) =
     (Inr sample_forecast, sample_ledger\<lparr>vl_issued := {''a''}\<rparr>)"
  using vector_reserve_release [of sample_ledger "[]" "\<lambda>_. 100" vec_zero sample_policy] sample_reserve
  by (simp add: sample_ledger_def) (simp add: vl_new_def)

text \<open>C38: Settling an open reservation under the pinned policy, after any calls. If a liability counter would
  overflow, it is refused and nothing changes. Otherwise the row is closed and each dimension is settled on its own:
  an observed spend counts as settled up to the forecast, what is unused goes back to remaining, and what exceeds
  the forecast is added to the overrun; an unobserved forecast is retained, and an unobserved dimension without a
  forecast is counted as an unknown event. So neither overrun nor unobserved spend ever becomes headroom. The record
  has one row for every dimension that was forecast, used or unobserved, in canonical order, and marks exactly the
  overrun and the unobserved ones as liability.\<close>

theorem vector_settle:
  assumes "l = fold vl_step ops (vl_new opn unknown policy)" and "bt_get (vl_open l) rid = Some row"
  shows "if \<exists>d. liability_full (usage d) (vr_forecast row d) (vl_pots l d)
    then \<exists>d. vl_settle rid usage (Some (vl_policy l)) l = (Inl (DeArithmeticOverflow d), l)
    else \<exists>rec l'. vl_settle rid usage (Some (vl_policy l)) l = (Inr rec, l') \<and>
      bt_get (vl_open l') = (bt_get (vl_open l))(rid := None) \<and>
      map fe_dimension (sr_errors rec) = filter (\<lambda>d. vr_forecast row d \<noteq> 0 \<or> usage d \<noteq> UsKnown 0) DIMENSION_ALL \<and>
      list_all (\<lambda>e. is_liability (fe_outcome e) =
        (case usage (fe_dimension e) of UsKnown a \<Rightarrow> vr_forecast row (fe_dimension e) < a | UsUnknown \<Rightarrow> True)) (sr_errors rec) \<and>
      (\<forall>d. settles (usage d) (vr_forecast row d) (vl_pots l d) (vl_pots l' d))"
proof -
  have inv: "vl_inv l"
    unfolding assms(1) by (rule vector_system.run_inv [OF vl_new_inv])
  have sum: "ds_sum (vl_pots l d) = unat (ds_opening (vl_pots l d))" for d
    using inv by (simp add: vl_inv_def)
  from vl_settle_open [OF inv assms(2), of usage] show ?thesis
  proof (elim disjE exE conjE)
    assume ok: "\<forall>d. \<not> liability_full (usage d) (vr_forecast row d) (vl_pots l d)"
      and run: "vl_settle rid usage (Some (vl_policy l)) l = (Inr (settle_result usage row), settle_state l rid usage row)"
    have "settles (usage d) (vr_forecast row d) (vl_pots l d) (vl_pots (settle_state l rid usage row) d)" for d
      using settle_pot_settles [OF sum open_forecast_le [OF inv assms(2)]] ok by (simp add: settle_state_def)
    moreover have "bt_get (vl_open (settle_state l rid usage row)) = (bt_get (vl_open l))(rid := None)"
      by (simp add: settle_state_def fun_eq_iff)
    ultimately show ?thesis
      using ok run settle_rows_dimensions [where usage = usage and row = row] settle_rows_liability [where usage = usage and row = row]
      by (simp only: ok simp_thms not_ex if_False ex_simps) blast
  qed auto
qed

theorem vector_settle_witness:
  "\<exists>rec l'. vl_settle ''a'' (usage_known (vec_zero(DmCost := 3))) (Some sample_policy)
       (reserve_state sample_ledger ''a'' RcNormal sample_forecast) = (Inr rec, l') \<and>
     unat (ds_remaining (vl_pots l' DmCost)) = 97 \<and> unat (ds_settled (vl_pots l' DmCost)) = 3"
proof -
  let ?u = "usage_known (vec_zero(DmCost := 3))" and ?l = "reserve_state sample_ledger ''a'' RcNormal sample_forecast"
  have run: "?l = fold vl_step [VoReserve ''a'' RcNormal sample_forecast (Some sample_policy)]
      (vl_new (\<lambda>_. 100) vec_zero sample_policy)"
    using sample_reserve by (simp add: sample_ledger_def)
  have row: "bt_get (vl_open ?l) ''a'' = Some sample_row"
    by (simp add: reserve_state_def sample_row_def)
  have "\<not> (\<exists>d. liability_full (?u d) (vr_forecast sample_row d) (vl_pots ?l d))"
    by (simp add: liability_full_def usage_known_def sample_row_def reserve_row_def reserve_state_def
        reserve_pot_def sample_ledger_def vl_new_def vec_zero_def)
  with vector_settle [OF run row, of ?u] obtain rec l' where
    l': "vl_settle ''a'' ?u (Some sample_policy) ?l = (Inr rec, l')"
      "\<forall>d. settles (?u d) (vr_forecast sample_row d) (vl_pots ?l d) (vl_pots l' d)"
    by (auto simp: reserve_state_def)
  from l'(2) [rule_format, of DmCost]
  have "unat (ds_remaining (vl_pots l' DmCost)) = 97" "unat (ds_settled (vl_pots l' DmCost)) = 3"
    by (simp_all add: settles_def usage_known_def sample_row_def reserve_row_def sample_forecast_def reserve_state_def
        reserve_pot_def sample_ledger_def vl_new_def)
  with l'(1) show ?thesis by blast
qed

text \<open>C35: Capacity held back for urgent work stays available: under an admitted policy, if in a whole
  run every reservation request comes from a class no more urgent than \<open>c\<close>, then after the run
  every dimension still has at least the floor of \<open>c\<close> left, whatever was settled or released.\<close>

theorem emergency_reserve_held:
  assumes "policy_try_new provenance generation rules = Inr policy"
    and "\<forall>op \<in> set ops. only_classes_from c op"
  shows "policy_floor_units policy c (ds_opening (vl_pots (fold vl_step ops (vl_new opn unknown policy)) d))
     \<le> ds_remaining (vl_pots (fold vl_step ops (vl_new opn unknown policy)) d)"
proof -
  let ?n = "vl_new opn unknown policy"
  have mono: "policy_monotone (vl_policy ?n)"
    using policy_try_new_monotone [OF assms(1)] by (simp add: vl_new_def)
  have "vl_policy (fold vl_step ops ?n) = policy"
  proof -
    have "vl_inv l \<Longrightarrow> vl_policy (fold vl_step ops l) = vl_policy l" for l
    proof (induction ops arbitrary: l)
      case (Cons op ops)
      then show ?case using vl_step_inv [of l op] vl_step_policy [of l op] by (simp del: vl_step.simps)
    qed simp
    from this [OF vl_new_inv] show ?thesis by (simp add: vl_new_def)
  qed
  with vl_run_held [OF vl_new_inv mono vl_new_held assms(2)] show ?thesis
    by (simp add: reserve_held_def)
qed

definition sample_rules :: "class_floor list" where
  "sample_rules = map (\<lambda>c. \<lparr>cf_class = c, cf_floor_percent = of_nat (10 * class_rank c)\<rparr>) (rev LADDER)"

lemma sample_rules_admitted: "admitted_rules sample_rules"
proof -
  have cls: "map cf_class sample_rules = rev LADDER"
    by (simp add: sample_rules_def comp_def rev_map)
  have pct: "cf_floor_percent r = of_nat (10 * class_rank (cf_class r))" if "r \<in> set sample_rules" for r
    using that by (auto simp: sample_rules_def)
  have rank: "10 * class_rank c \<le> 70" for c by (cases c) simp_all
  have u: "unat (of_nat (10 * class_rank c) :: u16) = 10 * class_rank c" for c
  proof -
    have "10 * class_rank c < 65536" using rank [of c] by linarith
    then show ?thesis unfolding unat_of_nat by simp
  qed
  have up: "unat (cf_floor_percent r) = 10 * class_rank (cf_class r)" if "r \<in> set sample_rules" for r
    unfolding pct [OF that] by (rule u)
  have "\<forall>r \<in> set sample_rules. cf_floor_percent r \<le> 100"
  proof
    fix r assume "r \<in> set sample_rules"
    from up [OF this] rank [of "cf_class r"] show "cf_floor_percent r \<le> 100" by (simp add: word_le_nat_alt)
  qed
  moreover have "distinct (rev LADDER)" by (simp add: LADDER_def)
  ultimately show ?thesis
    unfolding admitted_rules_def cls by (simp add: up word_less_nat_alt outranks_def)
qed

theorem emergency_reserve_held_witness:
  "\<exists>policy. policy_try_new ''cfg'' 1 sample_rules = Inr policy \<and>
     policy_floor_units policy RcSecurity (ds_opening (vl_pots (fold vl_step
        [VoReserve ''a'' RcNormal sample_forecast (Some policy)] (vl_new (\<lambda>_. 100) vec_zero policy)) DmCost))
     \<le> ds_remaining (vl_pots (fold vl_step
        [VoReserve ''a'' RcNormal sample_forecast (Some policy)] (vl_new (\<lambda>_. 100) vec_zero policy)) DmCost)"
proof -
  have "admitted_subject ''cfg'' 1" by (simp add: admitted_subject_def is_ascii_graphic_def)
  then obtain policy where p: "policy_try_new ''cfg'' 1 sample_rules = Inr policy"
    using sample_rules_admitted by (auto simp: policy_try_new_iff)
  have "\<forall>op \<in> set [VoReserve ''a'' RcNormal sample_forecast (Some policy)]. only_classes_from RcSecurity op"
    by (simp add: only_classes_from_def less_eq_reserve_class_def)
  from p emergency_reserve_held [OF p this] show ?thesis by blast
qed

text \<open>A budget policy is admitted exactly when its provenance is 1 to 256 printable ASCII bytes, its
  generation is between 1 and 2^53 - 1, and its rows, in any order, name every class exactly once
  with at most 100 percent and strictly rising from the most urgent class to the least; the snapshot
  holds exactly those floors.\<close>

theorem policy_admission_iff:
  "policy_try_new provenance generation rules = Inr s \<longleftrightarrow>
     admitted_subject provenance generation \<and> admitted_rules rules \<and>
     s = \<lparr>sn_subject = \<lparr>bp_policy_id = derive_policy_id provenance (floors_of rules),
                        bp_provenance = provenance, bp_generation = generation\<rparr>,
          sn_floors = floors_of rules\<rparr>"
  by (rule policy_try_new_iff)

text \<open>The derived policy identity is a faithful name: two identities are equal exactly when the
  provenance and every floor are equal, whatever separators the provenance contains.\<close>

theorem policy_identity_faithful:
  "derive_policy_id p f = derive_policy_id q g \<longleftrightarrow> p = q \<and> f = g"
  using derive_policy_id_inject by blast

text \<open>The floor in units is the ceiling of the percentage of the opening capacity, computed without
  wrap-around for every 64-bit capacity, and never more than the capacity.\<close>

theorem floor_units_ceiling:
  "unat (floor_units percent opn) = (unat opn * min 100 (unat percent) + 99) div 100 \<and>
   floor_units percent opn \<le> opn"
  using floor_units_le by (simp add: unat_floor_units word_le_nat_alt)

end
